theory Spec2Isabelle
  imports Main "HOL-Library.Sublist"
begin

section \<open>JavaScript strings\<close>

text \<open>
  Source text is a \<open>string\<close>: a list of characters, each standing for one UTF-16 code
  unit below 256.  The white space of JavaScript (\<open>\s\<close> in a regular expression, and
  what \<open>String.prototype.trim\<close> removes) is, in that range, TAB, LF, VT, FF, CR, SPACE
  and NBSP.  A word character (\<open>\w\<close>, used by \<open>\b\<close>) is a letter, a digit or the underscore.
\<close>

definition whitespace :: string where
  "whitespace = [CHR 0x09, CHR 0x0A, CHR 0x0B, CHR 0x0C, CHR 0x0D, CHR 0x20, CHR 0xA0]"

definition wordchars :: string where
  "wordchars = ''abcdefghijklmnopqrstuvwxyzABCDEFGHIJKLMNOPQRSTUVWXYZ0123456789_''"

definition lineterm :: string where
  "lineterm = [CHR 0x0A, CHR 0x0D]"

definition isSpace :: "char \<Rightarrow> bool" where
  "isSpace c = (c \<in> set whitespace)"

definition isWord :: "char \<Rightarrow> bool" where
  "isWord c = (c \<in> set wordchars)"

text \<open>\<open>s.split(c)\<close> for a one-character separator: never empty, one more piece than
  there are separators.\<close>

fun split :: "char \<Rightarrow> string \<Rightarrow> string list" where
  "split c [] = [[]]"
| "split c (x # xs) =
     (if x = c then [] # split c xs
      else (case split c xs of [] \<Rightarrow> [[x]] | l # ls \<Rightarrow> (x # l) # ls))"

text \<open>\<open>lines.join(c)\<close> for a one-character separator.\<close>

fun join :: "char \<Rightarrow> string list \<Rightarrow> string" where
  "join c [] = []"
| "join c [l] = l"
| "join c (l # ls) = l @ c # join c ls"

definition trimStart :: "string \<Rightarrow> string" where
  "trimStart s = dropWhile isSpace s"

definition trimEnd :: "string \<Rightarrow> string" where
  "trimEnd s = rev (dropWhile isSpace (rev s))"

definition trim :: "string \<Rightarrow> string" where
  "trim s = trimEnd (trimStart s)"

definition startsWith :: "string \<Rightarrow> string \<Rightarrow> bool" where
  "startsWith s p = prefix p s"

fun includesStr :: "string \<Rightarrow> string \<Rightarrow> bool" where
  "includesStr [] p = (p = [])"
| "includesStr (x # xs) p = (prefix p (x # xs) \<or> includesStr xs p)"

section \<open>Regular expressions\<close>

text \<open>
  The regular expressions of the repository use literal characters, character classes,
  the quantifiers \<open>*\<close>, \<open>+\<close> and \<open>+?\<close> on a single character class, capture groups that
  are not themselves quantified, the anchors \<open>^\<close> and \<open>$\<close> (no \<open>m\<close> flag), \<open>\b\<close>, a
  one-character negative lookbehind and a one-character negative lookahead.  No pattern
  has an alternative.  A pattern is therefore a sequence of atoms; a capture group is
  written as an \<open>Open\<close> and a \<open>Close\<close> marker around its atoms.
\<close>

datatype cset = OneOf string | NoneOf string

fun inCset :: "cset \<Rightarrow> char \<Rightarrow> bool" where
  "inCset (OneOf cs) c = (c \<in> set cs)"
| "inCset (NoneOf cs) c = (c \<notin> set cs)"

datatype atom =
    Chr char
  | Cls cset
  | Star cset
  | Plus cset
  | PlusLazy cset
  | Open nat
  | Close nat
  | Bol
  | Eol
  | WordB
  | NotBehind cset
  | NotAhead cset

type_synonym regex = "atom list"

definition lit :: "string \<Rightarrow> regex" where
  "lit s = map Chr s"

definition ws :: cset where "ws = OneOf whitespace"            \<comment> \<open>\<open>\s\<close>\<close>
definition nws :: cset where "nws = NoneOf whitespace"        \<comment> \<open>\<open>\S\<close>\<close>
definition dot :: cset where "dot = NoneOf lineterm"          \<comment> \<open>\<open>.\<close>\<close>

type_synonym captures = "(nat \<times> string) list"

text \<open>The first alternative that succeeds, in the order the engine tries them.\<close>

fun firstSome :: "(nat \<Rightarrow> 'a option) \<Rightarrow> nat list \<Rightarrow> 'a option" where
  "firstSome f [] = None"
| "firstSome f (k # ks) = (case f k of Some r \<Rightarrow> Some r | None \<Rightarrow> firstSome f ks)"

text \<open>How many characters of the class stand at the front of the text.\<close>

definition run :: "cset \<Rightarrow> string \<Rightarrow> nat" where
  "run k r = length (takeWhile (inCset k) r)"

text \<open>The character before the position reached after consuming \<open>n\<close> characters.\<close>

definition prevAfter :: "nat \<Rightarrow> char option \<Rightarrow> string \<Rightarrow> char option" where
  "prevAfter n p r = (if n = 0 then p else Some (r ! (n - 1)))"

definition isWordOpt :: "char option \<Rightarrow> bool" where
  "isWordOpt p = (case p of None \<Rightarrow> False | Some c \<Rightarrow> isWord c)"

definition headOpt :: "string \<Rightarrow> char option" where
  "headOpt r = (case r of [] \<Rightarrow> None | x # _ \<Rightarrow> Some x)"

definition captured :: "string option \<Rightarrow> string \<Rightarrow> string" where
  "captured start r =
     (case start of None \<Rightarrow> [] | Some r0 \<Rightarrow> take (length r0 - length r) r0)"

text \<open>
  The backtracking matcher.  \<open>p\<close> is the character before the current position
  (\<open>None\<close> at index 0), \<open>r\<close> the text from the current position on, \<open>os\<close> the text at
  which each open group started, \<open>cs\<close> the groups captured so far.  The result is the
  text left after the match, with the captures.  A greedy quantifier tries the longest
  run first, a lazy one the shortest.
\<close>

fun rmatch :: "regex \<Rightarrow> char option \<Rightarrow> string \<Rightarrow> captures \<Rightarrow> captures
                \<Rightarrow> (string \<times> captures) option" where
  "rmatch [] p r os cs = Some (r, cs)"
| "rmatch (Chr c # as) p r os cs =
     (case r of [] \<Rightarrow> None
      | x # xs \<Rightarrow> if x = c then rmatch as (Some x) xs os cs else None)"
| "rmatch (Cls k # as) p r os cs =
     (case r of [] \<Rightarrow> None
      | x # xs \<Rightarrow> if inCset k x then rmatch as (Some x) xs os cs else None)"
| "rmatch (Star k # as) p r os cs =
     firstSome (\<lambda>n. rmatch as (prevAfter n p r) (drop n r) os cs) (rev [0..<Suc (run k r)])"
| "rmatch (Plus k # as) p r os cs =
     firstSome (\<lambda>n. rmatch as (prevAfter n p r) (drop n r) os cs) (rev [1..<Suc (run k r)])"
| "rmatch (PlusLazy k # as) p r os cs =
     firstSome (\<lambda>n. rmatch as (prevAfter n p r) (drop n r) os cs) [1..<Suc (run k r)]"
| "rmatch (Open g # as) p r os cs = rmatch as p r ((g, r) # os) cs"
| "rmatch (Close g # as) p r os cs =
     rmatch as p r os ((g, captured (map_of os g) r) # cs)"
| "rmatch (Bol # as) p r os cs = (if p = None then rmatch as p r os cs else None)"
| "rmatch (Eol # as) p r os cs = (if r = [] then rmatch as p r os cs else None)"
| "rmatch (WordB # as) p r os cs =
     (if isWordOpt p \<noteq> isWordOpt (headOpt r) then rmatch as p r os cs else None)"
| "rmatch (NotBehind k # as) p r os cs =
     (case p of None \<Rightarrow> rmatch as p r os cs
      | Some c \<Rightarrow> if inCset k c then None else rmatch as p r os cs)"
| "rmatch (NotAhead k # as) p r os cs =
     (case r of [] \<Rightarrow> rmatch as p r os cs
      | x # _ \<Rightarrow> if inCset k x then None else rmatch as p r os cs)"

text \<open>
  A match: the index where it starts, the character before it, the text from its start,
  the text after its end, and its captures.
\<close>

record rematch =
  m_index :: nat
  m_prev :: "char option"
  m_from :: string
  m_after :: string
  m_groups :: captures

definition m_text :: "rematch \<Rightarrow> string" where
  "m_text m = take (length (m_from m) - length (m_after m)) (m_from m)"

definition group :: "rematch \<Rightarrow> nat \<Rightarrow> string option" where
  "group m g = map_of (m_groups m) g"

text \<open>The engine tries every start index from the current one to the end of the text.\<close>

fun search :: "regex \<Rightarrow> char option \<Rightarrow> string \<Rightarrow> nat \<Rightarrow> rematch option" where
  "search re p [] i =
     (case rmatch re p [] [] [] of None \<Rightarrow> None
      | Some (r', cs) \<Rightarrow>
          Some \<lparr>m_index = i, m_prev = p, m_from = [], m_after = r', m_groups = cs\<rparr>)"
| "search re p (x # xs) i =
     (case rmatch re p (x # xs) [] [] of
        None \<Rightarrow> search re (Some x) xs (Suc i)
      | Some (r', cs) \<Rightarrow>
          Some \<lparr>m_index = i, m_prev = p, m_from = x # xs, m_after = r', m_groups = cs\<rparr>)"

text \<open>\<open>re.test(s)\<close> and \<open>s.match(re)\<close> for a pattern without the \<open>g\<close> flag.\<close>

definition test :: "regex \<Rightarrow> string \<Rightarrow> bool" where
  "test re s = (search re None s 0 \<noteq> None)"

definition match :: "string \<Rightarrow> regex \<Rightarrow> rematch option" where
  "match s re = search re None s 0"

definition group1 :: "rematch \<Rightarrow> string" where
  "group1 m = (case group m 1 of None \<Rightarrow> [] | Some g \<Rightarrow> g)"

text \<open>
  \<open>s.matchAll(re)\<close> for a pattern with the \<open>g\<close> flag: every match, left to right, each
  search starting where the last match ended (one character further after an empty
  match).  \<open>skip\<close> counts the characters of the last match that are still ahead.
\<close>

fun matchAllFrom :: "regex \<Rightarrow> char option \<Rightarrow> string \<Rightarrow> nat \<Rightarrow> nat \<Rightarrow> rematch list" where
  "matchAllFrom re p [] i skip =
     (if 0 < skip then []
      else (case rmatch re p [] [] [] of None \<Rightarrow> []
            | Some (r', cs) \<Rightarrow>
                [\<lparr>m_index = i, m_prev = p, m_from = [], m_after = r', m_groups = cs\<rparr>]))"
| "matchAllFrom re p (x # xs) i skip =
     (if 0 < skip then matchAllFrom re (Some x) xs (Suc i) (skip - 1)
      else (case rmatch re p (x # xs) [] [] of
              None \<Rightarrow> matchAllFrom re (Some x) xs (Suc i) 0
            | Some (r', cs) \<Rightarrow>
                \<lparr>m_index = i, m_prev = p, m_from = x # xs, m_after = r', m_groups = cs\<rparr>
                # matchAllFrom re (Some x) xs (Suc i) (length (x # xs) - length r' - 1)))"

definition matchAll :: "string \<Rightarrow> regex \<Rightarrow> rematch list" where
  "matchAll s re = matchAllFrom re None s 0 0"

text \<open>
  \<open>s.replace(re, repl)\<close> for a pattern with the \<open>g\<close> flag and a replacement text without
  \<open>$\<close>: the text between the matches is kept, each match becomes \<open>repl\<close>.
\<close>

fun replaceFrom :: "regex \<Rightarrow> string \<Rightarrow> char option \<Rightarrow> string \<Rightarrow> nat \<Rightarrow> string" where
  "replaceFrom re repl p [] skip =
     (if 0 < skip then []
      else (case rmatch re p [] [] [] of None \<Rightarrow> [] | Some _ \<Rightarrow> repl))"
| "replaceFrom re repl p (x # xs) skip =
     (if 0 < skip then replaceFrom re repl (Some x) xs (skip - 1)
      else (case rmatch re p (x # xs) [] [] of
              None \<Rightarrow> x # replaceFrom re repl (Some x) xs 0
            | Some (r', cs) \<Rightarrow>
                (if length (x # xs) - length r' = 0
                 then repl @ x # replaceFrom re repl (Some x) xs 0
                 else repl @ replaceFrom re repl (Some x) xs (length (x # xs) - length r' - 1))))"

definition replaceAll :: "string \<Rightarrow> regex \<Rightarrow> string \<Rightarrow> string" where
  "replaceAll s re repl = replaceFrom re repl None s 0"

section \<open>Safety analyzer\<close>

subsection \<open>Types (\<open>core/safety/types.ts\<close>)\<close>

datatype ViolationType =
    dangerous_import
  | code_execution
  | filesystem_access
  | network_access
  | dangerous_attribute
  | serialization_danger
  | ffi_danger
  | infinite_loop
  | resource_exhaustion
  | command_injection

datatype Severity = error | warning

record SafetyViolation =
  v_type :: ViolationType
  v_message :: string
  v_line :: "nat option"
  v_severity :: Severity

record SafetyReport =
  safe :: bool
  violations :: "SafetyViolation list"

subsection \<open>Rules (\<open>core/safety/rules.ts\<close>)\<close>

record SafetyRule =
  r_type :: ViolationType
  patterns :: "regex list"
  getMessage :: "rematch \<Rightarrow> string"
  r_severity :: Severity
  skipIf :: "(string \<Rightarrow> rematch \<Rightarrow> bool) option"

definition rule :: "ViolationType \<Rightarrow> regex list \<Rightarrow> string \<Rightarrow> SafetyRule" where
  "rule t ps msg =
     \<lparr>r_type = t, patterns = ps, getMessage = (\<lambda>_. msg), r_severity = error, skipIf = None\<rparr>"

text \<open>\<open>/\bimport\s+NAME\b/\<close> and \<open>/\bfrom\s+NAME\s+import\b/\<close>.\<close>

definition importPat :: "string \<Rightarrow> regex" where
  "importPat name = [WordB] @ lit ''import'' @ [Plus ws] @ lit name @ [WordB]"

definition fromImportPat :: "string \<Rightarrow> regex" where
  "fromImportPat name =
     [WordB] @ lit ''from'' @ [Plus ws] @ lit name @ [Plus ws] @ lit ''import'' @ [WordB]"

definition dangerousImportRules :: "SafetyRule list" where
  "dangerousImportRules =
    [rule dangerous_import [importPat ''os'', fromImportPat ''os'']
       ''Dangerous import: os module allows system access'',
     rule dangerous_import [importPat ''subprocess'', fromImportPat ''subprocess'']
       ''Dangerous import: subprocess module allows command execution'',
     rule dangerous_import [importPat ''socket'', fromImportPat ''socket'']
       ''Dangerous import: socket module allows network access'',
     rule dangerous_import [importPat ''pty'', fromImportPat ''pty'']
       ''Dangerous import: pty module allows pseudo-terminal access'']"

text \<open>\<open>/\bNAME\s*\(/\<close>.\<close>

definition callPat :: "string \<Rightarrow> regex" where
  "callPat name = [WordB] @ lit name @ [Star ws, Chr (CHR ''('')]"

definition codeExecutionRules :: "SafetyRule list" where
  "codeExecutionRules =
    [rule code_execution [callPat ''exec'']
       ''Dangerous function: exec() can execute arbitrary code'',
     rule code_execution [callPat ''eval'']
       ''Dangerous function: eval() can execute arbitrary code'',
     rule code_execution [callPat ''compile'']
       ''Dangerous function: compile() can compile arbitrary code'',
     rule code_execution [lit ''__import__'' @ [Star ws, Chr (CHR ''('')]]
       ''Dangerous function: __import__() can import arbitrary modules'']"

definition quotes :: string where
  "quotes = [CHR 0x27, CHR 0x22]"

text \<open>\<open>/open\s*\(\s*['"](\/DIR\/[^'"]*)['"]/\<close>.\<close>

definition openPat :: "string \<Rightarrow> regex" where
  "openPat dir =
     lit ''open'' @ [Star ws, Chr (CHR ''(''), Star ws, Cls (OneOf quotes), Open 1]
     @ lit dir @ [Star (NoneOf quotes), Close 1, Cls (OneOf quotes)]"

text \<open>\<open>/open\s*\(\s*['"](\/.+?)['"]\s*,\s*['"][wa]/\<close>.\<close>

definition openWritePat :: regex where
  "openWritePat =
     lit ''open'' @ [Star ws, Chr (CHR ''(''), Star ws, Cls (OneOf quotes), Open 1,
       Chr (CHR ''/''), PlusLazy dot, Close 1, Cls (OneOf quotes), Star ws, Chr (CHR '',''),
       Star ws, Cls (OneOf quotes), Cls (OneOf ''wa'')]"

definition filesystemRules :: "SafetyRule list" where
  "filesystemRules =
    [\<lparr>r_type = filesystem_access, patterns = [openPat ''/etc/''],
      getMessage = (\<lambda>m. ''Filesystem access: Attempting to access /etc/ ('' @ group1 m @ '')''),
      r_severity = error, skipIf = None\<rparr>,
     \<lparr>r_type = filesystem_access, patterns = [openPat ''/proc/''],
      getMessage = (\<lambda>m. ''Filesystem access: Attempting to access /proc/ ('' @ group1 m @ '')''),
      r_severity = error, skipIf = None\<rparr>,
     \<lparr>r_type = filesystem_access, patterns = [openWritePat],
      getMessage = (\<lambda>m. ''Filesystem access: Writing to absolute path '' @ group1 m),
      r_severity = error, skipIf = None\<rparr>]"

definition networkRules :: "SafetyRule list" where
  "networkRules =
    [rule network_access
       [importPat ''urllib'', [WordB] @ lit ''from'' @ [Plus ws] @ lit ''urllib'' @ [WordB]]
       ''Network access: urllib allows HTTP requests'',
     rule network_access [importPat ''http.client'', fromImportPat ''http.client'']
       ''Network access: http.client allows HTTP connections'',
     rule network_access [importPat ''requests'', fromImportPat ''requests'']
       ''Network access: requests library allows HTTP requests'',
     rule network_access [importPat ''ftplib'', fromImportPat ''ftplib'']
       ''Network access: ftplib allows FTP connections'']"

definition dangerousAttributeRules :: "SafetyRule list" where
  "dangerousAttributeRules =
    [rule dangerous_attribute [lit ''__builtins__'']
       ''Dangerous attribute: __builtins__ access can bypass sandboxing'',
     rule dangerous_attribute [lit ''__globals__'']
       ''Dangerous attribute: __globals__ access can expose sensitive data'',
     rule dangerous_attribute [lit ''__code__'']
       ''Dangerous attribute: __code__ access can modify function behavior'',
     rule dangerous_attribute [lit ''__subclasses__'']
       ''Dangerous attribute: __subclasses__ access enables class traversal attacks'',
     rule dangerous_attribute [lit ''__mro__'']
       ''Dangerous attribute: __mro__ access enables method resolution order traversal'']"

definition serializationRules :: "SafetyRule list" where
  "serializationRules =
    [rule serialization_danger [importPat ''pickle'', fromImportPat ''pickle'']
       ''Serialization danger: pickle can execute arbitrary code during deserialization'',
     rule serialization_danger [importPat ''cPickle'', fromImportPat ''cPickle'']
       ''Serialization danger: cPickle can execute arbitrary code during deserialization'',
     rule serialization_danger [importPat ''marshal'', fromImportPat ''marshal'']
       ''Serialization danger: marshal can execute arbitrary code'',
     rule serialization_danger [importPat ''shelve'', fromImportPat ''shelve'']
       ''Serialization danger: shelve uses pickle internally'']"

definition ffiRules :: "SafetyRule list" where
  "ffiRules =
    [rule ffi_danger [importPat ''ctypes'', fromImportPat ''ctypes'']
       ''FFI danger: ctypes allows calling native libraries'',
     rule ffi_danger [importPat ''cffi'', fromImportPat ''cffi'']
       ''FFI danger: cffi allows calling native libraries'']"

text \<open>\<open>/\bbreak\b/\<close>, \<open>/while\s+True\s*:/\<close> and \<open>/while\s+1\s*:/\<close>.\<close>

definition breakPat :: regex where
  "breakPat = [WordB] @ lit ''break'' @ [WordB]"

definition whilePat :: "string \<Rightarrow> regex" where
  "whilePat cond = lit ''while'' @ [Plus ws] @ lit cond @ [Star ws, Chr (CHR '':'')]"

definition infiniteLoopRules :: "SafetyRule list" where
  "infiniteLoopRules =
    [\<lparr>r_type = infinite_loop, patterns = [whilePat ''True''],
      getMessage = (\<lambda>_. ''Potential infinite loop: while True without apparent break''),
      r_severity = warning, skipIf = Some (\<lambda>code _. test breakPat code)\<rparr>,
     \<lparr>r_type = infinite_loop, patterns = [whilePat ''1''],
      getMessage = (\<lambda>_. ''Potential infinite loop: while 1 without apparent break''),
      r_severity = warning, skipIf = Some (\<lambda>code _. test breakPat code)\<rparr>]"

definition digits :: string where
  "digits = ''0123456789''"

text \<open>
  \<open>/range\s*\(\s*10\s*\*\*\s*[789]\s*\)/\<close>, \<open>/range\s*\(\s*2\s*\*\*\s*[3-9][0-9]+\s*\)/\<close>,
  \<open>/\*\s*\(\s*10\s*\*\*\s*[789]\s*\)/\<close> and \<open>/\[\s*[^\]]*\]\s*\*\s*10000\s*\]\s*\*\s*10000/\<close>.
\<close>

definition resourceExhaustionRules :: "SafetyRule list" where
  "resourceExhaustionRules =
    [rule resource_exhaustion
       [lit ''range'' @ [Star ws, Chr (CHR ''(''), Star ws] @ lit ''10'' @ [Star ws]
        @ lit ''**'' @ [Star ws, Cls (OneOf ''789''), Star ws, Chr (CHR '')'')]]
       ''Resource exhaustion: range() with extremely large value (10^7+)'',
     rule resource_exhaustion
       [lit ''range'' @ [Star ws, Chr (CHR ''(''), Star ws] @ lit ''2'' @ [Star ws]
        @ lit ''**'' @ [Star ws, Cls (OneOf ''3456789''), Plus (OneOf digits), Star ws,
        Chr (CHR '')'')]]
       ''Resource exhaustion: range() with exponential value'',
     rule resource_exhaustion
       [[Chr (CHR ''*''), Star ws, Chr (CHR ''(''), Star ws] @ lit ''10'' @ [Star ws]
        @ lit ''**'' @ [Star ws, Cls (OneOf ''789''), Star ws, Chr (CHR '')'')]]
       ''Resource exhaustion: multiplication with extremely large value'',
     rule resource_exhaustion
       [[Chr (CHR ''[''), Star ws, Star (NoneOf '']''), Chr (CHR '']''), Star ws,
         Chr (CHR ''*''), Star ws] @ lit ''10000'' @ [Star ws, Chr (CHR '']''), Star ws,
         Chr (CHR ''*''), Star ws] @ lit ''10000'']
       ''Resource exhaustion: nested list multiplication creating huge array'']"

text \<open>\<open>/os\.popen\s*\(/\<close>, \<open>/shell\s*=\s*True/\<close> and \<open>/os\.system\s*\(\s*f['"]/\<close>.\<close>

definition commandInjectionRules :: "SafetyRule list" where
  "commandInjectionRules =
    [rule command_injection [lit ''os.popen'' @ [Star ws, Chr (CHR ''('')]]
       ''Command injection risk: os.popen() with potential user input'',
     rule command_injection
       [lit ''shell'' @ [Star ws, Chr (CHR ''=''), Star ws] @ lit ''True'']
       ''Command injection risk: shell=True allows shell injection'',
     rule command_injection
       [lit ''os.system'' @ [Star ws, Chr (CHR ''(''), Star ws, Chr (CHR ''f''),
        Cls (OneOf quotes)]]
       ''Command injection risk: os.system() with f-string'']"

definition allRules :: "SafetyRule list" where
  "allRules =
     dangerousImportRules @ codeExecutionRules @ filesystemRules @ networkRules
     @ dangerousAttributeRules @ serializationRules @ ffiRules @ infiniteLoopRules
     @ resourceExhaustionRules @ commandInjectionRules"

subsection \<open>Analyzer (\<open>core/safety/analyzer.ts\<close>)\<close>

definition getLineNumber :: "string \<Rightarrow> nat \<Rightarrow> nat" where
  "getLineNumber code index = length (split (CHR 0x0A) (take index code))"

definition skips :: "SafetyRule \<Rightarrow> string \<Rightarrow> rematch \<Rightarrow> bool" where
  "skips r code m = (case skipIf r of None \<Rightarrow> False | Some f \<Rightarrow> f code m)"

definition mkViolation :: "SafetyRule \<Rightarrow> string \<Rightarrow> rematch \<Rightarrow> SafetyViolation" where
  "mkViolation r code m =
     \<lparr>v_type = r_type r, v_message = getMessage r m,
      v_line = Some (getLineNumber code (m_index m)), v_severity = r_severity r\<rparr>"

definition applyRule :: "string \<Rightarrow> SafetyRule \<Rightarrow> SafetyViolation list" where
  "applyRule code r =
     concat (map (\<lambda>pattern.
        map (mkViolation r code) (filter (\<lambda>m. \<not> skips r code m) (matchAll code pattern)))
       (patterns r))"

definition analyze :: "string \<Rightarrow> SafetyReport" where
  "analyze code =
     (let vs = concat (map (applyRule code) allRules)
      in \<lparr>safe = (length vs = 0), violations = vs\<rparr>)"

section \<open>Transformation passes\<close>

subsection \<open>Async wrapping\<close>

definition indentLine :: "string \<Rightarrow> string" where
  "indentLine line = (if line \<noteq> [] then ''    '' @ line else line)"

definition wrapAsync :: "string \<Rightarrow> string" where
  "wrapAsync code =
     (let lines = split (CHR 0x0A) code;
          indentedLines = map indentLine lines;
          joined = join (CHR 0x0A) indentedLines;
          indentedCode = (if joined \<noteq> [] then joined else ''    pass'')
      in ''async def __pyx_main__():'' @ [CHR 0x0A] @ indentedCode @ [CHR 0x0A])"

text \<open>\<open>/^(\s*)/\<close> and \<open>/\bawait\s+/\<close>.\<close>

definition indentPat :: regex where
  "indentPat = [Bol, Open 1, Star ws, Close 1]"

definition awaitPat :: regex where
  "awaitPat = [WordB] @ lit ''await'' @ [Plus ws]"

definition leadingSpace :: "string \<Rightarrow> string" where
  "leadingSpace line = (case match line indentPat of None \<Rightarrow> [] | Some m \<Rightarrow> group1 m)"

text \<open>
  The loop of \<open>hasTopLevelAwait\<close> over the lines, with its two variables
  \<open>insideAsyncDef\<close> and \<open>asyncDefIndent\<close>.
\<close>

fun hasTopLevelAwaitLoop :: "string list \<Rightarrow> bool \<Rightarrow> nat \<Rightarrow> bool" where
  "hasTopLevelAwaitLoop [] insideAsyncDef asyncDefIndent = False"
| "hasTopLevelAwaitLoop (line # rest) insideAsyncDef asyncDefIndent =
     (let trimmed = trim line in
      if trimmed = [] \<or> startsWith trimmed ''#''
      then hasTopLevelAwaitLoop rest insideAsyncDef asyncDefIndent
      else
        let currentIndent = length (leadingSpace line) in
        if startsWith trimmed ''async def ''
        then hasTopLevelAwaitLoop rest True currentIndent
        else
          let inside = (if insideAsyncDef \<and> currentIndent \<le> asyncDefIndent
                           \<and> \<not> startsWith trimmed ''async def ''
                        then False else insideAsyncDef) in
          if \<not> inside \<and> test awaitPat trimmed then True
          else hasTopLevelAwaitLoop rest inside asyncDefIndent)"

definition hasTopLevelAwait :: "string \<Rightarrow> bool" where
  "hasTopLevelAwait code = hasTopLevelAwaitLoop (split (CHR 0x0A) code) False 0"

definition wrapTopLevelAwait :: "string \<Rightarrow> string" where
  "wrapTopLevelAwait code = (if \<not> hasTopLevelAwait code then code else wrapAsync code)"

subsection \<open>Import rewriting\<close>

definition STDLIB_MODULES :: "string set" where
  "STDLIB_MODULES = set
     [''abc'', ''aifc'', ''argparse'', ''array'', ''ast'', ''asynchat'', ''asyncio'',
      ''asyncore'', ''atexit'', ''audioop'', ''base64'', ''bdb'', ''binascii'', ''binhex'',
      ''bisect'', ''builtins'', ''bz2'', ''calendar'', ''cgi'', ''cgitb'', ''chunk'',
      ''cmath'', ''cmd'', ''code'', ''codecs'', ''codeop'', ''collections'', ''colorsys'',
      ''compileall'', ''concurrent'', ''configparser'', ''contextlib'', ''contextvars'',
      ''copy'', ''copyreg'', ''cProfile'', ''crypt'', ''csv'', ''ctypes'', ''curses'',
      ''dataclasses'', ''datetime'', ''dbm'', ''decimal'', ''difflib'', ''dis'',
      ''distutils'', ''doctest'', ''email'', ''encodings'', ''enum'', ''errno'',
      ''faulthandler'', ''fcntl'', ''filecmp'', ''fileinput'', ''fnmatch'', ''fractions'',
      ''ftplib'', ''functools'', ''gc'', ''getopt'', ''getpass'', ''gettext'', ''glob'',
      ''graphlib'', ''grp'', ''gzip'', ''hashlib'', ''heapq'', ''hmac'', ''html'',
      ''http'', ''idlelib'', ''imaplib'', ''imghdr'', ''imp'', ''importlib'', ''inspect'',
      ''io'', ''ipaddress'', ''itertools'', ''json'', ''keyword'', ''lib2to3'',
      ''linecache'', ''locale'', ''logging'', ''lzma'', ''mailbox'', ''mailcap'',
      ''marshal'', ''math'', ''mimetypes'', ''mmap'', ''modulefinder'',
      ''multiprocessing'', ''netrc'', ''nis'', ''nntplib'', ''numbers'', ''operator'',
      ''optparse'', ''os'', ''ossaudiodev'', ''pathlib'', ''pdb'', ''pickle'',
      ''pickletools'', ''pipes'', ''pkgutil'', ''platform'', ''plistlib'', ''poplib'',
      ''posix'', ''posixpath'', ''pprint'', ''profile'', ''pstats'', ''pty'', ''pwd'',
      ''py_compile'', ''pyclbr'', ''pydoc'', ''queue'', ''quopri'', ''random'', ''re'',
      ''readline'', ''reprlib'', ''resource'', ''rlcompleter'', ''runpy'', ''sched'',
      ''secrets'', ''select'', ''selectors'', ''shelve'', ''shlex'', ''shutil'',
      ''signal'', ''site'', ''smtpd'', ''smtplib'', ''sndhdr'', ''socket'',
      ''socketserver'', ''spwd'', ''sqlite3'', ''ssl'', ''stat'', ''statistics'',
      ''string'', ''stringprep'', ''struct'', ''subprocess'', ''sunau'', ''symtable'',
      ''sys'', ''sysconfig'', ''syslog'', ''tabnanny'', ''tarfile'', ''telnetlib'',
      ''tempfile'', ''termios'', ''test'', ''textwrap'', ''threading'', ''time'',
      ''timeit'', ''tkinter'', ''token'', ''tokenize'', ''tomllib'', ''trace'',
      ''traceback'', ''tracemalloc'', ''tty'', ''turtle'', ''turtledemo'', ''types'',
      ''typing'', ''unicodedata'', ''unittest'', ''urllib'', ''uu'', ''uuid'', ''venv'',
      ''warnings'', ''wave'', ''weakref'', ''webbrowser'', ''winreg'', ''winsound'',
      ''wsgiref'', ''xdrlib'', ''xml'', ''xmlrpc'', ''zipapp'', ''zipfile'', ''zipimport'',
      ''zlib'', ''zoneinfo'']"

text \<open>\<open>s.split(c)[0]\<close>.\<close>

definition splitFirst :: "char \<Rightarrow> string \<Rightarrow> string" where
  "splitFirst c s = (case split c s of [] \<Rightarrow> [] | x # _ \<Rightarrow> x)"

definition isStdlibModule :: "string \<Rightarrow> bool" where
  "isStdlibModule moduleName = (splitFirst (CHR ''.'') moduleName \<in> STDLIB_MODULES)"

text \<open>\<open>/^\s*import\s+(\S+)/\<close> and \<open>/^\s*from\s+(\S+)\s+import/\<close>.\<close>

definition importLinePat :: regex where
  "importLinePat = [Bol, Star ws] @ lit ''import'' @ [Plus ws, Open 1, Plus nws, Close 1]"

definition fromLinePat :: regex where
  "fromLinePat =
     [Bol, Star ws] @ lit ''from'' @ [Plus ws, Open 1, Plus nws, Close 1, Plus ws]
     @ lit ''import''"

definition extractModuleName :: "string \<Rightarrow> string option" where
  "extractModuleName importLine =
     (case match importLine importLinePat of
        Some importMatch \<Rightarrow> Some (splitFirst (CHR ''.'') (group1 importMatch))
      | None \<Rightarrow>
         (case match importLine fromLinePat of
            Some fromMatch \<Rightarrow> Some (splitFirst (CHR ''.'') (group1 fromMatch))
          | None \<Rightarrow> None))"

definition installLine :: "string \<Rightarrow> string" where
  \<open>installLine moduleName = ''await micropip.install("'' @ moduleName @ ''")''\<close>

text \<open>
  Whether a line gets an install line before it: its module name is a non-empty string,
  is not in the standard library and has not been installed earlier in this call.
\<close>

definition needsInstall :: "string \<Rightarrow> string set \<Rightarrow> string option" where
  "needsInstall line installedPackages =
     (case extractModuleName line of
        None \<Rightarrow> None
      | Some moduleName \<Rightarrow>
          if moduleName \<noteq> [] \<and> \<not> isStdlibModule moduleName
             \<and> moduleName \<notin> installedPackages
          then Some moduleName else None)"



subsection \<open>Return value extraction\<close>

definition statementPrefixes :: "string list" where
  "statementPrefixes =
     [''def '', ''class '', ''if '', ''elif '', ''else:'', ''for '', ''while '', ''try:'',
      ''except'', ''finally:'', ''with '', ''return '', ''raise '', ''import '', ''from '',
      ''pass'', ''break'', ''continue'', ''@'']"

definition isStatement :: "string \<Rightarrow> bool" where
  "isStatement codeOnly = list_ex (startsWith codeOnly) statementPrefixes"

text \<open>\<open>/^[^=]*(?<![=!<>])=(?!=)/\<close>, \<open>/^(.+?)\s*(#.*)$/\<close>.\<close>

definition assignPat :: regex where
  "assignPat =
     [Bol, Star (NoneOf ''=''), NotBehind (OneOf ''=!<>''), Chr (CHR ''=''), NotAhead (OneOf ''='')]"

definition commentPat :: regex where
  "commentPat =
     [Bol, Open 1, PlusLazy dot, Close 1, Star ws, Open 2, Chr (CHR ''#''), Star dot,
      Close 2, Eol]"

definition isAssignment :: "string \<Rightarrow> bool" where
  "isAssignment codeOnly =
     (test assignPat codeOnly \<and> \<not> includesStr codeOnly ''==''
      \<and> \<not> includesStr codeOnly ''lambda'')"

definition codeOnlyOf :: "string \<Rightarrow> string" where
  "codeOnlyOf line = trim (splitFirst (CHR ''#'') line)"

text \<open>
  The backward loop: \<open>findLastExpr lines n\<close> looks at the lines \<open>n - 1\<close>, \<open>n - 2\<close>, ...
  and gives \<open>lastExprIndex\<close>, \<open>None\<close> standing for \<open>-1\<close>.
\<close>

fun findLastExpr :: "string list \<Rightarrow> nat \<Rightarrow> nat option" where
  "findLastExpr lines 0 = None"
| "findLastExpr lines (Suc i) =
     (let line = trim (lines ! i) in
      if line = [] \<or> startsWith line ''#'' then findLastExpr lines i
      else
        let codeOnly = codeOnlyOf line in
        if isStatement codeOnly then None
        else if \<not> isAssignment codeOnly then Some i
        else None)"

definition group2 :: "rematch \<Rightarrow> string" where
  "group2 m = (case group m 2 of None \<Rightarrow> [] | Some g \<Rightarrow> g)"

definition resultLine :: "string \<Rightarrow> string" where
  "resultLine originalLine =
     (let indent = leadingSpace originalLine;
          trimmedLine = trim originalLine
      in case match trimmedLine commentPat of
           Some commentMatch \<Rightarrow>
             indent @ ''__pyx_result__ = '' @ group1 commentMatch @ ''  ''
             @ group2 commentMatch
         | None \<Rightarrow> indent @ ''__pyx_result__ = '' @ trimmedLine)"

definition extractReturnValue :: "string \<Rightarrow> string" where
  "extractReturnValue code =
     (let lines = split (CHR 0x0A) code in
      case findLastExpr lines (length lines) of
        None \<Rightarrow> code
      | Some lastExprIndex \<Rightarrow>
          join (CHR 0x0A) (lines[lastExprIndex := resultLine (lines ! lastExprIndex)]))"

subsection \<open>Input mocking\<close>

text \<open>\<open>/\binput\s*\(/g\<close>.\<close>

definition inputPat :: regex where
  "inputPat = [WordB] @ lit ''input'' @ [Star ws, Chr (CHR ''('')]"

definition inputRepl :: string where
  "inputRepl = ''await __pyx_input__(''"

definition mockInput :: "string \<Rightarrow> string" where
  "mockInput code = replaceAll code inputPat inputRepl"

section \<open>Abstract syntax (\<open>core/ast/types.ts\<close>)\<close>

text \<open>
  One constructor for each node kind, with the fields of the node in the order of its
  interface; an optional field is an \<open>option\<close>.  The parser never fills in the position
  fields of a node, so they are left out.  The value of a numeric constant is a
  JavaScript number, which is not modelled: it is kept as the call of \<open>parseInt\<close> (with its
  radix) or of \<open>parseFloat\<close> that the parser makes to compute it.
\<close>

datatype jsnum = ParseInt string nat | ParseFloat string

datatype boolop = And | Or

datatype operator =
  Add | Sub | Mult | MatMult | Div | Mod | Pow | LShift | RShift | BitOr | BitXor | BitAnd
  | FloorDiv

datatype unaryop = Invert | NotOp | UAdd | USub

datatype cmpop = Eq | NotEq | Lt | LtE | Gt | GtE | Is | IsNot | In | NotIn

datatype pyconst = CNull | CBool bool | CNum jsnum | CStr string

datatype expr =
    BoolOp boolop "expr list"
  | NamedExpr expr expr
  | BinOp expr operator expr
  | UnaryOp unaryop expr
  | Lambda arguments expr
  | IfExp expr expr expr
  | Dict "expr option list" "expr list"
  | SetNode "expr list"
  | ListComp expr "comprehension list"
  | SetComp expr "comprehension list"
  | DictComp expr expr "comprehension list"
  | GeneratorExp expr "comprehension list"
  | Await expr
  | Yield "expr option"
  | YieldFrom expr
  | Compare expr "cmpop list" "expr list"
  | Call expr "expr list" "keyword list"
  | FormattedValue expr int "expr option"
  | JoinedStr "expr list"
  | Constant pyconst
  | Attribute expr string
  | Subscript expr expr
  | Starred expr
  | Name string
  | ListNode "expr list"
  | Tuple "expr list"
  | Slice "expr option" "expr option" "expr option"
and arguments =
    Arguments "arg list" "arg list" "arg option" "arg list" "expr option list" "arg option"
      "expr list"
and arg = Arg string "expr option"
and keyword = Keyword "string option" expr
and comprehension = Comprehension expr expr "expr list" nat

datatype alias_node = Alias string "string option"

datatype type_param = TypeVar string "expr option" | TypeVarTuple string | ParamSpec string

datatype pattern =
    MatchValue expr
  | MatchSingleton pyconst
  | MatchSequence "pattern list"
  | MatchMapping "expr list" "pattern list" "string option"
  | MatchClass expr "pattern list" "string list" "pattern list"
  | MatchStar "string option"
  | MatchAs "pattern option" "string option"
  | MatchOr "pattern list"

datatype withitem = WithItem expr "expr option"

datatype stmt =
    Import "alias_node list"
  | ImportFrom "string option" "alias_node list" nat
  | FunctionDef string arguments "stmt list" "expr list" "expr option" "type_param list option"
  | AsyncFunctionDef string arguments "stmt list" "expr list" "expr option"
      "type_param list option"
  | ClassDef string "expr list" "keyword list" "stmt list" "expr list" "type_param list option"
  | Assign "expr list" expr
  | AugAssign expr operator expr
  | AnnAssign expr expr "expr option" nat
  | IfStmt expr "stmt list" "stmt list"
  | For expr expr "stmt list" "stmt list"
  | AsyncFor expr expr "stmt list" "stmt list"
  | While expr "stmt list" "stmt list"
  | With "withitem list" "stmt list"
  | AsyncWith "withitem list" "stmt list"
  | Match expr "match_case list"
  | Try "stmt list" "excepthandler list" "stmt list" "stmt list"
  | Raise "expr option" "expr option"
  | Return "expr option"
  | Delete "expr list"
  | Pass
  | Break
  | Continue
  | Global "string list"
  | Nonlocal "string list"
  | Assert expr "expr option"
  | Expr expr
  | TypeAlias expr "type_param list" expr
and match_case = MatchCase pattern "expr option" "stmt list"
and excepthandler = ExceptHandler "expr option" "string option" "stmt list"

datatype module = Module "stmt list"

section \<open>Tokenizer (\<open>core/ast/parser.ts\<close>)\<close>

text \<open>
  The tokenizer reads its source from left to right and never looks back, so its
  position is modelled by the text that is still ahead (\<open>source\<close>).  The parser reads
  only the type and the value of a token; the line and column bookkeeping is left out.
  The indentation stack has its top at the head of the list.
\<close>

datatype TokenType =
    NAME | NUMBER | STRING | FSTRING_START | FSTRING_MIDDLE | FSTRING_END | OP | NEWLINE
  | INDENT | DEDENT | ENDMARKER | NL | COMMENT | ERRORTOKEN

record Token =
  tok_type :: TokenType
  tok_value :: string

text \<open>
  What the parser can throw: a \<open>SyntaxError\<close> with its message, or the \<open>TypeError\<close> of
  JavaScript for a property read on \<open>undefined\<close>.  \<open>OutOfFuel\<close> is not an error of the
  program: it says that the bound on the depth of the recursion was too small.
\<close>

datatype perror = SyntaxError string | TypeError | OutOfFuel

record Tokenizer =
  source :: string
  indentStack :: "nat list"
  pendingTokens :: "Token list"
  atLineStart :: bool

definition newTokenizer :: "string \<Rightarrow> Tokenizer" where
  "newTokenizer src =
     \<lparr>source = src, indentStack = [0], pendingTokens = [], atLineStart = True\<rparr>"

definition makeToken :: "TokenType \<Rightarrow> string \<Rightarrow> Token" where
  "makeToken t v = \<lparr>tok_type = t, tok_value = v\<rparr>"

definition isNameStart :: "char \<Rightarrow> bool" where
  "isNameStart ch = (ch \<in> set ''abcdefghijklmnopqrstuvwxyzABCDEFGHIJKLMNOPQRSTUVWXYZ_'')"

definition isDigit :: "char \<Rightarrow> bool" where
  "isDigit ch = (ch \<in> set digits)"

definition isNameChar :: "char \<Rightarrow> bool" where
  "isNameChar ch = (isNameStart ch \<or> isDigit ch)"

definition isAlphaNum :: "char \<Rightarrow> bool" where
  "isAlphaNum ch = (ch \<in> set ''0123456789abcdefABCDEF_'')"

definition isQuote :: "char option \<Rightarrow> bool" where
  "isQuote c = (c = Some (CHR 0x22) \<or> c = Some (CHR 0x27))"

text \<open>\<open>s[k]\<close>, which is \<open>undefined\<close> beyond the end.\<close>

definition charAt :: "string \<Rightarrow> nat \<Rightarrow> char option" where
  "charAt r k = (if k < length r then Some (r ! k) else None)"

text \<open>The text between the start of a token and the position reached.\<close>

definition consumed :: "string \<Rightarrow> string \<Rightarrow> string" where
  "consumed start rest = take (length start - length rest) start"

fun skipWhitespace :: "string \<Rightarrow> string" where
  "skipWhitespace [] = []"
| "skipWhitespace (ch # rest) =
     (if ch = CHR '' '' \<or> ch = CHR 0x09 then skipWhitespace rest
      else if ch = CHR 0x5C \<and> headOpt rest = Some (CHR 0x0A) then skipWhitespace (tl rest)
      else ch # rest)"

text \<open>The loop of \<open>readString\<close>, from the first character after the opening quotes.\<close>

fun stringLoop :: "char \<Rightarrow> bool \<Rightarrow> string \<Rightarrow> perror + string" where
  "stringLoop quote triple [] = Inr []"
| "stringLoop quote triple (ch # rest) =
     (if ch = CHR 0x5C then stringLoop quote triple (drop 1 rest)
      else if ch = quote then
        (if triple then
           (if charAt rest 0 = Some quote \<and> charAt rest 1 = Some quote then Inr (drop 2 rest)
            else stringLoop quote triple rest)
         else Inr rest)
      else if ch = CHR 0x0A \<and> \<not> triple
        then Inl (SyntaxError ''EOL while scanning string literal'')
      else stringLoop quote triple rest)"

text \<open>\<open>readString\<close> from the opening quote: the text after the literal.\<close>

definition readStringFrom :: "string \<Rightarrow> perror + string" where
  "readStringFrom r =
     (case r of
        [] \<Rightarrow> Inr []
      | quote # r1 \<Rightarrow>
          if charAt r1 0 = Some quote \<and> charAt r1 1 = Some quote
          then stringLoop quote True (drop 2 r1)
          else stringLoop quote False r1)"

definition readString :: "string \<Rightarrow> perror + (Token \<times> string)" where
  "readString r =
     (case readStringFrom r of
        Inl e \<Rightarrow> Inl e
      | Inr rest \<Rightarrow> Inr (makeToken STRING (consumed r rest), rest))"

fun rawLoop :: "char \<Rightarrow> bool \<Rightarrow> string \<Rightarrow> string" where
  "rawLoop quote triple [] = []"
| "rawLoop quote triple (ch # rest) =
     (if ch = quote then
        (if triple then
           (if charAt rest 0 = Some quote \<and> charAt rest 1 = Some quote then drop 2 rest
            else rawLoop quote triple rest)
         else rest)
      else rawLoop quote triple rest)"

text \<open>\<open>readRawString\<close> from the prefix \<open>r\<close>; the caller has seen a quote after it.\<close>

definition readRawString :: "string \<Rightarrow> perror + (Token \<times> string)" where
  "readRawString r =
     (case drop 1 r of
        [] \<Rightarrow> Inr (makeToken STRING r, [])
      | quote # r1 \<Rightarrow>
          (let rest = (if charAt r1 0 = Some quote \<and> charAt r1 1 = Some quote
                       then rawLoop quote True (drop 2 r1)
                       else rawLoop quote False r1)
           in Inr (makeToken STRING (consumed r rest), rest)))"

text \<open>\<open>readByteString\<close>: the prefix \<open>b\<close>, then \<open>readString\<close>.\<close>

definition readByteString :: "string \<Rightarrow> perror + (Token \<times> string)" where
  "readByteString r =
     (case readStringFrom (drop 1 r) of
        Inl e \<Rightarrow> Inl e
      | Inr rest \<Rightarrow> Inr (makeToken STRING (consumed r rest), rest))"

fun fstringLoop :: "char \<Rightarrow> bool \<Rightarrow> nat \<Rightarrow> string \<Rightarrow> string" where
  "fstringLoop quote triple braceDepth [] = []"
| "fstringLoop quote triple braceDepth (ch # rest) =
     (if ch = CHR ''{'' then
        (if charAt rest 0 = Some (CHR ''{'') then fstringLoop quote triple braceDepth (drop 1 rest)
         else fstringLoop quote triple (braceDepth + 1) rest)
      else if ch = CHR ''}'' then
        (if charAt rest 0 = Some (CHR ''}'') then fstringLoop quote triple braceDepth (drop 1 rest)
         else fstringLoop quote triple (if 0 < braceDepth then braceDepth - 1 else braceDepth)
                rest)
      else if ch = quote \<and> braceDepth = 0 then
        (if triple then
           (if charAt rest 0 = Some quote \<and> charAt rest 1 = Some quote then drop 2 rest
            else fstringLoop quote triple braceDepth rest)
         else rest)
      else fstringLoop quote triple braceDepth rest)"

text \<open>
  \<open>readFStringContent\<close>.  \<open>start\<close> is the text from one character before the opening
  quote: the value of the token begins there, whatever the prefix was.
\<close>

definition readFStringContent :: "string \<Rightarrow> perror + (Token \<times> string)" where
  "readFStringContent start =
     (case drop 1 start of
        [] \<Rightarrow> Inr (makeToken STRING start, [])
      | quote # r1 \<Rightarrow>
          (let rest = (if charAt r1 0 = Some quote \<and> charAt r1 1 = Some quote
                       then fstringLoop quote True 0 (drop 2 r1)
                       else fstringLoop quote False 0 r1)
           in Inr (makeToken STRING (consumed start rest), rest)))"

definition readFString :: "string \<Rightarrow> perror + (Token \<times> string)" where
  "readFString r = readFStringContent r"

definition isDigitOrUnderscore :: "char \<Rightarrow> bool" where
  "isDigitOrUnderscore ch = (isDigit ch \<or> ch = CHR ''_'')"

definition readNumber :: "string \<Rightarrow> perror + (Token \<times> string)" where
  "readNumber r =
     (if charAt r 0 = Some (CHR ''0'') \<and> charAt r 1 \<in> Some ` set ''xXoObB''
      then (let rest = dropWhile isAlphaNum (drop 2 r)
            in Inr (makeToken NUMBER (consumed r rest), rest))
      else
        (let r1 = dropWhile isDigitOrUnderscore r;
             r2 = (if charAt r1 0 = Some (CHR ''.'') \<and> charAt r1 1 \<noteq> Some (CHR ''.'')
                   then dropWhile isDigitOrUnderscore (drop 1 r1) else r1);
             r3 = (if charAt r2 0 = Some (CHR ''e'') \<or> charAt r2 0 = Some (CHR ''E'')
                   then (let r' = drop 1 r2;
                             r'' = (if charAt r' 0 = Some (CHR ''+'') \<or> charAt r' 0 = Some (CHR ''-'')
                                    then drop 1 r' else r')
                         in dropWhile isDigitOrUnderscore r'')
                   else r2);
             rest = (if charAt r3 0 = Some (CHR ''j'') \<or> charAt r3 0 = Some (CHR ''J'')
                     then drop 1 r3 else r3)
         in Inr (makeToken NUMBER (consumed r rest), rest)))"

definition readName :: "string \<Rightarrow> perror + (Token \<times> string)" where
  "readName r = Inr (makeToken NAME (takeWhile isNameChar r), dropWhile isNameChar r)"

definition threeCharOps :: "string list" where
  "threeCharOps = [''...'', ''**='', ''//='', ''>>='', ''<<='']"

definition twoCharOps :: "string list" where
  "twoCharOps =
     [''=='', ''!='', ''<='', ''>='', ''<<'', ''>>'', ''**'', ''//'', ''->'', ''+='', ''-='',
      ''*='', ''/='', ''%='', ''&='', ''|='', ''^='', ''@='', '':='']"

definition readOperator :: "string \<Rightarrow> perror + (Token \<times> string)" where
  "readOperator r =
     (if take 3 r \<in> set threeCharOps then Inr (makeToken OP (take 3 r), drop 3 r)
      else if take 2 r \<in> set twoCharOps then Inr (makeToken OP (take 2 r), drop 2 r)
      else Inr (makeToken OP (take 1 r), drop 1 r))"

text \<open>
  The loop of \<open>handleIndentation\<close>: the width of the indentation and the text left.
  A blank line sets the width back to 0; a comment runs to the end of its line.
\<close>

function indentLoop :: "nat \<Rightarrow> string \<Rightarrow> nat \<times> string" where
  "indentLoop indent [] = (indent, [])"
| "indentLoop indent (ch # rest) =
     (if ch = CHR '' '' then indentLoop (indent + 1) rest
      else if ch = CHR 0x09 then indentLoop ((indent div 8) * 8 + 8) rest
      else if ch = CHR 0x0A \<or> ch = CHR 0x0D then
        (if ch = CHR 0x0D \<and> charAt rest 0 = Some (CHR 0x0A) then indentLoop 0 (drop 1 rest)
         else indentLoop 0 rest)
      else if ch = CHR ''#'' then indentLoop indent (dropWhile (\<lambda>c. c \<noteq> CHR 0x0A) rest)
      else (indent, ch # rest))"
  by pat_completeness auto
termination
  by (relation "measure (\<lambda>(indent, r). length r)")
     (auto intro: le_imp_less_Suc length_dropWhile_le)

text \<open>The \<open>while\<close> loop that pops the stack: the stack left and the number of pops.\<close>

fun popLoop :: "nat \<Rightarrow> nat list \<Rightarrow> nat list \<times> nat" where
  "popLoop indent [] = ([], 0)"
| "popLoop indent (t # below) =
     (if 1 < length (t # below) \<and> indent < t
      then (case popLoop indent below of (stack, k) \<Rightarrow> (stack, Suc k))
      else (t # below, 0))"

definition stackTop :: "nat list \<Rightarrow> nat" where
  "stackTop stack = (case stack of [] \<Rightarrow> 0 | t # _ \<Rightarrow> t)"

text \<open>What \<open>nextToken\<close> does at the end of the source.\<close>

definition atEnd :: "Tokenizer \<Rightarrow> perror + (Token \<times> Tokenizer)" where
  "atEnd tk =
     (if 1 < length (indentStack tk)
      then Inr (makeToken DEDENT [], tk\<lparr>indentStack := tl (indentStack tk)\<rparr>)
      else Inr (makeToken ENDMARKER [], tk))"

text \<open>A lexeme read by one of the \<open>read\<close> functions, put back into the tokenizer.\<close>

definition withSource :: "Tokenizer \<Rightarrow> perror + (Token \<times> string) \<Rightarrow> perror + (Token \<times> Tokenizer)" where
  "withSource tk res =
     (case res of Inl e \<Rightarrow> Inl e | Inr (tok, rest) \<Rightarrow> Inr (tok, tk\<lparr>source := rest\<rparr>))"

text \<open>The dispatch of \<open>nextToken\<close> on the first character \<open>ch\<close> of the text \<open>r\<close>.\<close>

definition readLexeme :: "string \<Rightarrow> perror + (Token \<times> string)" where
  "readLexeme r =
     (let ch = charAt r 0; c1 = charAt r 1; c2 = charAt r 2 in
      if isQuote ch then readString r
      else if (ch = Some (CHR ''f'') \<or> ch = Some (CHR ''F'')) \<and> isQuote c1 then readFString r
      else if (ch = Some (CHR ''r'') \<or> ch = Some (CHR ''R'')) \<and> isQuote c1 then readRawString r
      else if (ch = Some (CHR ''b'') \<or> ch = Some (CHR ''B'')) \<and> isQuote c1
        then readByteString r
      else if (ch = Some (CHR ''r'') \<or> ch = Some (CHR ''R''))
              \<and> (c1 = Some (CHR ''f'') \<or> c1 = Some (CHR ''F'')) \<and> isQuote c2
        then readFStringContent (drop 1 r)
      else if (ch = Some (CHR ''f'') \<or> ch = Some (CHR ''F''))
              \<and> (c1 = Some (CHR ''r'') \<or> c1 = Some (CHR ''R'')) \<and> isQuote c2
        then readFStringContent (drop 1 r)
      else if (case ch of None \<Rightarrow> False | Some c \<Rightarrow> isDigit c) then readNumber r
      else if ch = Some (CHR ''.'') \<and> (case c1 of None \<Rightarrow> False | Some c \<Rightarrow> isDigit c)
        then readNumber r
      else if (case ch of None \<Rightarrow> False | Some c \<Rightarrow> isNameStart c) then readName r
      else readOperator r)"

function nextToken :: "Tokenizer \<Rightarrow> perror + (Token \<times> Tokenizer)"
  and handleIndentation :: "Tokenizer \<Rightarrow> perror + (Token \<times> Tokenizer)" where
  "nextToken tk =
     (if atLineStart tk then handleIndentation tk
      else
        (let r = skipWhitespace (source tk) in
         case r of
           [] \<Rightarrow> atEnd (tk\<lparr>source := []\<rparr>)
         | ch # rest \<Rightarrow>
             if ch = CHR ''#''
               then nextToken (tk\<lparr>source := dropWhile (\<lambda>c. c \<noteq> CHR 0x0A) rest\<rparr>)
             else if ch = CHR 0x0A
               then Inr (makeToken NEWLINE [CHR 0x0A], tk\<lparr>source := rest, atLineStart := True\<rparr>)
             else if ch = CHR 0x0D
               then Inr (makeToken NEWLINE [CHR 0x0A],
                         tk\<lparr>source := (if charAt rest 0 = Some (CHR 0x0A) then drop 1 rest else rest),
                            atLineStart := True\<rparr>)
             else withSource tk (readLexeme r)))"
| "handleIndentation tk =
     (case indentLoop 0 (source tk) of
        (indent, r) \<Rightarrow>
          (let tk1 = tk\<lparr>source := r, atLineStart := False\<rparr> in
           if r = [] then atEnd tk1
           else
             let currentIndent = stackTop (indentStack tk1) in
             if currentIndent < indent
               then Inr (makeToken INDENT [], tk1\<lparr>indentStack := indent # indentStack tk1\<rparr>)
             else if indent < currentIndent then
               (case popLoop indent (indentStack tk1) of
                  (stack, k) \<Rightarrow>
                    (case pendingTokens tk1 @ replicate k (makeToken DEDENT []) of
                       [] \<Rightarrow> Inl TypeError
                     | tok # pending \<Rightarrow>
                         Inr (tok, tk1\<lparr>indentStack := stack, pendingTokens := pending\<rparr>)))
             else nextToken tk1))"
  by pat_completeness auto
termination
proof -
  have sw: "length (skipWhitespace s) \<le> length s" for s
    by (induction s rule: skipWhitespace.induct) (auto simp: le_SucI)
  have il: "length (snd (indentLoop n s)) \<le> length s" for n s
  proof (induction n s rule: indentLoop.induct)
    case (1 indent)
    then show ?case by simp
  next
    case (2 indent ch rest)
    have dw: "length (dropWhile (\<lambda>c. c \<noteq> CHR 0x0A) rest) \<le> length rest"
      by (rule length_dropWhile_le)
    show ?case using 2 dw by (auto simp: le_SucI)
  qed
  show ?thesis
  proof (relation "measure (\<lambda>x. case x of
                      Inl tk \<Rightarrow> 3 * length (source tk) + (if atLineStart tk then 2 else 0)
                    | Inr tk \<Rightarrow> 3 * length (source tk) + 1)", goal_cases)
    case 1
    show ?case by simp
  next
    case (2 tk)
    then show ?case by simp
  next
    case (3 tk r ch rest)
    have "length (dropWhile (\<lambda>c. c \<noteq> CHR 0x0A) rest) \<le> length rest"
      by (rule length_dropWhile_le)
    moreover have "length (ch # rest) \<le> length (source tk)"
      using sw [of "source tk"] 3 by simp
    ultimately show ?case using 3 by simp
  next
    case 4
    then show ?case
      using il [of 0] by (auto simp: le_imp_less_Suc dest!: arg_cong [where f = snd])
  qed
qed

declare nextToken.simps [simp del] handleIndentation.simps [simp del]

text \<open>\<open>peek\<close> and \<open>next\<close> of the tokenizer.\<close>

definition tokenizer_peek :: "Tokenizer \<Rightarrow> perror + (Token \<times> Tokenizer)" where
  "tokenizer_peek tk =
     (case pendingTokens tk of
        tok # _ \<Rightarrow> Inr (tok, tk)
      | [] \<Rightarrow>
          (case nextToken tk of
             Inl e \<Rightarrow> Inl e
           | Inr (tok, tk') \<Rightarrow> Inr (tok, tk'\<lparr>pendingTokens := pendingTokens tk' @ [tok]\<rparr>)))"

definition tokenizer_next :: "Tokenizer \<Rightarrow> perror + (Token \<times> Tokenizer)" where
  "tokenizer_next tk =
     (case pendingTokens tk of
        tok # pending \<Rightarrow> Inr (tok, tk\<lparr>pendingTokens := pending\<rparr>)
      | [] \<Rightarrow> nextToken tk)"

section \<open>Parser (\<open>core/ast/parser.ts\<close>)\<close>

subsection \<open>State and primitives\<close>

text \<open>
  The parser holds its tokenizer and the current token.  A parsing method is a function
  from this state to an error or to its result with the state it leaves.  No method
  catches an exception, so the state after an error is never read.
\<close>

record Parser =
  tokenizer :: Tokenizer
  currentToken :: Token

type_synonym 'a parser = "Parser \<Rightarrow> perror + ('a \<times> Parser)"

definition returnP :: "'a \<Rightarrow> 'a parser" where
  "returnP x p = Inr (x, p)"

definition throwP :: "perror \<Rightarrow> 'a parser" where
  "throwP e p = Inl e"

definition bindP :: "'a parser \<Rightarrow> ('a \<Rightarrow> 'b parser) \<Rightarrow> 'b parser" where
  "bindP m f p = (case m p of Inl e \<Rightarrow> Inl e | Inr (x, p') \<Rightarrow> f x p')"

definition thenP :: "'a parser \<Rightarrow> 'b parser \<Rightarrow> 'b parser" where
  "thenP m k p = (case m p of Inl e \<Rightarrow> Inl e | Inr (x, p') \<Rightarrow> k p')"

definition ifP :: "(Parser \<Rightarrow> bool) \<Rightarrow> 'a parser \<Rightarrow> 'a parser \<Rightarrow> 'a parser" where
  "ifP c a b p = (if c p then a p else b p)"

definition whenP :: "bool \<Rightarrow> 'a parser \<Rightarrow> unit parser" where
  "whenP c m p = (if c then thenP m (returnP ()) p else returnP () p)"

text \<open>The constructor: the first token is read at once.\<close>

definition newParser :: "string \<Rightarrow> perror + Parser" where
  "newParser src =
     (case tokenizer_next (newTokenizer src) of
        Inl e \<Rightarrow> Inl e
      | Inr (tok, tk) \<Rightarrow> Inr \<lparr>tokenizer = tk, currentToken = tok\<rparr>)"

definition advance :: "Token parser" where
  "advance p =
     (case tokenizer_next (tokenizer p) of
        Inl e \<Rightarrow> Inl e
      | Inr (tok, tk) \<Rightarrow> Inr (currentToken p, \<lparr>tokenizer = tk, currentToken = tok\<rparr>))"

text \<open>\<open>this.tokenizer.peek()\<close>: the token after the current one, which stays pending.\<close>

definition peek :: "Token parser" where
  "peek p =
     (case tokenizer_peek (tokenizer p) of
        Inl e \<Rightarrow> Inl e
      | Inr (tok, tk) \<Rightarrow> Inr (tok, p\<lparr>tokenizer := tk\<rparr>))"

definition tokenTypeName :: "TokenType \<Rightarrow> string" where
  "tokenTypeName t =
     (case t of
        NAME \<Rightarrow> ''NAME'' | NUMBER \<Rightarrow> ''NUMBER'' | STRING \<Rightarrow> ''STRING''
      | FSTRING_START \<Rightarrow> ''FSTRING_START'' | FSTRING_MIDDLE \<Rightarrow> ''FSTRING_MIDDLE''
      | FSTRING_END \<Rightarrow> ''FSTRING_END'' | OP \<Rightarrow> ''OP'' | NEWLINE \<Rightarrow> ''NEWLINE''
      | INDENT \<Rightarrow> ''INDENT'' | DEDENT \<Rightarrow> ''DEDENT'' | ENDMARKER \<Rightarrow> ''ENDMARKER''
      | NL \<Rightarrow> ''NL'' | COMMENT \<Rightarrow> ''COMMENT'' | ERRORTOKEN \<Rightarrow> ''ERRORTOKEN'')"

text \<open>
  \<open>match\<close> and \<open>expect\<close> take a token type and, optionally, a value; the two arities
  are two functions here.
\<close>

definition matchType :: "TokenType \<Rightarrow> Parser \<Rightarrow> bool" where
  "matchType t p = (tok_type (currentToken p) = t)"

definition matchTok :: "TokenType \<Rightarrow> string \<Rightarrow> Parser \<Rightarrow> bool" where
  "matchTok t v p = (tok_type (currentToken p) = t \<and> tok_value (currentToken p) = v)"

definition matchKeyword :: "string \<Rightarrow> Parser \<Rightarrow> bool" where
  "matchKeyword keyword p =
     (tok_type (currentToken p) = NAME \<and> tok_value (currentToken p) = keyword)"

definition expectType :: "TokenType \<Rightarrow> Token parser" where
  "expectType t p =
     (let token = currentToken p in
      if tok_type token \<noteq> t
      then Inl (SyntaxError (''Expected '' @ tokenTypeName t @ '', got '' @ tok_value token))
      else thenP advance (returnP token) p)"

definition expect :: "TokenType \<Rightarrow> string \<Rightarrow> Token parser" where
  "expect t v p =
     (let token = currentToken p in
      if tok_type token \<noteq> t \<or> tok_value token \<noteq> v
      then Inl (SyntaxError (''Expected '' @ v @ '', got '' @ tok_value token))
      else thenP advance (returnP token) p)"

text \<open>The value of the \<open>NAME\<close> token that is expected: \<open>this.expect('NAME').value\<close>.\<close>

definition expectName :: "string parser" where
  "expectName p = bindP (expectType NAME) (\<lambda>tok. returnP (tok_value tok)) p"

text \<open>
  \<open>this.match('NAME') && this.tokenizer.peek().value === '='\<close>: the tokenizer is asked
  only when the current token is a name.
\<close>

definition nameThenEquals :: "bool parser" where
  "nameThenEquals p =
     (if matchType NAME p then bindP peek (\<lambda>tok. returnP (tok_value tok = ''='')) p
      else returnP False p)"

text \<open>
  The recursion of the parser is bounded: a method that is entered again from below is
  called through \<open>rec\<close>, which has one unit of fuel less, and a loop runs on a counter.
  The methods entered through \<open>rec\<close> that return an expression:
\<close>

datatype ecall = CExpr | CTernary | CNot | CNotTest | COrTest | CFactor | CTarget

subsection \<open>Loops that the parser writes out many times\<close>

text \<open>
  \<open>while (this.match('OP', ',')) { this.advance(); if (stop) break; elts.push(item()) }\<close>
\<close>

primrec commaLoop :: "(Parser \<Rightarrow> bool) \<Rightarrow> 'a parser \<Rightarrow> nat \<Rightarrow> 'a list \<Rightarrow> 'a list parser" where
  "commaLoop stop item 0 elts p = Inl OutOfFuel"
| "commaLoop stop item (Suc k) elts p =
     (if matchTok OP '','' p
      then thenP advance
             (ifP stop (returnP elts)
                (bindP item (\<lambda>x. commaLoop stop item k (elts @ [x])))) p
      else returnP elts p)"

text \<open>
  \<open>while (!this.match('OP', close)) {
      if (elts.length > 0) { this.expect('OP', ','); if (this.match('OP', close)) break }
      elts.push(item()) }\<close>
\<close>

primrec untilClose :: "string \<Rightarrow> 'a parser \<Rightarrow> nat \<Rightarrow> 'a list \<Rightarrow> 'a list parser" where
  "untilClose close item 0 elts p = Inl OutOfFuel"
| "untilClose close item (Suc k) elts p =
     (if matchTok OP close p then returnP elts p
      else thenP (whenP (0 < length elts) (expect OP '',''))
             (ifP (\<lambda>q. 0 < length elts \<and> matchTok OP close q) (returnP elts)
                (bindP item (\<lambda>x. untilClose close item k (elts @ [x])))) p)"

text \<open>
  \<open>do { if (xs.length > 0) this.expect('OP', ','); xs.push(item()) }
   while (this.match('OP', ','))\<close>
\<close>

primrec doWhileComma :: "'a parser \<Rightarrow> nat \<Rightarrow> 'a list \<Rightarrow> 'a list parser" where
  "doWhileComma item 0 xs p = Inl OutOfFuel"
| "doWhileComma item (Suc k) xs p =
     thenP (whenP (0 < length xs) (expect OP '',''))
       (bindP item (\<lambda>x.
          ifP (matchTok OP '','') (doWhileComma item k (xs @ [x])) (returnP (xs @ [x])))) p"

text \<open>
  \<open>while (this.matchKeyword(kw)) { this.advance(); values.push(item()) }\<close>
\<close>

primrec keywordLoop :: "string \<Rightarrow> 'a parser \<Rightarrow> nat \<Rightarrow> 'a list \<Rightarrow> 'a list parser" where
  "keywordLoop kw item 0 elts p = Inl OutOfFuel"
| "keywordLoop kw item (Suc k) elts p =
     (if matchKeyword kw p
      then thenP advance (bindP item (\<lambda>x. keywordLoop kw item k (elts @ [x]))) p
      else returnP elts p)"

text \<open>
  \<open>while (one of the operators matches) {
      const op = \<dots>this.advance().value\<dots>; const right = item();
      left = { type: 'BinOp', left, op, right } }\<close>,
  where \<open>opOf\<close> gives the operator that the current token stands for.
\<close>

primrec binaryLoop :: "(Parser \<Rightarrow> operator option) \<Rightarrow> expr parser \<Rightarrow> nat \<Rightarrow> expr \<Rightarrow> expr parser" where
  "binaryLoop opOf item 0 left p = Inl OutOfFuel"
| "binaryLoop opOf item (Suc k) left p =
     (case opOf p of
        None \<Rightarrow> returnP left p
      | Some op \<Rightarrow>
          thenP advance
            (bindP item (\<lambda>right. binaryLoop opOf item k (BinOp left op right))) p)"

subsection \<open>Literals\<close>

definition endsWith :: "string \<Rightarrow> string \<Rightarrow> bool" where
  "endsWith s x = suffix x s"

text \<open>\<open>s.slice(a, b)\<close> for \<open>0 \<le> a\<close> and \<open>0 \<le> b\<close>, and \<open>s.slice(a, -b)\<close>.\<close>

definition slice :: "nat \<Rightarrow> nat \<Rightarrow> string \<Rightarrow> string" where
  "slice a b s = take (b - a) (drop a s)"

definition sliceNeg :: "nat \<Rightarrow> nat \<Rightarrow> string \<Rightarrow> string" where
  "sliceNeg a b s = drop a (take (length s - b) s)"

definition parseNumber :: "string \<Rightarrow> jsnum" where
  "parseNumber literal =
     (let v = filter (\<lambda>c. c \<noteq> CHR ''_'') literal in
      if endsWith v ''j'' \<or> endsWith v ''J'' then ParseFloat (sliceNeg 0 1 v)
      else if startsWith v ''0x'' \<or> startsWith v ''0X'' then ParseInt (drop 2 v) 16
      else if startsWith v ''0o'' \<or> startsWith v ''0O'' then ParseInt (drop 2 v) 8
      else if startsWith v ''0b'' \<or> startsWith v ''0B'' then ParseInt (drop 2 v) 2
      else if CHR ''.'' \<in> set v \<or> CHR ''e'' \<in> set v \<or> CHR ''E'' \<in> set v then ParseFloat v
      else ParseInt v 10)"

definition tripleQuoted :: "string \<Rightarrow> bool" where
  "tripleQuoted s =
     (startsWith s [CHR 0x22, CHR 0x22, CHR 0x22] \<or> startsWith s [CHR 0x27, CHR 0x27, CHR 0x27])"

definition unquote :: "string \<Rightarrow> string" where
  "unquote s = (if tripleQuoted s then sliceNeg 3 3 s else sliceNeg 1 1 s)"

definition extractStringValue :: "string \<Rightarrow> string" where
  "extractStringValue raw =
     (let s0 = unquote (dropWhile (\<lambda>c. c \<in> set ''rRbBuU'') raw);
          s1 = replaceAll s0 (lit [CHR 0x5C, CHR ''n'']) [CHR 0x0A];
          s2 = replaceAll s1 (lit [CHR 0x5C, CHR ''t'']) [CHR 0x09];
          s3 = replaceAll s2 (lit [CHR 0x5C, CHR ''r'']) [CHR 0x0D];
          s4 = replaceAll s3 (lit [CHR 0x5C, CHR 0x5C]) [CHR 0x5C];
          s5 = replaceAll s4 (lit [CHR 0x5C, CHR 0x27]) [CHR 0x27]
      in replaceAll s5 (lit [CHR 0x5C, CHR 0x22]) [CHR 0x22])"

definition isFStringRaw :: "string \<Rightarrow> bool" where
  "isFStringRaw raw =
     (\<exists>pre \<in> set [''f'', ''F'', ''rf'', ''fr'', ''RF'', ''FR'', ''Rf'', ''Fr'', ''rF'', ''fR''].
        startsWith raw pre)"

subsection \<open>The replacement fields of an f-string\<close>

text \<open>\<open>while (i < str.length && str[i] !== '}') i++\<close>\<close>

function formatUntilBrace :: "string \<Rightarrow> nat \<Rightarrow> nat" where
  "formatUntilBrace str i =
     (if i < length str \<and> str ! i \<noteq> CHR ''}'' then formatUntilBrace str (i + 1) else i)"
  by pat_completeness auto
termination
  by (relation "measure (\<lambda>(str, i). length str - i)") auto

text \<open>
  The loop over a format specification that may hold nested braces; it gives the index
  reached and the depth left.  At depth 0 the index stays and the loop ends.
\<close>

function formatNested :: "string \<Rightarrow> nat \<Rightarrow> nat \<Rightarrow> nat \<times> nat" where
  "formatNested str i braceDepth =
     (if i < length str \<and> 0 < braceDepth then
        (let d = (if str ! i = CHR ''{'' then braceDepth + 1
                  else if str ! i = CHR ''}'' then braceDepth - 1
                  else braceDepth)
         in if 0 < d then formatNested str (i + 1) d else (i, d))
      else (i, braceDepth))"
  by pat_completeness auto
termination
  by (relation "measure (\<lambda>(str, i, d). length str - i)") auto

text \<open>
  The loop that looks for the end of a replacement field, from the character after its
  opening brace.  It gives the index reached, \<open>exprEnd\<close> (\<open>None\<close> for \<open>-1\<close>), the
  conversion and the format specification.
\<close>

function scanExpr :: "string \<Rightarrow> nat \<Rightarrow> nat \<Rightarrow> nat \<times> nat option \<times> int \<times> string option" where
  "scanExpr str i braceDepth =
     (if i < length str \<and> 0 < braceDepth then
        (if str ! i = CHR ''{'' then scanExpr str (i + 1) (braceDepth + 1)
         else if str ! i = CHR ''}'' then scanExpr str (i + 1) (braceDepth - 1)
         else if braceDepth = 1 \<and> str ! i = CHR ''!'' then
           (let i1 = i + 1;
                conversion = (if charAt str i1 = Some (CHR ''r'') then 114
                              else if charAt str i1 = Some (CHR ''s'') then 115
                              else if charAt str i1 = Some (CHR ''a'') then 97
                              else - 1);
                i2 = i1 + 1;
                i3 = (if charAt str i2 = Some (CHR '':'') then formatUntilBrace str (i2 + 1)
                      else i2);
                formatSpec = (if charAt str i2 = Some (CHR '':'')
                              then Some (slice (i2 + 1) i3 str) else None);
                i4 = (if charAt str i3 = Some (CHR ''}'') then i3 + 1 else i3)
            in (i4, Some i, conversion, formatSpec))
         else if braceDepth = 1 \<and> str ! i = CHR '':'' then
           (let formatStart = i + 1;
                i' = fst (formatNested str formatStart braceDepth)
            in (i' + 1, Some i, - 1, Some (slice formatStart i' str)))
         else scanExpr str (i + 1) braceDepth)
      else (i, None, - 1, None))"
  by pat_completeness auto
termination
  by (relation "measure (\<lambda>(str, i, d). length str - i)") auto

text \<open>\<open>formatted.format_spec\<close>, set only when the specification is not empty.\<close>

definition formatSpecNode :: "string option \<Rightarrow> expr option" where
  "formatSpecNode formatSpec =
     (case formatSpec of
        None \<Rightarrow> None
      | Some s \<Rightarrow> if s = [] then None else Some (JoinedStr [Constant (CStr s)]))"

text \<open>
  \<open>new Parser(exprStr).parseExpression()\<close>: a parser of its own, whose state is dropped.
\<close>

definition parseNested :: "(ecall \<Rightarrow> expr parser) \<Rightarrow> string \<Rightarrow> expr parser" where
  "parseNested rec exprStr p =
     (case newParser exprStr of
        Inl e \<Rightarrow> Inl e
      | Inr q \<Rightarrow> (case rec CExpr q of Inl e \<Rightarrow> Inl e | Inr (x, q') \<Rightarrow> Inr (x, p)))"

primrec parseFStringValue_loop ::
  "(ecall \<Rightarrow> expr parser) \<Rightarrow> string \<Rightarrow> nat \<Rightarrow> nat \<Rightarrow> nat \<Rightarrow> expr list \<Rightarrow> (nat \<times> expr list) parser" where
  "parseFStringValue_loop rec str 0 i textStart vals p = Inl OutOfFuel"
| "parseFStringValue_loop rec str (Suc k) i textStart vals p =
     (if \<not> i < length str then returnP (textStart, vals) p
      else if str ! i = CHR ''{'' then
        (if charAt str (i + 1) = Some (CHR ''{'') then
           parseFStringValue_loop rec str k (i + 2) (i + 2)
             (vals @ [Constant (CStr (if textStart < i then slice textStart i str @ ''{''
                                      else ''{''))]) p
         else
           (let vals1 = (if textStart < i then vals @ [Constant (CStr (slice textStart i str))]
                         else vals);
                exprStart = i + 1
            in case scanExpr str exprStart 1 of
                 (i', exprEnd, conversion, formatSpec) \<Rightarrow>
                   (let exprEnd' = (case exprEnd of None \<Rightarrow> i' - 1 | Some e \<Rightarrow> e);
                        exprStr = trim (slice exprStart exprEnd' str)
                    in if exprStr \<noteq> []
                       then bindP (parseNested rec exprStr)
                              (\<lambda>exprNode.
                                 parseFStringValue_loop rec str k i' i'
                                   (vals1 @ [FormattedValue exprNode conversion
                                               (formatSpecNode formatSpec)])) p
                       else parseFStringValue_loop rec str k i' i' vals1 p)))
      else if str ! i = CHR ''}'' \<and> charAt str (i + 1) = Some (CHR ''}'') then
        parseFStringValue_loop rec str k (i + 2) (i + 2)
          (vals @ [Constant (CStr (if textStart < i then slice textStart i str @ ''}''
                                   else ''}''))]) p
      else parseFStringValue_loop rec str k (i + 1) textStart vals p)"

definition parseFStringValue :: "(ecall \<Rightarrow> expr parser) \<Rightarrow> nat \<Rightarrow> string \<Rightarrow> expr parser" where
  "parseFStringValue rec n raw p =
     (let str = unquote (dropWhile (\<lambda>c. c \<in> set ''rfbuRFBU'') raw) in
      bindP (parseFStringValue_loop rec str n 0 0 [])
        (\<lambda>(textStart, vals).
           let vals1 = (if textStart < length str
                        then vals @ [Constant (CStr (drop textStart str))] else vals);
               vals2 = (if length vals1 = 0 then vals1 @ [Constant (CStr [])] else vals1)
           in returnP (JoinedStr vals2)) p)"

primrec parseStringLiteral_loop :: "nat \<Rightarrow> string \<Rightarrow> string parser" where
  "parseStringLiteral_loop 0 v p = Inl OutOfFuel"
| "parseStringLiteral_loop (Suc k) v p =
     (if matchType STRING p
      then bindP advance
             (\<lambda>tok. let nextRaw = tok_value tok in
                if startsWith nextRaw ''f'' \<or> startsWith nextRaw ''F'' then returnP v
                else parseStringLiteral_loop k (v @ extractStringValue nextRaw)) p
      else returnP v p)"

definition parseStringLiteral :: "(ecall \<Rightarrow> expr parser) \<Rightarrow> nat \<Rightarrow> expr parser" where
  "parseStringLiteral rec n p =
     bindP advance
       (\<lambda>stringToken. let raw = tok_value stringToken in
          if isFStringRaw raw then parseFStringValue rec n raw
          else bindP (parseStringLiteral_loop n (extractStringValue raw))
                 (\<lambda>v. returnP (Constant (CStr v)))) p"

subsection \<open>Expressions\<close>

definition optional :: "'a parser \<Rightarrow> 'a option parser" where
  "optional m p = bindP m (\<lambda>x. returnP (Some x)) p"

text \<open>
  In \<open>parseSliceItem\<close>, \<open>lower\<close> is undefined only if the current token is a colon, and
  then the method returns a slice: the last branch is never taken.
\<close>

definition parseSliceItem :: "(ecall \<Rightarrow> expr parser) \<Rightarrow> expr parser" where
  "parseSliceItem rec p =
     bindP (ifP (\<lambda>q. \<not> matchTok OP '':'' q) (optional (rec CExpr)) (returnP None))
       (\<lambda>lower.
          ifP (matchTok OP '':'')
            (thenP advance
               (bindP (ifP (\<lambda>q. \<not> matchTok OP '':'' q \<and> \<not> matchTok OP '']'' q
                                  \<and> \<not> matchTok OP '','' q)
                         (optional (rec CExpr)) (returnP None))
                  (\<lambda>upper.
                     bindP (ifP (matchTok OP '':'')
                              (thenP advance
                                 (ifP (\<lambda>q. \<not> matchTok OP '']'' q \<and> \<not> matchTok OP '','' q)
                                    (optional (rec CExpr)) (returnP None)))
                              (returnP None))
                       (\<lambda>step. returnP (Slice lower upper step)))))
            (case lower of Some e \<Rightarrow> returnP e | None \<Rightarrow> throwP TypeError)) p"

definition parseSubscriptSlice :: "(ecall \<Rightarrow> expr parser) \<Rightarrow> nat \<Rightarrow> expr parser" where
  "parseSubscriptSlice rec n p =
     bindP (parseSliceItem rec)
       (\<lambda>first.
          ifP (matchTok OP '','')
            (bindP (commaLoop (matchTok OP '']'') (parseSliceItem rec) n [first])
               (\<lambda>elts. returnP (Tuple elts)))
            (returnP first)) p"

definition parseSubscript :: "(ecall \<Rightarrow> expr parser) \<Rightarrow> nat \<Rightarrow> expr \<Rightarrow> expr parser" where
  "parseSubscript rec n v p =
     thenP advance
       (bindP (parseSubscriptSlice rec n)
          (\<lambda>slice. thenP (expect OP '']'') (returnP (Subscript v slice)))) p"

primrec parseCall_loop ::
  "(ecall \<Rightarrow> expr parser) \<Rightarrow> nat \<Rightarrow> expr list \<Rightarrow> keyword list \<Rightarrow> (expr list \<times> keyword list) parser" where
  "parseCall_loop rec 0 args kws p = Inl OutOfFuel"
| "parseCall_loop rec (Suc k) args kws p =
     (if matchTok OP '')'' p then returnP (args, kws) p
      else
        thenP (whenP (0 < length args \<or> 0 < length kws) (expect OP '',''))
          (ifP (\<lambda>q. (0 < length args \<or> 0 < length kws) \<and> matchTok OP '')'' q)
             (returnP (args, kws))
             (ifP (matchTok OP ''**'')
                (thenP advance
                   (bindP (rec CExpr)
                      (\<lambda>v. parseCall_loop rec k args (kws @ [Keyword None v]))))
                (ifP (matchTok OP ''*'')
                   (thenP advance
                      (bindP (rec CExpr)
                         (\<lambda>v. parseCall_loop rec k (args @ [Starred v]) kws)))
                   (bindP nameThenEquals
                      (\<lambda>isKeyword.
                         if isKeyword then
                           bindP advance
                             (\<lambda>name.
                                thenP advance
                                  (bindP (rec CExpr)
                                     (\<lambda>v. parseCall_loop rec k args
                                            (kws @ [Keyword (Some (tok_value name)) v]))))
                         else bindP (rec CExpr)
                                (\<lambda>v. parseCall_loop rec k (args @ [v]) kws)))))) p)"

definition parseCall :: "(ecall \<Rightarrow> expr parser) \<Rightarrow> nat \<Rightarrow> expr \<Rightarrow> expr parser" where
  "parseCall rec n func p =
     thenP advance
       (bindP (parseCall_loop rec n [] [])
          (\<lambda>(args, kws). thenP (expect OP '')'') (returnP (Call func args kws)))) p"

text \<open>
  \<open>parseLambdaArgs\<close> fills in the node that it is given; here it returns the fields
  \<open>args\<close>, \<open>defaults\<close>, \<open>kwonlyargs\<close>, \<open>kw_defaults\<close>, \<open>vararg\<close> and \<open>kwarg\<close>.
\<close>

primrec parseLambdaArgs_loop ::
  "(ecall \<Rightarrow> expr parser) \<Rightarrow> nat \<Rightarrow> arg list \<Rightarrow> expr list \<Rightarrow> arg list \<Rightarrow> expr option list
   \<Rightarrow> arg option \<Rightarrow> arg option \<Rightarrow> bool \<Rightarrow> arguments parser" where
  "parseLambdaArgs_loop rec 0 args defaults kwonlyargs kwDefaults vararg kwarg seenStar p =
     Inl OutOfFuel"
| "parseLambdaArgs_loop rec (Suc k) args defaults kwonlyargs kwDefaults vararg kwarg seenStar p =
     (let result = Arguments [] args vararg kwonlyargs kwDefaults kwarg defaults;
          started = (0 < length args \<or> 0 < length kwonlyargs \<or> vararg \<noteq> None \<or> kwarg \<noteq> None)
      in
      if matchTok OP '':'' p then returnP result p
      else if started \<and> \<not> matchTok OP '','' p then returnP result p
      else
        thenP (whenP started advance)
          (ifP (matchTok OP ''**'')
             (thenP advance
                (bindP expectName
                   (\<lambda>name. parseLambdaArgs_loop rec k args defaults kwonlyargs kwDefaults vararg
                              (Some (Arg name None)) seenStar)))
             (ifP (matchTok OP ''*'')
                (thenP advance
                   (ifP (matchType NAME)
                      (bindP expectName
                         (\<lambda>name. parseLambdaArgs_loop rec k args defaults kwonlyargs kwDefaults
                                    (Some (Arg name None)) kwarg True))
                      (parseLambdaArgs_loop rec k args defaults kwonlyargs kwDefaults vararg
                         kwarg True)))
                (bindP expectName
                   (\<lambda>name.
                      ifP (matchTok OP ''='')
                        (thenP advance
                           (bindP (rec CExpr)
                              (\<lambda>defaultVal.
                                 if seenStar
                                 then parseLambdaArgs_loop rec k args defaults
                                        (kwonlyargs @ [Arg name None])
                                        (kwDefaults @ [Some defaultVal]) vararg kwarg seenStar
                                 else parseLambdaArgs_loop rec k (args @ [Arg name None])
                                        (defaults @ [defaultVal]) kwonlyargs kwDefaults vararg
                                        kwarg seenStar)))
                        (if seenStar
                         then parseLambdaArgs_loop rec k args defaults
                                (kwonlyargs @ [Arg name None]) (kwDefaults @ [None]) vararg kwarg
                                seenStar
                         else parseLambdaArgs_loop rec k (args @ [Arg name None]) defaults
                                kwonlyargs kwDefaults vararg kwarg seenStar))))) p)"

definition parseLambdaArgs :: "(ecall \<Rightarrow> expr parser) \<Rightarrow> nat \<Rightarrow> arguments parser" where
  "parseLambdaArgs rec n p = parseLambdaArgs_loop rec n [] [] [] [] None None False p"

definition parseLambda :: "(ecall \<Rightarrow> expr parser) \<Rightarrow> nat \<Rightarrow> expr parser" where
  "parseLambda rec n p =
     thenP advance
       (bindP (ifP (\<lambda>q. \<not> matchTok OP '':'' q) (parseLambdaArgs rec n)
                 (returnP (Arguments [] [] None [] [] None [])))
          (\<lambda>args.
             thenP (expect OP '':'')
               (bindP (rec CExpr) (\<lambda>body. returnP (Lambda args body))))) p"

primrec parseTarget_loop :: "(ecall \<Rightarrow> expr parser) \<Rightarrow> nat \<Rightarrow> nat \<Rightarrow> expr \<Rightarrow> expr parser" where
  "parseTarget_loop rec n 0 target p = Inl OutOfFuel"
| "parseTarget_loop rec n (Suc k) target p =
     (if matchTok OP ''.'' p then
        thenP advance
          (bindP expectName (\<lambda>attr. parseTarget_loop rec n k (Attribute target attr))) p
      else if matchTok OP ''['' p then
        thenP advance
          (bindP (parseSubscriptSlice rec n)
             (\<lambda>slice.
                thenP (expect OP '']'') (parseTarget_loop rec n k (Subscript target slice)))) p
      else returnP target p)"

definition parseTarget :: "(ecall \<Rightarrow> expr parser) \<Rightarrow> nat \<Rightarrow> expr parser" where
  "parseTarget rec n p =
     (if matchTok OP ''*'' p then
        thenP advance (bindP (rec CTarget) (\<lambda>v. returnP (Starred v))) p
      else if matchTok OP ''('' p then
        thenP advance
          (bindP (untilClose '')'' (rec CTarget) n [])
             (\<lambda>elts. thenP (expect OP '')'') (returnP (Tuple elts)))) p
      else if matchTok OP ''['' p then
        thenP advance
          (bindP (untilClose '']'' (rec CTarget) n [])
             (\<lambda>elts. thenP (expect OP '']'') (returnP (ListNode elts)))) p
      else bindP expectName (\<lambda>name. parseTarget_loop rec n n (Name name)) p)"

definition parseTargetList :: "(ecall \<Rightarrow> expr parser) \<Rightarrow> nat \<Rightarrow> expr parser" where
  "parseTargetList rec n p =
     bindP (parseTarget rec n)
       (\<lambda>first.
          ifP (matchTok OP '','')
            (bindP (commaLoop (matchKeyword ''in'') (parseTarget rec n) n [first])
               (\<lambda>elts. returnP (Tuple elts)))
            (returnP first)) p"

primrec parseComprehensionClauses_loop ::
  "(ecall \<Rightarrow> expr parser) \<Rightarrow> nat \<Rightarrow> nat \<Rightarrow> comprehension list \<Rightarrow> comprehension list parser" where
  "parseComprehensionClauses_loop rec n 0 generators p = Inl OutOfFuel"
| "parseComprehensionClauses_loop rec n (Suc k) generators p =
     (if matchKeyword ''for'' p \<or> matchKeyword ''async'' p then
        bindP (ifP (matchKeyword ''async'') (thenP advance (returnP 1)) (returnP 0))
          (\<lambda>isAsync.
             thenP advance
               (bindP (parseTargetList rec n)
                  (\<lambda>target.
                     thenP (expect NAME ''in'')
                       (bindP (rec COrTest)
                          (\<lambda>iter.
                             bindP (keywordLoop ''if'' (rec COrTest) n [])
                               (\<lambda>ifs.
                                  parseComprehensionClauses_loop rec n k
                                    (generators @ [Comprehension target iter ifs isAsync]))))))) p
      else returnP generators p)"

definition parseComprehensionClauses ::
  "(ecall \<Rightarrow> expr parser) \<Rightarrow> nat \<Rightarrow> comprehension list parser" where
  "parseComprehensionClauses rec n p = parseComprehensionClauses_loop rec n n [] p"

text \<open>The loop over the entries of a dictionary display after the first one.\<close>

primrec parseDictOrSet_loop ::
  "(ecall \<Rightarrow> expr parser) \<Rightarrow> nat \<Rightarrow> expr option list \<Rightarrow> expr list
   \<Rightarrow> (expr option list \<times> expr list) parser" where
  "parseDictOrSet_loop rec 0 keys vals p = Inl OutOfFuel"
| "parseDictOrSet_loop rec (Suc k) keys vals p =
     (if matchTok OP '','' p then
        thenP advance
          (ifP (matchTok OP ''}'') (returnP (keys, vals))
             (ifP (matchTok OP ''**'')
                (thenP advance
                   (bindP (rec CExpr)
                      (\<lambda>v. parseDictOrSet_loop rec k (keys @ [None]) (vals @ [v]))))
                (bindP (rec CExpr)
                   (\<lambda>key.
                      thenP (expect OP '':'')
                        (bindP (rec CExpr)
                           (\<lambda>v. parseDictOrSet_loop rec k (keys @ [Some key]) (vals @ [v]))))))) p
      else returnP (keys, vals) p)"

definition forOrAsync :: "Parser \<Rightarrow> bool" where
  "forOrAsync p = (matchKeyword ''for'' p \<or> matchKeyword ''async'' p)"

definition parseDictOrSet :: "(ecall \<Rightarrow> expr parser) \<Rightarrow> nat \<Rightarrow> expr parser" where
  "parseDictOrSet rec n p =
     thenP advance
       (ifP (matchTok OP ''}'') (thenP advance (returnP (Dict [] [])))
          (ifP (matchTok OP ''**'')
             (thenP advance
                (bindP (rec CExpr)
                   (\<lambda>firstValue.
                      bindP (parseDictOrSet_loop rec n [None] [firstValue])
                        (\<lambda>(keys, vals). thenP (expect OP ''}'') (returnP (Dict keys vals))))))
             (bindP (rec CExpr)
                (\<lambda>first.
                   ifP (matchTok OP '':'')
                     (thenP advance
                        (bindP (rec CExpr)
                           (\<lambda>firstValue.
                              ifP forOrAsync
                                (bindP (parseComprehensionClauses rec n)
                                   (\<lambda>generators.
                                      thenP (expect OP ''}'')
                                        (returnP (DictComp first firstValue generators))))
                                (bindP (parseDictOrSet_loop rec n [Some first] [firstValue])
                                   (\<lambda>(keys, vals).
                                      thenP (expect OP ''}'') (returnP (Dict keys vals)))))))
                     (ifP forOrAsync
                        (bindP (parseComprehensionClauses rec n)
                           (\<lambda>generators.
                              thenP (expect OP ''}'') (returnP (SetComp first generators))))
                        (bindP (commaLoop (matchTok OP ''}'') (rec CExpr) n [first])
                           (\<lambda>elts. thenP (expect OP ''}'') (returnP (SetNode elts))))))))) p"

definition parsePrimary :: "(ecall \<Rightarrow> expr parser) \<Rightarrow> nat \<Rightarrow> expr parser" where
  "parsePrimary rec n p =
     (if matchKeyword ''lambda'' p then parseLambda rec n p
      else if matchKeyword ''yield'' p then
        thenP advance
          (ifP (matchKeyword ''from'')
             (thenP advance (bindP (rec CExpr) (\<lambda>v. returnP (YieldFrom v))))
             (ifP (\<lambda>q. \<not> matchType NEWLINE q \<and> \<not> matchTok OP '')'' q \<and> \<not> matchTok OP '','' q)
                (bindP (rec CExpr) (\<lambda>v. returnP (Yield (Some v))))
                (returnP (Yield None)))) p
      else if matchTok OP ''('' p then
        thenP advance
          (ifP (matchTok OP '')'') (thenP advance (returnP (Tuple [])))
             (bindP (rec CExpr)
                (\<lambda>first.
                   ifP forOrAsync
                     (bindP (parseComprehensionClauses rec n)
                        (\<lambda>generators.
                           thenP (expect OP '')'') (returnP (GeneratorExp first generators))))
                     (ifP (matchTok OP '','')
                        (bindP (commaLoop (matchTok OP '')'') (rec CExpr) n [first])
                           (\<lambda>elts. thenP (expect OP '')'') (returnP (Tuple elts))))
                        (thenP (expect OP '')'') (returnP first)))))) p
      else if matchTok OP ''['' p then
        thenP advance
          (ifP (matchTok OP '']'') (thenP advance (returnP (ListNode [])))
             (bindP (rec CExpr)
                (\<lambda>first.
                   ifP forOrAsync
                     (bindP (parseComprehensionClauses rec n)
                        (\<lambda>generators.
                           thenP (expect OP '']'') (returnP (ListComp first generators))))
                     (bindP (commaLoop (matchTok OP '']'') (rec CExpr) n [first])
                        (\<lambda>elts. thenP (expect OP '']'') (returnP (ListNode elts))))))) p
      else if matchTok OP ''{'' p then parseDictOrSet rec n p
      else if matchTok OP ''*'' p then
        thenP advance (bindP (rec CExpr) (\<lambda>v. returnP (Starred v))) p
      else if matchType NAME p then
        bindP advance
          (\<lambda>tok. let name = tok_value tok in
             if name = ''True'' then returnP (Constant (CBool True))
             else if name = ''False'' then returnP (Constant (CBool False))
             else if name = ''None'' then returnP (Constant CNull)
             else returnP (Name name)) p
      else if matchType NUMBER p then
        bindP advance (\<lambda>tok. returnP (Constant (CNum (parseNumber (tok_value tok))))) p
      else if matchType STRING p then parseStringLiteral rec n p
      else if matchTok OP ''...'' p then
        thenP advance (returnP (Constant (CStr ''...''))) p
      else Inl (SyntaxError (''Unexpected token: '' @ tok_value (currentToken p))))"

primrec parseAtom_loop :: "(ecall \<Rightarrow> expr parser) \<Rightarrow> nat \<Rightarrow> nat \<Rightarrow> expr \<Rightarrow> expr parser" where
  "parseAtom_loop rec n 0 atom p = Inl OutOfFuel"
| "parseAtom_loop rec n (Suc k) atom p =
     (if matchTok OP ''('' p then bindP (parseCall rec n atom) (parseAtom_loop rec n k) p
      else if matchTok OP ''['' p then
        bindP (parseSubscript rec n atom) (parseAtom_loop rec n k) p
      else if matchTok OP ''.'' p then
        thenP advance
          (bindP expectName (\<lambda>attr. parseAtom_loop rec n k (Attribute atom attr))) p
      else returnP atom p)"

definition parseAtom :: "(ecall \<Rightarrow> expr parser) \<Rightarrow> nat \<Rightarrow> expr parser" where
  "parseAtom rec n p = bindP (parsePrimary rec n) (parseAtom_loop rec n n) p"

definition parseAwait :: "(ecall \<Rightarrow> expr parser) \<Rightarrow> nat \<Rightarrow> expr parser" where
  "parseAwait rec n p =
     (if matchKeyword ''await'' p
      then thenP advance (bindP (parsePrimary rec n) (\<lambda>v. returnP (Await v))) p
      else parseAtom rec n p)"

definition parsePower :: "(ecall \<Rightarrow> expr parser) \<Rightarrow> nat \<Rightarrow> expr parser" where
  "parsePower rec n p =
     bindP (parseAwait rec n)
       (\<lambda>left.
          ifP (matchTok OP ''**'')
            (thenP advance (bindP (rec CFactor) (\<lambda>right. returnP (BinOp left Pow right))))
            (returnP left)) p"

definition parseFactor :: "(ecall \<Rightarrow> expr parser) \<Rightarrow> nat \<Rightarrow> expr parser" where
  "parseFactor rec n p =
     (if matchTok OP ''+'' p then
        thenP advance (bindP (rec CFactor) (\<lambda>operand. returnP (UnaryOp UAdd operand))) p
      else if matchTok OP ''-'' p then
        thenP advance (bindP (rec CFactor) (\<lambda>operand. returnP (UnaryOp USub operand))) p
      else if matchTok OP ''~'' p then
        thenP advance (bindP (rec CFactor) (\<lambda>operand. returnP (UnaryOp Invert operand))) p
      else parsePower rec n p)"

definition termOp :: "Parser \<Rightarrow> operator option" where
  "termOp p =
     (if matchTok OP ''*'' p then Some Mult
      else if matchTok OP ''/'' p then Some Div
      else if matchTok OP ''//'' p then Some FloorDiv
      else if matchTok OP ''%'' p then Some Mod
      else if matchTok OP ''@'' p then Some MatMult
      else None)"

definition parseTerm :: "(ecall \<Rightarrow> expr parser) \<Rightarrow> nat \<Rightarrow> expr parser" where
  "parseTerm rec n p =
     bindP (parseFactor rec n) (binaryLoop termOp (parseFactor rec n) n) p"

definition arithOp :: "Parser \<Rightarrow> operator option" where
  "arithOp p =
     (if matchTok OP ''+'' p then Some Add
      else if matchTok OP ''-'' p then Some Sub
      else None)"

definition parseArith :: "(ecall \<Rightarrow> expr parser) \<Rightarrow> nat \<Rightarrow> expr parser" where
  "parseArith rec n p =
     bindP (parseTerm rec n) (binaryLoop arithOp (parseTerm rec n) n) p"

definition shiftOp :: "Parser \<Rightarrow> operator option" where
  "shiftOp p =
     (if matchTok OP ''<<'' p then Some LShift
      else if matchTok OP ''>>'' p then Some RShift
      else None)"

definition parseShift :: "(ecall \<Rightarrow> expr parser) \<Rightarrow> nat \<Rightarrow> expr parser" where
  "parseShift rec n p =
     bindP (parseArith rec n) (binaryLoop shiftOp (parseArith rec n) n) p"

definition oneOp :: "string \<Rightarrow> operator \<Rightarrow> Parser \<Rightarrow> operator option" where
  "oneOp v op p = (if matchTok OP v p then Some op else None)"

definition parseBitAnd :: "(ecall \<Rightarrow> expr parser) \<Rightarrow> nat \<Rightarrow> expr parser" where
  "parseBitAnd rec n p =
     bindP (parseShift rec n) (binaryLoop (oneOp ''&'' BitAnd) (parseShift rec n) n) p"

definition parseBitXor :: "(ecall \<Rightarrow> expr parser) \<Rightarrow> nat \<Rightarrow> expr parser" where
  "parseBitXor rec n p =
     bindP (parseBitAnd rec n) (binaryLoop (oneOp ''^'' BitXor) (parseBitAnd rec n) n) p"

definition parseBitOr :: "(ecall \<Rightarrow> expr parser) \<Rightarrow> nat \<Rightarrow> expr parser" where
  "parseBitOr rec n p =
     bindP (parseBitXor rec n) (binaryLoop (oneOp ''|'' BitOr) (parseBitXor rec n) n) p"

text \<open>
  The chain of tests at the head of the loop of \<open>parseComparison\<close>: it reads the
  comparison operator, if there is one.
\<close>

definition parseComparison_op :: "cmpop option parser" where
  "parseComparison_op p =
     (if matchTok OP ''<'' p then
        thenP advance
          (ifP (matchTok OP ''='') (thenP advance (returnP (Some LtE))) (returnP (Some Lt))) p
      else if matchTok OP ''>'' p then
        thenP advance
          (ifP (matchTok OP ''='') (thenP advance (returnP (Some GtE))) (returnP (Some Gt))) p
      else if matchTok OP ''=='' p then thenP advance (returnP (Some Eq)) p
      else if matchTok OP ''!='' p then thenP advance (returnP (Some NotEq)) p
      else if matchTok OP ''<='' p then thenP advance (returnP (Some LtE)) p
      else if matchTok OP ''>='' p then thenP advance (returnP (Some GtE)) p
      else if matchKeyword ''in'' p then thenP advance (returnP (Some In)) p
      else if matchKeyword ''not'' p then
        thenP advance (thenP (expect NAME ''in'') (returnP (Some NotIn))) p
      else if matchKeyword ''is'' p then
        thenP advance
          (ifP (matchKeyword ''not'') (thenP advance (returnP (Some IsNot)))
             (returnP (Some Is))) p
      else returnP None p)"

primrec parseComparison_loop ::
  "(ecall \<Rightarrow> expr parser) \<Rightarrow> nat \<Rightarrow> nat \<Rightarrow> cmpop list \<Rightarrow> expr list \<Rightarrow> (cmpop list \<times> expr list) parser" where
  "parseComparison_loop rec n 0 ops comparators p = Inl OutOfFuel"
| "parseComparison_loop rec n (Suc k) ops comparators p =
     bindP parseComparison_op
       (\<lambda>op. case op of
          None \<Rightarrow> returnP (ops, comparators)
        | Some op' \<Rightarrow>
            bindP (parseBitOr rec n)
              (\<lambda>right. parseComparison_loop rec n k (ops @ [op']) (comparators @ [right]))) p"

definition parseComparison :: "(ecall \<Rightarrow> expr parser) \<Rightarrow> nat \<Rightarrow> expr parser" where
  "parseComparison rec n p =
     bindP (parseBitOr rec n)
       (\<lambda>left.
          bindP (parseComparison_loop rec n n [] [])
            (\<lambda>(ops, comparators).
               if length ops = 0 then returnP left
               else returnP (Compare left ops comparators))) p"

definition parseNotTest :: "(ecall \<Rightarrow> expr parser) \<Rightarrow> nat \<Rightarrow> expr parser" where
  "parseNotTest rec n p =
     (if matchKeyword ''not'' p then
        thenP advance (bindP (rec CNotTest) (\<lambda>operand. returnP (UnaryOp NotOp operand))) p
      else parseComparison rec n p)"

definition parseAndTest :: "(ecall \<Rightarrow> expr parser) \<Rightarrow> nat \<Rightarrow> expr parser" where
  "parseAndTest rec n p =
     bindP (parseNotTest rec n)
       (\<lambda>left.
          ifP (matchKeyword ''and'')
            (bindP (keywordLoop ''and'' (parseNotTest rec n) n [left])
               (\<lambda>vals. returnP (BoolOp And vals)))
            (returnP left)) p"

definition parseOrTest :: "(ecall \<Rightarrow> expr parser) \<Rightarrow> nat \<Rightarrow> expr parser" where
  "parseOrTest rec n p =
     bindP (parseAndTest rec n)
       (\<lambda>left.
          ifP (matchKeyword ''or'')
            (bindP (keywordLoop ''or'' (parseAndTest rec n) n [left])
               (\<lambda>vals. returnP (BoolOp Or vals)))
            (returnP left)) p"

definition parseNot :: "(ecall \<Rightarrow> expr parser) \<Rightarrow> nat \<Rightarrow> expr parser" where
  "parseNot rec n p =
     (if matchKeyword ''not'' p then
        thenP advance (bindP (rec CNot) (\<lambda>operand. returnP (UnaryOp NotOp operand))) p
      else parseComparison rec n p)"

definition parseAnd :: "(ecall \<Rightarrow> expr parser) \<Rightarrow> nat \<Rightarrow> expr parser" where
  "parseAnd rec n p =
     bindP (parseNot rec n)
       (\<lambda>left.
          ifP (matchKeyword ''and'')
            (bindP (keywordLoop ''and'' (parseNot rec n) n [left])
               (\<lambda>vals. returnP (BoolOp And vals)))
            (returnP left)) p"

definition parseOr :: "(ecall \<Rightarrow> expr parser) \<Rightarrow> nat \<Rightarrow> expr parser" where
  "parseOr rec n p =
     bindP (parseAnd rec n)
       (\<lambda>left.
          ifP (matchKeyword ''or'')
            (bindP (keywordLoop ''or'' (parseAnd rec n) n [left])
               (\<lambda>vals. returnP (BoolOp Or vals)))
            (returnP left)) p"

definition parseTernary :: "(ecall \<Rightarrow> expr parser) \<Rightarrow> nat \<Rightarrow> expr parser" where
  "parseTernary rec n p =
     bindP (parseOr rec n)
       (\<lambda>e.
          ifP (matchKeyword ''if'')
            (thenP advance
               (bindP (parseOr rec n)
                  (\<lambda>test.
                     thenP (expect NAME ''else'')
                       (bindP (rec CTernary) (\<lambda>orelse. returnP (IfExp test e orelse))))))
            (returnP e)) p"

definition parseNamedExpr :: "(ecall \<Rightarrow> expr parser) \<Rightarrow> nat \<Rightarrow> expr parser" where
  "parseNamedExpr rec n p =
     bindP (parseTernary rec n)
       (\<lambda>e.
          ifP (matchTok OP '':='')
            (thenP advance (bindP (rec CExpr) (\<lambda>v. returnP (NamedExpr e v))))
            (returnP e)) p"

definition parseExpr :: "(ecall \<Rightarrow> expr parser) \<Rightarrow> nat \<Rightarrow> expr parser" where
  "parseExpr rec n p = parseNamedExpr rec n p"

text \<open>
  The methods with \<open>n\<close> units of fuel: none can be entered with no fuel, and with
  \<open>n + 1\<close> units a method calls back with \<open>n\<close> and runs its loops \<open>n\<close> times at most.
\<close>

primrec runExpr :: "nat \<Rightarrow> ecall \<Rightarrow> expr parser" where
  "runExpr 0 c p = Inl OutOfFuel"
| "runExpr (Suc n) c p =
     (case c of
        CExpr \<Rightarrow> parseExpr (runExpr n) n p
      | CTernary \<Rightarrow> parseTernary (runExpr n) n p
      | CNot \<Rightarrow> parseNot (runExpr n) n p
      | CNotTest \<Rightarrow> parseNotTest (runExpr n) n p
      | COrTest \<Rightarrow> parseOrTest (runExpr n) n p
      | CFactor \<Rightarrow> parseFactor (runExpr n) n p
      | CTarget \<Rightarrow> parseTarget (runExpr n) n p)"

text \<open>The exported \<open>parseExpression\<close>, with its fuel.\<close>

definition parseExpression :: "nat \<Rightarrow> string \<Rightarrow> perror + expr" where
  "parseExpression n src =
     (case newParser src of
        Inl e \<Rightarrow> Inl e
      | Inr p \<Rightarrow>
          (case runExpr n CExpr p of Inl e \<Rightarrow> Inl e | Inr (x, p') \<Rightarrow> Inr x))"

subsection \<open>Simple statements\<close>

definition whenM :: "(Parser \<Rightarrow> bool) \<Rightarrow> 'a parser \<Rightarrow> unit parser" where
  "whenM c m p = (if c p then thenP m (returnP ()) p else returnP () p)"

definition keywordList :: "string list" where
  "keywordList =
     [''False'', ''None'', ''True'', ''and'', ''as'', ''assert'', ''async'', ''await'',
      ''break'', ''class'', ''continue'', ''def'', ''del'', ''elif'', ''else'', ''except'',
      ''finally'', ''for'', ''from'', ''global'', ''if'', ''import'', ''in'', ''is'',
      ''lambda'', ''nonlocal'', ''not'', ''or'', ''pass'', ''raise'', ''return'', ''try'',
      ''while'', ''with'', ''yield'', ''match'', ''case'', ''type'']"

definition isKeyword :: "string \<Rightarrow> bool" where
  "isKeyword v = (v \<in> set keywordList)"

primrec parseDottedName_loop :: "nat \<Rightarrow> string \<Rightarrow> string parser" where
  "parseDottedName_loop 0 name p = Inl OutOfFuel"
| "parseDottedName_loop (Suc k) name p =
     (if matchTok OP ''.'' p then
        thenP advance
          (\<lambda>q. if isKeyword (tok_value (currentToken q))
                then Inl (SyntaxError (''Unexpected keyword '' @ tok_value (currentToken q)
                                       @ '' in dotted name''))
                else bindP expectName
                       (\<lambda>part. parseDottedName_loop k (name @ ''.'' @ part)) q) p
      else returnP name p)"

definition parseDottedName :: "nat \<Rightarrow> string parser" where
  "parseDottedName n p = bindP expectName (parseDottedName_loop n) p"

primrec parseDottedNameUntilImport_loop :: "nat \<Rightarrow> string \<Rightarrow> string parser" where
  "parseDottedNameUntilImport_loop 0 name p = Inl OutOfFuel"
| "parseDottedNameUntilImport_loop (Suc k) name p =
     (if matchTok OP ''.'' p \<and> \<not> matchKeyword ''import'' p then
        thenP advance
          (ifP (matchKeyword ''import'') (returnP name)
             (bindP expectName
                (\<lambda>part. parseDottedNameUntilImport_loop k (name @ ''.'' @ part)))) p
      else returnP name p)"

definition parseDottedNameUntilImport :: "nat \<Rightarrow> string parser" where
  "parseDottedNameUntilImport n p = bindP expectName (parseDottedNameUntilImport_loop n) p"

text \<open>\<open>if (this.matchKeyword('as')) { this.advance(); asname = this.expect('NAME').value }\<close>\<close>

definition parseAsName :: "string option parser" where
  "parseAsName p =
     ifP (matchKeyword ''as'') (thenP advance (optional expectName)) (returnP None) p"

primrec parseImport_loop :: "nat \<Rightarrow> nat \<Rightarrow> alias_node list \<Rightarrow> alias_node list parser" where
  "parseImport_loop n 0 names p = Inl OutOfFuel"
| "parseImport_loop n (Suc k) names p =
     thenP (whenM (\<lambda>q. 0 < length names \<and> matchTok OP '','' q) advance)
       (bindP (parseDottedName n)
          (\<lambda>name.
             bindP parseAsName
               (\<lambda>asname.
                  ifP (matchTok OP '','') (parseImport_loop n k (names @ [Alias name asname]))
                    (returnP (names @ [Alias name asname]))))) p"

definition parseImport :: "nat \<Rightarrow> stmt parser" where
  "parseImport n p =
     thenP advance (bindP (parseImport_loop n n []) (\<lambda>names. returnP (Import names))) p"

text \<open>The loop of \<open>parseFromImport\<close> over the leading dots.\<close>

primrec parseFromImport_level :: "nat \<Rightarrow> nat \<Rightarrow> nat parser" where
  "parseFromImport_level 0 level p = Inl OutOfFuel"
| "parseFromImport_level (Suc k) level p =
     (if matchTok OP ''.'' p \<or> matchTok OP ''...'' p then
        (if tok_value (currentToken p) = ''...''
         then thenP advance (parseFromImport_level k (level + 3)) p
         else thenP advance (parseFromImport_level k (level + 1)) p)
      else returnP level p)"

text \<open>The names in parentheses, and the names without.\<close>

primrec parseFromImport_paren :: "nat \<Rightarrow> alias_node list \<Rightarrow> alias_node list parser" where
  "parseFromImport_paren 0 names p = Inl OutOfFuel"
| "parseFromImport_paren (Suc k) names p =
     thenP (whenM (matchTok OP '','') advance)
       (ifP (matchTok OP '')'') (returnP names)
          (bindP expectName
             (\<lambda>name.
                bindP parseAsName
                  (\<lambda>asname.
                     ifP (matchTok OP '','')
                       (parseFromImport_paren k (names @ [Alias name asname]))
                       (returnP (names @ [Alias name asname])))))) p"

definition parseImportedName :: "alias_node parser" where
  "parseImportedName p =
     bindP expectName (\<lambda>name. bindP parseAsName (\<lambda>asname. returnP (Alias name asname))) p"

definition parseFromImport :: "nat \<Rightarrow> stmt parser" where
  "parseFromImport n p =
     thenP advance
       (bindP (parseFromImport_level n 0)
          (\<lambda>level.
             bindP (ifP (\<lambda>q. tok_type (currentToken q) = NAME \<and> \<not> matchKeyword ''import'' q)
                      (optional (parseDottedNameUntilImport n)) (returnP None))
               (\<lambda>module.
                  thenP (expect NAME ''import'')
                    (bindP (ifP (matchTok OP ''*'')
                              (thenP advance (returnP [Alias ''*'' None]))
                              (ifP (matchTok OP ''('')
                                 (thenP advance
                                    (bindP (parseFromImport_paren n [])
                                       (\<lambda>names. thenP (expect OP '')'') (returnP names))))
                                 (doWhileComma parseImportedName n [])))
                       (\<lambda>names.
                          returnP (ImportFrom (Some (case module of None \<Rightarrow> [] | Some m \<Rightarrow> m))
                                     names level)))))) p"

definition endOfLine :: "Parser \<Rightarrow> bool" where
  "endOfLine p = (matchType NEWLINE p \<or> matchType ENDMARKER p)"

definition parseReturn :: "(ecall \<Rightarrow> expr parser) \<Rightarrow> nat \<Rightarrow> stmt parser" where
  "parseReturn recE n p =
     thenP advance
       (bindP (ifP (\<lambda>q. \<not> matchType NEWLINE q \<and> \<not> matchType ENDMARKER q)
                 (optional (parseExpr recE n)) (returnP None))
          (\<lambda>v. returnP (Return v))) p"

definition parseRaise :: "(ecall \<Rightarrow> expr parser) \<Rightarrow> nat \<Rightarrow> stmt parser" where
  "parseRaise recE n p =
     thenP advance
       (ifP endOfLine (returnP (Raise None None))
          (bindP (parseExpr recE n)
             (\<lambda>exc.
                bindP (ifP (matchKeyword ''from'') (thenP advance (optional (parseExpr recE n)))
                         (returnP None))
                  (\<lambda>cause. returnP (Raise (Some exc) cause))))) p"

definition parseGlobal :: "nat \<Rightarrow> stmt parser" where
  "parseGlobal n p =
     thenP advance (bindP (doWhileComma expectName n []) (\<lambda>names. returnP (Global names))) p"

definition parseNonlocal :: "nat \<Rightarrow> stmt parser" where
  "parseNonlocal n p =
     thenP advance (bindP (doWhileComma expectName n []) (\<lambda>names. returnP (Nonlocal names))) p"

definition parseAssert :: "(ecall \<Rightarrow> expr parser) \<Rightarrow> nat \<Rightarrow> stmt parser" where
  "parseAssert recE n p =
     thenP advance
       (bindP (parseExpr recE n)
          (\<lambda>test.
             bindP (ifP (matchTok OP '','') (thenP advance (optional (parseExpr recE n)))
                      (returnP None))
               (\<lambda>msg. returnP (Assert test msg)))) p"

definition parseDelete :: "(ecall \<Rightarrow> expr parser) \<Rightarrow> nat \<Rightarrow> stmt parser" where
  "parseDelete recE n p =
     thenP advance
       (bindP (doWhileComma (parseExpr recE n) n []) (\<lambda>targets. returnP (Delete targets))) p"

primrec parseTypeParams_loop :: "nat \<Rightarrow> type_param list \<Rightarrow> type_param list parser" where
  "parseTypeParams_loop 0 params p = Inl OutOfFuel"
| "parseTypeParams_loop (Suc k) params p =
     (if matchTok OP '']'' p then returnP params p
      else thenP (whenP (0 < length params) (expect OP '',''))
             (bindP expectName
                (\<lambda>name. parseTypeParams_loop k (params @ [TypeVar name None]))) p)"

definition parseTypeParams :: "nat \<Rightarrow> type_param list parser" where
  "parseTypeParams n p =
     thenP advance
       (bindP (parseTypeParams_loop n [])
          (\<lambda>params. thenP (expect OP '']'') (returnP params))) p"

text \<open>\<open>let typeParams = []; if (this.match('OP', '[')) typeParams = this.parseTypeParams()\<close>\<close>

definition parseOptionalTypeParams :: "nat \<Rightarrow> type_param list parser" where
  "parseOptionalTypeParams n p = ifP (matchTok OP ''['') (parseTypeParams n) (returnP []) p"

definition parseTypeAlias :: "(ecall \<Rightarrow> expr parser) \<Rightarrow> nat \<Rightarrow> stmt parser" where
  "parseTypeAlias recE n p =
     thenP advance
       (bindP expectName
          (\<lambda>name.
             bindP (parseOptionalTypeParams n)
               (\<lambda>typeParams.
                  thenP (expect OP ''='')
                    (bindP (parseExpr recE n)
                       (\<lambda>v. returnP (TypeAlias (Name name) typeParams v)))))) p"

definition isAssignTarget :: "bool parser" where
  "isAssignTarget p =
     bindP peek
       (\<lambda>tok. returnP (tok_value tok = ''='' \<or> tok_value tok = '':''
                        \<or> endsWith (tok_value tok) ''='')) p"

definition isEndOfExprList :: "Parser \<Rightarrow> bool" where
  "isEndOfExprList p =
     (matchTok OP '')'' p \<or> matchTok OP '']'' p \<or> matchTok OP ''}'' p \<or> matchTok OP '':'' p
      \<or> matchTok OP ''='' p \<or> matchType NEWLINE p \<or> matchType ENDMARKER p)"

definition parseExprList :: "(ecall \<Rightarrow> expr parser) \<Rightarrow> nat \<Rightarrow> expr parser" where
  "parseExprList recE n p =
     bindP (parseExpr recE n)
       (\<lambda>e.
          bindP (\<lambda>q. if matchTok OP '','' q
                      then bindP isAssignTarget (\<lambda>b. returnP (\<not> b)) q
                      else returnP False q)
            (\<lambda>isTuple.
               if isTuple
               then bindP (commaLoop isEndOfExprList (parseExpr recE n) n [e])
                      (\<lambda>elts. returnP (Tuple elts))
               else returnP e)) p"

definition augOps :: "(string \<times> operator) list" where
  "augOps =
     [(''+='', Add), (''-='', Sub), (''*='', Mult), (''/='', Div), (''//='', FloorDiv),
      (''%='', Mod), (''**='', Pow), (''&='', BitAnd), (''|='', BitOr), (''^='', BitXor),
      (''>>='', RShift), (''<<='', LShift), (''@='', MatMult)]"

text \<open>\<open>while (this.match('OP', '=')) { this.advance(); targets.push(this.parseExprList()) }\<close>\<close>

primrec parseExpressionStatement_loop ::
  "(ecall \<Rightarrow> expr parser) \<Rightarrow> nat \<Rightarrow> nat \<Rightarrow> expr list \<Rightarrow> expr list parser" where
  "parseExpressionStatement_loop recE n 0 targets p = Inl OutOfFuel"
| "parseExpressionStatement_loop recE n (Suc k) targets p =
     (if matchTok OP ''='' p then
        thenP advance
          (bindP (parseExprList recE n)
             (\<lambda>e. parseExpressionStatement_loop recE n k (targets @ [e]))) p
      else returnP targets p)"

text \<open>
  For an augmented assignment the source looks the operator up in \<open>augOps\<close> twice, in
  the test and again with the token that \<open>advance\<close> returns, which is the token tested:
  the second lookup finds what the first one found.
\<close>

definition parseExpressionStatement :: "(ecall \<Rightarrow> expr parser) \<Rightarrow> nat \<Rightarrow> stmt parser" where
  "parseExpressionStatement recE n p =
     bindP (parseExprList recE n)
       (\<lambda>e q.
          if matchTok OP '':'' q then
            thenP advance
              (bindP (parseExpr recE n)
                 (\<lambda>annotation.
                    bindP (ifP (matchTok OP ''='') (thenP advance (optional (parseExpr recE n)))
                             (returnP None))
                      (\<lambda>v. returnP (AnnAssign e annotation v 1)))) q
          else if matchType OP q \<and> map_of augOps (tok_value (currentToken q)) \<noteq> None then
            bindP advance
              (\<lambda>tok.
                 case map_of augOps (tok_value tok) of
                   None \<Rightarrow> throwP TypeError
                 | Some op \<Rightarrow> bindP (parseExpr recE n) (\<lambda>v. returnP (AugAssign e op v))) q
          else if matchTok OP ''='' q then
            bindP (parseExpressionStatement_loop recE n n [e])
              (\<lambda>targets. returnP (Assign (butlast targets) (last targets))) q
          else returnP (Expr e) q) p"

definition parseSimpleStatement :: "(ecall \<Rightarrow> expr parser) \<Rightarrow> nat \<Rightarrow> stmt option parser" where
  "parseSimpleStatement recE n p =
     bindP (\<lambda>q.
              if matchKeyword ''import'' q then parseImport n q
              else if matchKeyword ''from'' q then parseFromImport n q
              else if matchKeyword ''pass'' q then thenP advance (returnP Pass) q
              else if matchKeyword ''break'' q then thenP advance (returnP Break) q
              else if matchKeyword ''continue'' q then thenP advance (returnP Continue) q
              else if matchKeyword ''return'' q then parseReturn recE n q
              else if matchKeyword ''raise'' q then parseRaise recE n q
              else if matchKeyword ''global'' q then parseGlobal n q
              else if matchKeyword ''nonlocal'' q then parseNonlocal n q
              else if matchKeyword ''assert'' q then parseAssert recE n q
              else if matchKeyword ''del'' q then parseDelete recE n q
              else parseExpressionStatement recE n q)
       (\<lambda>stmt. thenP (whenM (matchType NEWLINE) advance) (returnP (Some stmt))) p"

subsection \<open>Compound statements\<close>

definition parseAnnotation :: "(ecall \<Rightarrow> expr parser) \<Rightarrow> nat \<Rightarrow> expr option parser" where
  "parseAnnotation recE n p =
     ifP (matchTok OP '':'') (thenP advance (optional (parseExpr recE n))) (returnP None) p"

primrec parseArguments_loop ::
  "(ecall \<Rightarrow> expr parser) \<Rightarrow> nat \<Rightarrow> nat \<Rightarrow> arg list \<Rightarrow> expr list \<Rightarrow> arg list \<Rightarrow> expr option list
   \<Rightarrow> arg option \<Rightarrow> arg option \<Rightarrow> bool \<Rightarrow> arguments parser" where
  "parseArguments_loop recE n 0 args defaults kwonlyargs kwDefaults vararg kwarg seenStar p =
     Inl OutOfFuel"
| "parseArguments_loop recE n (Suc k) args defaults kwonlyargs kwDefaults vararg kwarg seenStar p =
     (let result = Arguments [] args vararg kwonlyargs kwDefaults kwarg defaults;
          started = (0 < length args \<or> 0 < length kwonlyargs \<or> vararg \<noteq> None \<or> kwarg \<noteq> None
                     \<or> seenStar)
      in
      if matchTok OP '')'' p then returnP result p
      else if started \<and> \<not> matchTok OP '','' p then returnP result p
      else
        thenP (whenP started advance)
          (ifP (\<lambda>q. started \<and> matchTok OP '')'' q) (returnP result)
             (ifP (matchTok OP ''**'')
                (thenP advance
                   (bindP expectName
                      (\<lambda>argName.
                         bindP (parseAnnotation recE n)
                           (\<lambda>annotation.
                              parseArguments_loop recE n k args defaults kwonlyargs kwDefaults
                                vararg (Some (Arg argName annotation)) seenStar))))
                (ifP (matchTok OP ''*'')
                   (thenP advance
                      (ifP (matchType NAME)
                         (bindP expectName
                            (\<lambda>argName.
                               bindP (parseAnnotation recE n)
                                 (\<lambda>annotation.
                                    parseArguments_loop recE n k args defaults kwonlyargs
                                      kwDefaults (Some (Arg argName annotation)) kwarg True)))
                         (parseArguments_loop recE n k args defaults kwonlyargs kwDefaults vararg
                            kwarg True)))
                   (bindP expectName
                      (\<lambda>argName.
                         bindP (parseAnnotation recE n)
                           (\<lambda>annotation.
                              ifP (matchTok OP ''='')
                                (thenP advance
                                   (bindP (parseExpr recE n)
                                      (\<lambda>defaultVal.
                                         if seenStar
                                         then parseArguments_loop recE n k args defaults
                                                (kwonlyargs @ [Arg argName annotation])
                                                (kwDefaults @ [Some defaultVal]) vararg kwarg
                                                seenStar
                                         else parseArguments_loop recE n k
                                                (args @ [Arg argName annotation])
                                                (defaults @ [defaultVal]) kwonlyargs kwDefaults
                                                vararg kwarg seenStar)))
                                (if seenStar
                                 then parseArguments_loop recE n k args defaults
                                        (kwonlyargs @ [Arg argName annotation])
                                        (kwDefaults @ [None]) vararg kwarg seenStar
                                 else parseArguments_loop recE n k
                                        (args @ [Arg argName annotation]) defaults kwonlyargs
                                        kwDefaults vararg kwarg seenStar))))))) p)"

definition parseArguments :: "(ecall \<Rightarrow> expr parser) \<Rightarrow> nat \<Rightarrow> arguments parser" where
  "parseArguments recE n p = parseArguments_loop recE n n [] [] [] [] None None False p"

text \<open>
  \<open>while (!this.isAtSuiteEnd()) { const stmt = this.parseStatement();
                                   if (stmt) body.push(stmt) }\<close>
\<close>

definition isAtSuiteEnd :: "Parser \<Rightarrow> bool" where
  "isAtSuiteEnd p = (matchType DEDENT p \<or> matchType ENDMARKER p)"

definition push :: "'a list \<Rightarrow> 'a option \<Rightarrow> 'a list" where
  "push body stmt = (case stmt of None \<Rightarrow> body | Some s \<Rightarrow> body @ [s])"

primrec parseSuite_loop :: "stmt option parser \<Rightarrow> nat \<Rightarrow> stmt list \<Rightarrow> stmt list parser" where
  "parseSuite_loop recS 0 body p = Inl OutOfFuel"
| "parseSuite_loop recS (Suc k) body p =
     (if isAtSuiteEnd p then returnP body p
      else bindP recS (\<lambda>stmt. parseSuite_loop recS k (push body stmt)) p)"

definition parseSuite ::
  "(ecall \<Rightarrow> expr parser) \<Rightarrow> stmt option parser \<Rightarrow> nat \<Rightarrow> stmt list parser" where
  "parseSuite recE recS n p =
     (if tok_type (currentToken p) = NEWLINE then
        thenP advance
          (thenP (expect INDENT [])
             (bindP (parseSuite_loop recS n [])
                (\<lambda>body. thenP (whenM (matchType DEDENT) advance) (returnP body)))) p
      else bindP (parseSimpleStatement recE n) (\<lambda>stmt. returnP (push [] stmt)) p)"

text \<open>
  \<open>if (this.matchKeyword(kw)) { this.advance(); this.expect('OP', ':');
                                 suite = this.parseSuite() }\<close>, the suite being empty otherwise.
\<close>

definition keywordSuite ::
  "string \<Rightarrow> (ecall \<Rightarrow> expr parser) \<Rightarrow> stmt option parser \<Rightarrow> nat \<Rightarrow> stmt list parser" where
  "keywordSuite kw recE recS n p =
     ifP (matchKeyword kw)
       (thenP advance (thenP (expect OP '':'') (parseSuite recE recS n)))
       (returnP []) p"

definition parseFunctionDef ::
  "(ecall \<Rightarrow> expr parser) \<Rightarrow> stmt option parser \<Rightarrow> nat \<Rightarrow> bool \<Rightarrow> stmt parser" where
  "parseFunctionDef recE recS n isAsync p =
     thenP advance
       (bindP expectName
          (\<lambda>name.
             bindP (parseOptionalTypeParams n)
               (\<lambda>typeParams.
                  thenP (expect OP ''('')
                    (bindP (parseArguments recE n)
                       (\<lambda>args.
                          thenP (expect OP '')'')
                            (bindP (ifP (matchTok OP ''->'')
                                      (thenP advance (optional (parseExpr recE n)))
                                      (returnP None))
                               (\<lambda>returns.
                                  thenP (expect OP '':'')
                                    (bindP (parseSuite recE recS n)
                                       (\<lambda>body.
                                          returnP
                                            ((if isAsync then AsyncFunctionDef else FunctionDef)
                                               name args body [] returns
                                               (if 0 < length typeParams then Some typeParams
                                                else None))))))))))) p"

primrec parseClassDef_loop ::
  "(ecall \<Rightarrow> expr parser) \<Rightarrow> nat \<Rightarrow> nat \<Rightarrow> expr list \<Rightarrow> keyword list
   \<Rightarrow> (expr list \<times> keyword list) parser" where
  "parseClassDef_loop recE n 0 bases kws p = Inl OutOfFuel"
| "parseClassDef_loop recE n (Suc k) bases kws p =
     (if matchTok OP '')'' p then returnP (bases, kws) p
      else
        thenP (whenP (0 < length bases \<or> 0 < length kws) (expect OP '',''))
          (ifP (\<lambda>q. (0 < length bases \<or> 0 < length kws) \<and> matchTok OP '')'' q)
             (returnP (bases, kws))
             (bindP nameThenEquals
                (\<lambda>isKeyword.
                   if isKeyword then
                     bindP advance
                       (\<lambda>argName.
                          thenP advance
                            (bindP (parseExpr recE n)
                               (\<lambda>v. parseClassDef_loop recE n k bases
                                      (kws @ [Keyword (Some (tok_value argName)) v]))))
                   else bindP (parseExpr recE n)
                          (\<lambda>base. parseClassDef_loop recE n k (bases @ [base]) kws)))) p)"

definition parseClassDef ::
  "(ecall \<Rightarrow> expr parser) \<Rightarrow> stmt option parser \<Rightarrow> nat \<Rightarrow> stmt parser" where
  "parseClassDef recE recS n p =
     thenP advance
       (bindP expectName
          (\<lambda>name.
             bindP (parseOptionalTypeParams n)
               (\<lambda>typeParams.
                  bindP (ifP (matchTok OP ''('')
                           (thenP advance
                              (bindP (parseClassDef_loop recE n n [] [])
                                 (\<lambda>r. thenP (expect OP '')'') (returnP r))))
                           (returnP ([], [])))
                    (\<lambda>(bases, kws).
                       thenP (expect OP '':'')
                         (bindP (parseSuite recE recS n)
                            (\<lambda>body.
                               returnP
                                 (ClassDef name bases kws body []
                                    (if 0 < length typeParams then Some typeParams
                                     else None)))))))) p"

primrec parseElif ::
  "(ecall \<Rightarrow> expr parser) \<Rightarrow> stmt option parser \<Rightarrow> nat \<Rightarrow> nat \<Rightarrow> stmt parser" where
  "parseElif recE recS n 0 p = Inl OutOfFuel"
| "parseElif recE recS n (Suc k) p =
     thenP advance
       (bindP (parseExpr recE n)
          (\<lambda>test.
             thenP (expect OP '':'')
               (bindP (parseSuite recE recS n)
                  (\<lambda>body.
                     bindP (ifP (matchKeyword ''elif'')
                              (bindP (parseElif recE recS n k) (\<lambda>s. returnP [s]))
                              (keywordSuite ''else'' recE recS n))
                       (\<lambda>orelse. returnP (IfStmt test body orelse)))))) p"

definition parseIf ::
  "(ecall \<Rightarrow> expr parser) \<Rightarrow> stmt option parser \<Rightarrow> nat \<Rightarrow> stmt parser" where
  "parseIf recE recS n p =
     thenP advance
       (bindP (parseExpr recE n)
          (\<lambda>test.
             thenP (expect OP '':'')
               (bindP (parseSuite recE recS n)
                  (\<lambda>body.
                     bindP (ifP (matchKeyword ''elif'')
                              (bindP (parseElif recE recS n n) (\<lambda>s. returnP [s]))
                              (keywordSuite ''else'' recE recS n))
                       (\<lambda>orelse. returnP (IfStmt test body orelse)))))) p"

definition parseFor ::
  "(ecall \<Rightarrow> expr parser) \<Rightarrow> stmt option parser \<Rightarrow> nat \<Rightarrow> bool \<Rightarrow> stmt parser" where
  "parseFor recE recS n isAsync p =
     thenP advance
       (bindP (parseTargetList recE n)
          (\<lambda>target.
             thenP (expect NAME ''in'')
               (bindP (parseExpr recE n)
                  (\<lambda>iter.
                     thenP (expect OP '':'')
                       (bindP (parseSuite recE recS n)
                          (\<lambda>body.
                             bindP (keywordSuite ''else'' recE recS n)
                               (\<lambda>orelse.
                                  returnP ((if isAsync then AsyncFor else For)
                                             target iter body orelse)))))))) p"

definition parseWhile ::
  "(ecall \<Rightarrow> expr parser) \<Rightarrow> stmt option parser \<Rightarrow> nat \<Rightarrow> stmt parser" where
  "parseWhile recE recS n p =
     thenP advance
       (bindP (parseExpr recE n)
          (\<lambda>test.
             thenP (expect OP '':'')
               (bindP (parseSuite recE recS n)
                  (\<lambda>body.
                     bindP (keywordSuite ''else'' recE recS n)
                       (\<lambda>orelse. returnP (While test body orelse)))))) p"

definition parseWithItem :: "(ecall \<Rightarrow> expr parser) \<Rightarrow> nat \<Rightarrow> withitem parser" where
  "parseWithItem recE n p =
     bindP (parseExpr recE n)
       (\<lambda>contextExpr.
          bindP (ifP (matchKeyword ''as'') (thenP advance (optional (parseExpr recE n)))
                   (returnP None))
            (\<lambda>optionalVars. returnP (WithItem contextExpr optionalVars))) p"

definition parseWith ::
  "(ecall \<Rightarrow> expr parser) \<Rightarrow> stmt option parser \<Rightarrow> nat \<Rightarrow> bool \<Rightarrow> stmt parser" where
  "parseWith recE recS n isAsync p =
     thenP advance
       (bindP (doWhileComma (parseWithItem recE n) n [])
          (\<lambda>items.
             thenP (expect OP '':'')
               (bindP (parseSuite recE recS n)
                  (\<lambda>body. returnP ((if isAsync then AsyncWith else With) items body))))) p"

subsection \<open>Patterns\<close>

primrec parseMapping_loop ::
  "(ecall \<Rightarrow> expr parser) \<Rightarrow> pattern parser \<Rightarrow> nat \<Rightarrow> nat \<Rightarrow> expr list \<Rightarrow> pattern list
   \<Rightarrow> string option \<Rightarrow> (expr list \<times> pattern list \<times> string option) parser" where
  "parseMapping_loop recE recP n 0 keys pats rest p = Inl OutOfFuel"
| "parseMapping_loop recE recP n (Suc k) keys pats rest p =
     (if matchTok OP ''}'' p then returnP (keys, pats, rest) p
      else
        thenP (whenP (0 < length keys) (expect OP '',''))
          (ifP (\<lambda>q. 0 < length keys \<and> matchTok OP ''}'' q) (returnP (keys, pats, rest))
             (ifP (matchTok OP ''**'')
                (thenP advance
                   (bindP expectName
                      (\<lambda>name. parseMapping_loop recE recP n k keys pats (Some name))))
                (bindP (parseExpr recE n)
                   (\<lambda>key.
                      thenP (expect OP '':'')
                        (bindP recP
                           (\<lambda>pat. parseMapping_loop recE recP n k (keys @ [key])
                                     (pats @ [pat]) rest)))))) p)"

primrec parseClassPattern_loop ::
  "pattern parser \<Rightarrow> nat \<Rightarrow> pattern list \<Rightarrow> string list \<Rightarrow> pattern list
   \<Rightarrow> (pattern list \<times> string list \<times> pattern list) parser" where
  "parseClassPattern_loop recP 0 pats kwdAttrs kwdPatterns p = Inl OutOfFuel"
| "parseClassPattern_loop recP (Suc k) pats kwdAttrs kwdPatterns p =
     (if matchTok OP '')'' p then returnP (pats, kwdAttrs, kwdPatterns) p
      else
        thenP (whenP (0 < length pats \<or> 0 < length kwdAttrs) (expect OP '',''))
          (ifP (\<lambda>q. (0 < length pats \<or> 0 < length kwdAttrs) \<and> matchTok OP '')'' q)
             (returnP (pats, kwdAttrs, kwdPatterns))
             (bindP nameThenEquals
                (\<lambda>isKeyword.
                   if isKeyword then
                     bindP advance
                       (\<lambda>attr.
                          thenP advance
                            (bindP recP
                               (\<lambda>pat. parseClassPattern_loop recP k pats
                                         (kwdAttrs @ [tok_value attr]) (kwdPatterns @ [pat]))))
                   else bindP recP
                          (\<lambda>pat. parseClassPattern_loop recP k (pats @ [pat]) kwdAttrs
                                    kwdPatterns)))) p)"

primrec parseValuePattern_loop :: "nat \<Rightarrow> expr \<Rightarrow> expr parser" where
  "parseValuePattern_loop 0 fullName p = Inl OutOfFuel"
| "parseValuePattern_loop (Suc k) fullName p =
     (if matchTok OP ''.'' p then
        thenP advance
          (bindP expectName (\<lambda>attr. parseValuePattern_loop k (Attribute fullName attr))) p
      else returnP fullName p)"

definition parsePrimaryPattern ::
  "(ecall \<Rightarrow> expr parser) \<Rightarrow> pattern parser \<Rightarrow> nat \<Rightarrow> pattern parser" where
  "parsePrimaryPattern recE recP n p =
     (if matchType NAME p \<and> tok_value (currentToken p) = ''_'' then
        thenP advance (returnP (MatchAs None None)) p
      else if matchTok OP ''('' p then
        thenP advance
          (bindP (untilClose '')'' recP n [])
             (\<lambda>pats. thenP (expect OP '')'') (returnP (MatchSequence pats)))) p
      else if matchTok OP ''['' p then
        thenP advance
          (bindP (untilClose '']'' recP n [])
             (\<lambda>pats. thenP (expect OP '']'') (returnP (MatchSequence pats)))) p
      else if matchTok OP ''{'' p then
        thenP advance
          (bindP (parseMapping_loop recE recP n n [] [] None)
             (\<lambda>(keys, pats, rest).
                thenP (expect OP ''}'') (returnP (MatchMapping keys pats rest)))) p
      else if matchType NAME p then
        bindP advance
          (\<lambda>name.
             ifP (matchTok OP ''('')
               (thenP advance
                  (bindP (parseClassPattern_loop recP n [] [] [])
                     (\<lambda>(pats, kwdAttrs, kwdPatterns).
                        thenP (expect OP '')'')
                          (returnP (MatchClass (Name (tok_value name)) pats kwdAttrs
                                      kwdPatterns)))))
               (ifP (matchTok OP ''.'')
                  (bindP (parseValuePattern_loop n (Name (tok_value name)))
                     (\<lambda>fullName. returnP (MatchValue fullName)))
                  (returnP (MatchAs None (Some (tok_value name)))))) p
      else if matchType NUMBER p \<or> matchType STRING p then
        bindP (parsePrimary recE n) (\<lambda>v. returnP (MatchValue v)) p
      else if matchKeyword ''None'' p then thenP advance (returnP (MatchSingleton CNull)) p
      else if matchKeyword ''True'' p then
        thenP advance (returnP (MatchSingleton (CBool True))) p
      else if matchKeyword ''False'' p then
        thenP advance (returnP (MatchSingleton (CBool False))) p
      else Inl (SyntaxError (''Unexpected token in pattern: '' @ tok_value (currentToken p))))"

definition parseAsPattern ::
  "(ecall \<Rightarrow> expr parser) \<Rightarrow> pattern parser \<Rightarrow> nat \<Rightarrow> pattern parser" where
  "parseAsPattern recE recP n p =
     bindP (parsePrimaryPattern recE recP n)
       (\<lambda>pat.
          ifP (matchKeyword ''as'')
            (thenP advance (bindP expectName (\<lambda>name. returnP (MatchAs (Some pat) (Some name)))))
            (returnP pat)) p"

primrec parseOrPattern_loop ::
  "(ecall \<Rightarrow> expr parser) \<Rightarrow> pattern parser \<Rightarrow> nat \<Rightarrow> nat \<Rightarrow> pattern list \<Rightarrow> pattern list parser" where
  "parseOrPattern_loop recE recP n 0 pats p = Inl OutOfFuel"
| "parseOrPattern_loop recE recP n (Suc k) pats p =
     (if matchTok OP ''|'' p then
        thenP advance
          (bindP (parseAsPattern recE recP n)
             (\<lambda>pat. parseOrPattern_loop recE recP n k (pats @ [pat]))) p
      else returnP pats p)"

definition parseOrPattern ::
  "(ecall \<Rightarrow> expr parser) \<Rightarrow> pattern parser \<Rightarrow> nat \<Rightarrow> pattern parser" where
  "parseOrPattern recE recP n p =
     bindP (parseAsPattern recE recP n)
       (\<lambda>pat.
          ifP (matchTok OP ''|'')
            (bindP (parseOrPattern_loop recE recP n n [pat])
               (\<lambda>pats. returnP (MatchOr pats)))
            (returnP pat)) p"

definition parsePattern ::
  "(ecall \<Rightarrow> expr parser) \<Rightarrow> pattern parser \<Rightarrow> nat \<Rightarrow> pattern parser" where
  "parsePattern recE recP n p = parseOrPattern recE recP n p"

primrec runPattern :: "nat \<Rightarrow> pattern parser" where
  "runPattern 0 p = Inl OutOfFuel"
| "runPattern (Suc n) p = parsePattern (runExpr n) (runPattern n) n p"

subsection \<open>\<open>match\<close>, \<open>try\<close>, decorators and the module\<close>

definition parseMatchCase ::
  "(ecall \<Rightarrow> expr parser) \<Rightarrow> pattern parser \<Rightarrow> stmt option parser \<Rightarrow> nat \<Rightarrow> match_case parser" where
  "parseMatchCase recE recP recS n p =
     thenP advance
       (bindP (parsePattern recE recP n)
          (\<lambda>pat.
             bindP (ifP (matchKeyword ''if'') (thenP advance (optional (parseExpr recE n)))
                      (returnP None))
               (\<lambda>guard.
                  thenP (expect OP '':'')
                    (bindP (parseSuite recE recS n)
                       (\<lambda>body. returnP (MatchCase pat guard body)))))) p"

primrec parseMatch_loop ::
  "(ecall \<Rightarrow> expr parser) \<Rightarrow> pattern parser \<Rightarrow> stmt option parser \<Rightarrow> nat \<Rightarrow> nat
   \<Rightarrow> match_case list \<Rightarrow> match_case list parser" where
  "parseMatch_loop recE recP recS n 0 cases p = Inl OutOfFuel"
| "parseMatch_loop recE recP recS n (Suc k) cases p =
     (if matchKeyword ''case'' p then
        bindP (parseMatchCase recE recP recS n)
          (\<lambda>c. parseMatch_loop recE recP recS n k (cases @ [c])) p
      else returnP cases p)"

definition parseMatch ::
  "(ecall \<Rightarrow> expr parser) \<Rightarrow> pattern parser \<Rightarrow> stmt option parser \<Rightarrow> nat \<Rightarrow> stmt parser" where
  "parseMatch recE recP recS n p =
     thenP advance
       (bindP (parseExpr recE n)
          (\<lambda>subject.
             thenP (expect OP '':'')
               (thenP (whenM (\<lambda>q. tok_type (currentToken q) = NEWLINE) advance)
                  (thenP (expect INDENT [])
                     (bindP (parseMatch_loop recE recP recS n n [])
                        (\<lambda>cases.
                           thenP (whenM (\<lambda>q. tok_type (currentToken q) = DEDENT) advance)
                             (returnP (Match subject cases)))))))) p"

definition parseExceptHandler ::
  "(ecall \<Rightarrow> expr parser) \<Rightarrow> stmt option parser \<Rightarrow> nat \<Rightarrow> excepthandler parser" where
  "parseExceptHandler recE recS n p =
     thenP advance
       (bindP (ifP (\<lambda>q. \<not> matchTok OP '':'' q)
                 (bindP (parseExpr recE n)
                    (\<lambda>t. bindP parseAsName (\<lambda>name. returnP (Some t, name))))
                 (returnP (None, None)))
          (\<lambda>(excType, name).
             thenP (expect OP '':'')
               (bindP (parseSuite recE recS n)
                  (\<lambda>body. returnP (ExceptHandler excType name body))))) p"

primrec parseTry_loop ::
  "(ecall \<Rightarrow> expr parser) \<Rightarrow> stmt option parser \<Rightarrow> nat \<Rightarrow> nat \<Rightarrow> excepthandler list
   \<Rightarrow> excepthandler list parser" where
  "parseTry_loop recE recS n 0 handlers p = Inl OutOfFuel"
| "parseTry_loop recE recS n (Suc k) handlers p =
     (if matchKeyword ''except'' p then
        bindP (parseExceptHandler recE recS n)
          (\<lambda>h. parseTry_loop recE recS n k (handlers @ [h])) p
      else returnP handlers p)"

definition parseTry ::
  "(ecall \<Rightarrow> expr parser) \<Rightarrow> stmt option parser \<Rightarrow> nat \<Rightarrow> stmt parser" where
  "parseTry recE recS n p =
     thenP advance
       (thenP (expect OP '':'')
          (bindP (parseSuite recE recS n)
             (\<lambda>body.
                bindP (parseTry_loop recE recS n n [])
                  (\<lambda>handlers.
                     bindP (keywordSuite ''else'' recE recS n)
                       (\<lambda>orelse.
                          bindP (keywordSuite ''finally'' recE recS n)
                            (\<lambda>finalbody. returnP (Try body handlers orelse finalbody))))))) p"

primrec parseDecorated_loop ::
  "(ecall \<Rightarrow> expr parser) \<Rightarrow> nat \<Rightarrow> nat \<Rightarrow> expr list \<Rightarrow> expr list parser" where
  "parseDecorated_loop recE n 0 decorators p = Inl OutOfFuel"
| "parseDecorated_loop recE n (Suc k) decorators p =
     (if matchTok OP ''@'' p then
        thenP advance
          (bindP (parseExpr recE n)
             (\<lambda>d.
                thenP (whenM (\<lambda>q. tok_type (currentToken q) = NEWLINE) advance)
                  (parseDecorated_loop recE n k (decorators @ [d])))) p
      else returnP decorators p)"

text \<open>
  \<open>node.decorator_list = decorators\<close>.  The node is a function or a class definition:
  \<open>parseDecorated\<close> gets it from \<open>parseFunctionDef\<close> or \<open>parseClassDef\<close>.
\<close>

definition setDecorators :: "expr list \<Rightarrow> stmt \<Rightarrow> stmt" where
  "setDecorators decorators node =
     (case node of
        FunctionDef name args body ds returns tps \<Rightarrow>
          FunctionDef name args body decorators returns tps
      | AsyncFunctionDef name args body ds returns tps \<Rightarrow>
          AsyncFunctionDef name args body decorators returns tps
      | ClassDef name bases kws body ds tps \<Rightarrow> ClassDef name bases kws body decorators tps
      | _ \<Rightarrow> node)"

definition parseDecorated ::
  "(ecall \<Rightarrow> expr parser) \<Rightarrow> stmt option parser \<Rightarrow> nat \<Rightarrow> stmt parser" where
  "parseDecorated recE recS n p =
     bindP (parseDecorated_loop recE n n [])
       (\<lambda>decorators.
          bindP (\<lambda>q.
                   if matchKeyword ''async'' q then
                     thenP advance
                       (ifP (matchKeyword ''def'') (parseFunctionDef recE recS n True)
                          (throwP (SyntaxError ''Expected def after async''))) q
                   else if matchKeyword ''def'' q then parseFunctionDef recE recS n False q
                   else if matchKeyword ''class'' q then parseClassDef recE recS n q
                   else Inl (SyntaxError ''Expected class or def after decorator''))
            (\<lambda>node. returnP (setDecorators decorators node))) p"

definition parseAsyncStatement ::
  "(ecall \<Rightarrow> expr parser) \<Rightarrow> stmt option parser \<Rightarrow> nat \<Rightarrow> stmt parser" where
  "parseAsyncStatement recE recS n p =
     thenP advance
       (\<lambda>q. if matchKeyword ''def'' q then parseFunctionDef recE recS n True q
             else if matchKeyword ''for'' q then parseFor recE recS n True q
             else if matchKeyword ''with'' q then parseWith recE recS n True q
             else Inl (SyntaxError ''Expected def, for, or with after async'')) p"

definition parseStatement ::
  "(ecall \<Rightarrow> expr parser) \<Rightarrow> pattern parser \<Rightarrow> stmt option parser \<Rightarrow> nat \<Rightarrow> stmt option parser" where
  "parseStatement recE recP recS n p =
     (if matchTok OP ''@'' p then optional (parseDecorated recE recS n) p
      else if matchKeyword ''def'' p then optional (parseFunctionDef recE recS n False) p
      else if matchKeyword ''async'' p then optional (parseAsyncStatement recE recS n) p
      else if matchKeyword ''class'' p then optional (parseClassDef recE recS n) p
      else if matchKeyword ''if'' p then optional (parseIf recE recS n) p
      else if matchKeyword ''for'' p then optional (parseFor recE recS n False) p
      else if matchKeyword ''while'' p then optional (parseWhile recE recS n) p
      else if matchKeyword ''with'' p then optional (parseWith recE recS n False) p
      else if matchKeyword ''match'' p then optional (parseMatch recE recP recS n) p
      else if matchKeyword ''try'' p then optional (parseTry recE recS n) p
      else if matchKeyword ''type'' p then optional (parseTypeAlias recE n) p
      else parseSimpleStatement recE n p)"

primrec runStatement :: "nat \<Rightarrow> stmt option parser" where
  "runStatement 0 p = Inl OutOfFuel"
| "runStatement (Suc n) p =
     parseStatement (runExpr n) (runPattern n) (runStatement n) n p"

primrec parse_loop :: "stmt option parser \<Rightarrow> nat \<Rightarrow> stmt list \<Rightarrow> stmt list parser" where
  "parse_loop parseStmt 0 body p = Inl OutOfFuel"
| "parse_loop parseStmt (Suc k) body p =
     (if tok_type (currentToken p) = ENDMARKER then returnP body p
      else if tok_type (currentToken p) = NEWLINE \<or> tok_type (currentToken p) = NL then
        thenP advance (parse_loop parseStmt k body) p
      else bindP parseStmt (\<lambda>stmt. parse_loop parseStmt k (push body stmt)) p)"

text \<open>The exported \<open>parse\<close>, with its fuel.\<close>

definition parse :: "nat \<Rightarrow> string \<Rightarrow> perror + module" where
  "parse n src =
     (case newParser src of
        Inl e \<Rightarrow> Inl e
      | Inr p \<Rightarrow>
          (case parse_loop (runStatement n) n [] p of
             Inl e \<Rightarrow> Inl e
           | Inr (body, p') \<Rightarrow> Inr (Module body)))"

section \<open>Notions used by the specification\<close>

text \<open>
  The token \<open>w\<close> occurs in a text: the word \<open>w\<close> stands somewhere in it with no word
  character directly before or after it.  \<open>p\<close> is the character before the text.
\<close>

fun hasToken :: "string \<Rightarrow> char option \<Rightarrow> string \<Rightarrow> bool" where
  "hasToken w p [] = False"
| "hasToken w p (x # xs) =
     ((prefix w (x # xs) \<and> isWordOpt p = False
        \<and> isWordOpt (headOpt (drop (length w) (x # xs))) = False)
      \<or> hasToken w (Some x) xs)"

text \<open>A line matches \<open>while COND:\<close> when the pattern of the rule matches inside it.\<close>

definition lineMatchesWhile :: "string \<Rightarrow> string \<Rightarrow> bool" where
  "lineMatchesWhile cond line = test (whilePat cond) line"

definition whileMessage :: "string \<Rightarrow> string" where
  "whileMessage cond = ''Potential infinite loop: while '' @ cond @ '' without apparent break''"

text \<open>The rule of \<open>infiniteLoopRules\<close> for the condition \<open>cond\<close>.\<close>

definition whileRule :: "string \<Rightarrow> SafetyRule" where
  "whileRule cond =
     \<lparr>r_type = infinite_loop, patterns = [whilePat cond],
      getMessage = (\<lambda>_. whileMessage cond),
      r_severity = warning, skipIf = Some (\<lambda>code _. test breakPat code)\<rparr>"

text \<open>
  For \<open>extract_return_value\<close>: a meaningful line is neither blank nor a comment-only
  line; the statement keywords are the ones the specification lists; an assignment in
  the words of the specification is a line with an \<open>=\<close> that is not part of \<open>==\<close>,
  \<open>!=\<close>, \<open><=\<close>, \<open>>=\<close> and has no \<open>lambda\<close> before it.
\<close>

definition meaningful :: "string \<Rightarrow> bool" where
  "meaningful line = (trim line \<noteq> [] \<and> startsWith (trim line) ''#'' = False)"

definition specKeywords :: "string list" where
  "specKeywords =
     [''def'', ''class'', ''if'', ''elif'', ''else:'', ''for'', ''while'', ''try:'',
      ''except'', ''finally:'', ''with'', ''return'', ''raise'', ''import'', ''from'',
      ''pass'', ''break'', ''continue'', ''@'']"

definition beginsWithKeyword :: "string \<Rightarrow> bool" where
  "beginsWithKeyword c = list_ex (startsWith c) specKeywords"

fun hasPlainEq :: "string \<Rightarrow> char option \<Rightarrow> string \<Rightarrow> bool" where
  "hasPlainEq seen p [] = False"
| "hasPlainEq seen p (x # xs) =
     ((x = CHR ''='' \<and> p \<notin> Some ` set ''=!<>'' \<and> headOpt xs \<noteq> Some (CHR ''='')
        \<and> includesStr seen ''lambda'' = False)
      \<or> hasPlainEq (seen @ [x]) (Some x) xs)"

definition specIsAssignment :: "string \<Rightarrow> bool" where
  "specIsAssignment c = hasPlainEq [] None c"

text \<open>
  An assignment as the code decides it: the text has neither \<open>==\<close> nor \<open>lambda\<close>, and
  its first \<open>=\<close> has none of \<open>!\<close>, \<open><\<close>, \<open>>\<close> before it and no \<open>=\<close> after it.
\<close>

definition firstEqAssign :: "string \<Rightarrow> bool" where
  "firstEqAssign c =
     (let pre = takeWhile (\<lambda>x. x \<noteq> CHR ''='') c;
          rest = dropWhile (\<lambda>x. x \<noteq> CHR ''='') c
      in rest \<noteq> []
         \<and> (pre = [] \<or> last pre \<notin> set ''!<>'')
         \<and> headOpt (tl rest) \<noteq> Some (CHR ''='')
         \<and> includesStr c ''=='' = False \<and> includesStr c ''lambda'' = False)"

section \<open>Auxiliary notions for the proofs\<close>

text \<open>The character before the position reached after the text \<open>pre\<close>.\<close>

definition lastOpt :: "char option \<Rightarrow> string \<Rightarrow> char option" where
  "lastOpt p pre = (if pre = [] then p else Some (last pre))"

section \<open>The invariant of comparison nodes\<close>

text \<open>
  A tree is well formed when every \<open>Compare\<close> node in it has as many operators as
  comparators, and one at least.  One predicate for each kind of node; all of them
  look into every field that can hold an expression.
\<close>

fun exprOk :: "expr \<Rightarrow> bool"
  and argumentsOk :: "arguments \<Rightarrow> bool"
  and argOk :: "arg \<Rightarrow> bool"
  and keywordOk :: "keyword \<Rightarrow> bool"
  and comprehensionOk :: "comprehension \<Rightarrow> bool" where
  "exprOk (BoolOp op vs) = list_all exprOk vs"
| "exprOk (NamedExpr t v) = (exprOk t \<and> exprOk v)"
| "exprOk (BinOp l op r) = (exprOk l \<and> exprOk r)"
| "exprOk (UnaryOp op e) = exprOk e"
| "exprOk (Lambda as b) = (argumentsOk as \<and> exprOk b)"
| "exprOk (IfExp t b e) = (exprOk t \<and> exprOk b \<and> exprOk e)"
| "exprOk (Dict ks vs) = (list_all (pred_option exprOk) ks \<and> list_all exprOk vs)"
| "exprOk (SetNode es) = list_all exprOk es"
| "exprOk (ListComp e gs) = (exprOk e \<and> list_all comprehensionOk gs)"
| "exprOk (SetComp e gs) = (exprOk e \<and> list_all comprehensionOk gs)"
| "exprOk (DictComp k v gs) = (exprOk k \<and> exprOk v \<and> list_all comprehensionOk gs)"
| "exprOk (GeneratorExp e gs) = (exprOk e \<and> list_all comprehensionOk gs)"
| "exprOk (Await e) = exprOk e"
| "exprOk (Yield e) = pred_option exprOk e"
| "exprOk (YieldFrom e) = exprOk e"
| "exprOk (Compare l ops cs) =
     (length ops = length cs \<and> 1 \<le> length ops \<and> exprOk l \<and> list_all exprOk cs)"
| "exprOk (Call f as ks) = (exprOk f \<and> list_all exprOk as \<and> list_all keywordOk ks)"
| "exprOk (FormattedValue v c f) = (exprOk v \<and> pred_option exprOk f)"
| "exprOk (JoinedStr vs) = list_all exprOk vs"
| "exprOk (Constant c) = True"
| "exprOk (Attribute v a) = exprOk v"
| "exprOk (Subscript v s) = (exprOk v \<and> exprOk s)"
| "exprOk (Starred v) = exprOk v"
| "exprOk (Name n) = True"
| "exprOk (ListNode es) = list_all exprOk es"
| "exprOk (Tuple es) = list_all exprOk es"
| "exprOk (Slice l u s) = (pred_option exprOk l \<and> pred_option exprOk u \<and> pred_option exprOk s)"
| "argumentsOk (Arguments po as va ko kd kw ds) =
     (list_all argOk po \<and> list_all argOk as \<and> pred_option argOk va \<and> list_all argOk ko
      \<and> list_all (pred_option exprOk) kd \<and> pred_option argOk kw \<and> list_all exprOk ds)"
| "argOk (Arg n a) = pred_option exprOk a"
| "keywordOk (Keyword n v) = exprOk v"
| "comprehensionOk (Comprehension t i ifs a) = (exprOk t \<and> exprOk i \<and> list_all exprOk ifs)"

fun typeParamOk :: "type_param \<Rightarrow> bool" where
  "typeParamOk (TypeVar n b) = pred_option exprOk b"
| "typeParamOk (TypeVarTuple n) = True"
| "typeParamOk (ParamSpec n) = True"

fun patternOk :: "pattern \<Rightarrow> bool" where
  "patternOk (MatchValue v) = exprOk v"
| "patternOk (MatchSingleton c) = True"
| "patternOk (MatchSequence ps) = list_all patternOk ps"
| "patternOk (MatchMapping ks ps r) = (list_all exprOk ks \<and> list_all patternOk ps)"
| "patternOk (MatchClass c ps as kps) =
     (exprOk c \<and> list_all patternOk ps \<and> list_all patternOk kps)"
| "patternOk (MatchStar n) = True"
| "patternOk (MatchAs p n) = pred_option patternOk p"
| "patternOk (MatchOr ps) = list_all patternOk ps"

fun withitemOk :: "withitem \<Rightarrow> bool" where
  "withitemOk (WithItem c v) = (exprOk c \<and> pred_option exprOk v)"

fun stmtOk :: "stmt \<Rightarrow> bool"
  and matchCaseOk :: "match_case \<Rightarrow> bool"
  and handlerOk :: "excepthandler \<Rightarrow> bool" where
  "stmtOk (Import ns) = True"
| "stmtOk (ImportFrom m ns l) = True"
| "stmtOk (FunctionDef n as b ds r tps) =
     (argumentsOk as \<and> list_all stmtOk b \<and> list_all exprOk ds \<and> pred_option exprOk r
      \<and> pred_option (list_all typeParamOk) tps)"
| "stmtOk (AsyncFunctionDef n as b ds r tps) =
     (argumentsOk as \<and> list_all stmtOk b \<and> list_all exprOk ds \<and> pred_option exprOk r
      \<and> pred_option (list_all typeParamOk) tps)"
| "stmtOk (ClassDef n bs ks b ds tps) =
     (list_all exprOk bs \<and> list_all keywordOk ks \<and> list_all stmtOk b \<and> list_all exprOk ds
      \<and> pred_option (list_all typeParamOk) tps)"
| "stmtOk (Assign ts v) = (list_all exprOk ts \<and> exprOk v)"
| "stmtOk (AugAssign t op v) = (exprOk t \<and> exprOk v)"
| "stmtOk (AnnAssign t a v s) = (exprOk t \<and> exprOk a \<and> pred_option exprOk v)"
| "stmtOk (IfStmt t b e) = (exprOk t \<and> list_all stmtOk b \<and> list_all stmtOk e)"
| "stmtOk (For t i b e) = (exprOk t \<and> exprOk i \<and> list_all stmtOk b \<and> list_all stmtOk e)"
| "stmtOk (AsyncFor t i b e) =
     (exprOk t \<and> exprOk i \<and> list_all stmtOk b \<and> list_all stmtOk e)"
| "stmtOk (While t b e) = (exprOk t \<and> list_all stmtOk b \<and> list_all stmtOk e)"
| "stmtOk (With is b) = (list_all withitemOk is \<and> list_all stmtOk b)"
| "stmtOk (AsyncWith is b) = (list_all withitemOk is \<and> list_all stmtOk b)"
| "stmtOk (Match s cs) = (exprOk s \<and> list_all matchCaseOk cs)"
| "stmtOk (Try b hs e f) =
     (list_all stmtOk b \<and> list_all handlerOk hs \<and> list_all stmtOk e \<and> list_all stmtOk f)"
| "stmtOk (Raise e c) = (pred_option exprOk e \<and> pred_option exprOk c)"
| "stmtOk (Return v) = pred_option exprOk v"
| "stmtOk (Delete ts) = list_all exprOk ts"
| "stmtOk Pass = True"
| "stmtOk Break = True"
| "stmtOk Continue = True"
| "stmtOk (Global ns) = True"
| "stmtOk (Nonlocal ns) = True"
| "stmtOk (Assert t m) = (exprOk t \<and> pred_option exprOk m)"
| "stmtOk (Expr v) = exprOk v"
| "stmtOk (TypeAlias n tps v) = (exprOk n \<and> list_all typeParamOk tps \<and> exprOk v)"
| "matchCaseOk (MatchCase p g b) = (patternOk p \<and> pred_option exprOk g \<and> list_all stmtOk b)"
| "handlerOk (ExceptHandler t n b) = (pred_option exprOk t \<and> list_all stmtOk b)"

fun moduleOk :: "module \<Rightarrow> bool" where
  "moduleOk (Module body) = list_all stmtOk body"

text \<open>
  A result of a parsing method is acceptable when it is an error or a value that
  satisfies \<open>P\<close>.
\<close>

definition okR :: "('a \<Rightarrow> bool) \<Rightarrow> perror + ('a \<times> Parser) \<Rightarrow> bool" where
  "okR P r = (case r of Inl e \<Rightarrow> True | Inr (x, p) \<Rightarrow> P x)"

definition okE :: "(ecall \<Rightarrow> expr parser) \<Rightarrow> bool" where
  "okE rec = (\<forall>c p. okR exprOk (rec c p))"

section \<open>Relative imports, in the words of the specification\<close>







section \<open>Lemmas on strings and on the regular expression engine\<close>

lemma firstSome_rev_upt_last:
  "(\<And>k. lo \<le> k \<Longrightarrow> k < n \<Longrightarrow> f k = None) \<Longrightarrow> lo \<le> n \<Longrightarrow> firstSome f (rev [lo..<Suc n]) = f n"
proof (induction n)
  case 0
  then show ?case by (simp split: option.splits)
next
  case (Suc n)
  show ?case
  proof (cases "lo \<le> n")
    case True
    have "firstSome f (rev [lo..<Suc n]) = f n"
      using Suc.IH[OF _ True] Suc.prems(1) by simp
    moreover have "f n = None" using Suc.prems(1)[of n] True by simp
    ultimately show ?thesis using True by (simp split: option.splits)
  next
    case False
    then have "lo = Suc n" using Suc.prems(2) by simp
    then show ?thesis by (simp split: option.splits)
  qed
qed

lemma firstSome_all_None: "(\<And>k. k \<in> set ks \<Longrightarrow> f k = None) \<Longrightarrow> firstSome f ks = None"
  by (induction ks) auto

lemma run_dropWhile: "drop (run k r) r = dropWhile (inCset k) r"
  by (simp add: run_def dropWhile_eq_drop)

lemma run_le: "run k r \<le> length r"
  by (simp add: run_def length_takeWhile_le)

lemma nth_in_run: "n < run k r \<Longrightarrow> inCset k (r ! n)"
  unfolding run_def using nth_length_takeWhile takeWhile_nth
  by (metis nth_mem set_takeWhileD)

lemma rmatch_Chr_in_run:
  assumes "n < run k r" "\<not> inCset k c"
  shows "rmatch (Chr c # as) q (drop n r) os cs = None"
proof -
  have n: "n < length r" using assms(1) run_le[of k r] by simp
  then have "drop n r = r ! n # drop (Suc n) r" by (simp add: Cons_nth_drop_Suc)
  moreover have "r ! n \<noteq> c" using nth_in_run[OF assms(1)] assms(2) by auto
  ultimately show ?thesis by simp
qed

lemma prevAfter_run:
  "prevAfter (run k r) p r = (if run k r = 0 then p else Some (last (takeWhile (inCset k) r)))"
  unfolding prevAfter_def run_def
  by (auto simp: last_conv_nth takeWhile_nth)

text \<open>A greedy star before a literal character outside its class never backtracks.\<close>
lemma rmatch_Star_Chr:
  assumes "\<not> inCset k c"
  shows "rmatch (Star k # Chr c # as) p r os cs =
         rmatch (Chr c # as) (prevAfter (run k r) p r) (dropWhile (inCset k) r) os cs"
proof -
  have none: "\<And>n. n < run k r \<Longrightarrow>
      rmatch (Chr c # as) (prevAfter n p r) (drop n r) os cs = None"
    by (rule rmatch_Chr_in_run[OF _ assms])
  have "firstSome (\<lambda>n. rmatch (Chr c # as) (prevAfter n p r) (drop n r) os cs) (rev [0..<Suc (run k r)])
        = rmatch (Chr c # as) (prevAfter (run k r) p r) (drop (run k r) r) os cs"
    by (rule firstSome_rev_upt_last) (simp_all only: none le0)
  then show ?thesis by (simp add: run_dropWhile)
qed

lemma rmatch_Plus_Chr:
  assumes "\<not> inCset k c"
  shows "rmatch (Plus k # Chr c # as) p r os cs =
         (if run k r = 0 then None
          else rmatch (Chr c # as) (prevAfter (run k r) p r) (dropWhile (inCset k) r) os cs)"
proof (cases "run k r = 0")
  case True
  then show ?thesis by simp
next
  case False
  then have le: "1 \<le> run k r" by simp
  have none: "\<And>n. n < run k r \<Longrightarrow>
      rmatch (Chr c # as) (prevAfter n p r) (drop n r) os cs = None"
    by (rule rmatch_Chr_in_run[OF _ assms])
  have "firstSome (\<lambda>n. rmatch (Chr c # as) (prevAfter n p r) (drop n r) os cs) (rev [1..<Suc (run k r)])
        = rmatch (Chr c # as) (prevAfter (run k r) p r) (drop (run k r) r) os cs"
    by (rule firstSome_rev_upt_last[OF _ le]) (simp only: none)
  then show ?thesis using False by (simp add: run_dropWhile)
qed

lemma rmatch_lit:
  "rmatch (lit s @ as) p r os cs =
     (if prefix s r then rmatch as (if s = [] then p else Some (last s)) (drop (length s) r) os cs
      else None)"
proof (induction s arbitrary: p r)
  case Nil
  then show ?case by (simp add: lit_def)
next
  case (Cons a s)
  show ?case
  proof (cases r)
    case Nil
    then show ?thesis by (simp add: lit_def)
  next
    case (Cons x xs)
    then show ?thesis using Cons.IH[of "Some x" xs] by (auto simp: lit_def)
  qed
qed

lemma dropWhile_eq_Cons_split:
  "dropWhile P r = x # r' \<Longrightarrow> \<exists>w. r = w @ x # r' \<and> (\<forall>c\<in>set w. P c) \<and> \<not> P x"
  by (metis dropWhile_eq_Cons_conv set_takeWhileD takeWhile_dropWhile_id)

lemma dropWhile_append_all:
  "\<forall>c\<in>set w. P c \<Longrightarrow> dropWhile P (w @ r) = dropWhile P r"
  by (induction w) auto

subsection \<open>\<open>split\<close> and \<open>join\<close>\<close>

lemma split_nonempty: "split c s \<noteq> []"
  by (induction s) (auto split: list.splits)


lemma split_no_sep: "l \<in> set (split c s) \<Longrightarrow> c \<notin> set l"
proof (induction s arbitrary: l)
  case Nil
  then show ?case by simp
next
  case (Cons x xs)
  obtain l' ls where e: "split c xs = l' # ls" using split_nonempty[of c xs] by (cases "split c xs") auto
  show ?case using Cons e by (auto split: if_splits)
qed




subsection \<open>Captures\<close>

lemma firstSome_SomeD: "firstSome f ks = Some res \<Longrightarrow> \<exists>k\<in>set ks. f k = Some res"
  by (induction ks) (auto split: option.splits)





subsection \<open>Searching\<close>

lemma lastOpt_simps [simp]:
  "lastOpt p [] = p" "lastOpt p (x # xs) = lastOpt (Some x) xs" "lastOpt p (xs @ [y]) = Some y"
  by (auto simp: lastOpt_def)

lemma search_SomeD:
  "search re p r i = Some m \<Longrightarrow>
   \<exists>pre post. r = pre @ post \<and> m_index m = i + length pre \<and> m_from m = post
     \<and> m_prev m = lastOpt p pre
     \<and> rmatch re (lastOpt p pre) post [] [] = Some (m_after m, m_groups m)"
proof (induction r arbitrary: p i)
  case Nil
  then show ?case by (auto split: option.splits)
next
  case (Cons x xs)
  show ?case
  proof (cases "rmatch re p (x # xs) [] []")
    case None
    then have "search re (Some x) xs (Suc i) = Some m" using Cons.prems by simp
    from Cons.IH[OF this] obtain pre post where
      "xs = pre @ post" "m_index m = Suc i + length pre" "m_from m = post"
      "m_prev m = lastOpt (Some x) pre"
      "rmatch re (lastOpt (Some x) pre) post [] [] = Some (m_after m, m_groups m)" by blast
    then have "x # xs = (x # pre) @ post \<and> m_index m = i + length (x # pre) \<and> m_from m = post
      \<and> m_prev m = lastOpt p (x # pre)
      \<and> rmatch re (lastOpt p (x # pre)) post [] [] = Some (m_after m, m_groups m)" by simp
    then show ?thesis by blast
  next
    case (Some res)
    obtain r' cs where res: "res = (r', cs)" by (cases res)
    have "x # xs = [] @ (x # xs) \<and> m_index m = i + length ([]::string) \<and> m_from m = x # xs
      \<and> m_prev m = lastOpt p [] \<and> rmatch re (lastOpt p []) (x # xs) [] [] = Some (m_after m, m_groups m)"
      using Cons.prems Some res by auto
    then show ?thesis by blast
  qed
qed

lemma search_SomeI:
  "rmatch re (lastOpt p pre) post [] [] \<noteq> None \<Longrightarrow> search re p (pre @ post) i \<noteq> None"
proof (induction pre arbitrary: p i)
  case Nil
  then show ?case by (cases post) (auto split: option.splits)
next
  case (Cons x pre)
  then show ?case by (auto split: option.splits)
qed

text \<open>
  \<open>matchAll\<close> reports every position at which the pattern matches, provided that a match
  always starts with the character \<open>c0\<close> and has no further \<open>c0\<close> inside: then no match
  can start inside another one.
\<close>

lemma matchAllFrom_finds:
  assumes shape: "\<And>p r r' cs. rmatch re p r [] [] = Some (r', cs) \<Longrightarrow>
                    \<exists>u. r = c0 # u @ r' \<and> c0 \<notin> set u"
    and m: "rmatch re (lastOpt p pre) post [] [] = Some (r', cs)"
    and sk: "c0 \<notin> set (take skip (pre @ post))"
  shows "\<exists>m\<in>set (matchAllFrom re p (pre @ post) i skip).
           m_index m = i + length pre \<and> m_groups m = cs"
  using m sk
proof (induction pre arbitrary: p i skip)
  case Nil
  from shape[OF Nil.prems(1)[simplified]] obtain u where post: "post = c0 # u @ r'" by blast
  with Nil.prems(2) have "skip = 0" by (cases skip) auto
  then show ?case using Nil.prems(1) post by (simp split: option.splits)
next
  case (Cons x pre)
  have m': "rmatch re (lastOpt (Some x) pre) post [] [] = Some (r', cs)"
    using Cons.prems(1) by simp
  show ?case
  proof (cases "0 < skip")
    case True
    have "c0 \<notin> set (take (skip - 1) (pre @ post))"
      using Cons.prems(2) True by (cases skip) auto
    from Cons.IH[OF m' this, of "Suc i"] show ?thesis using True by simp
  next
    case False
    show ?thesis
    proof (cases "rmatch re p (x # pre @ post) [] []")
      case None
      have "c0 \<notin> set (take 0 (pre @ post))" by simp
      from Cons.IH[OF m' this, of "Suc i"] show ?thesis using False None by simp
    next
      case (Some res)
      obtain r'' cs'' where res: "res = (r'', cs'')" by (cases res)
      from shape[OF Some[unfolded res]] obtain u where
        u: "x # pre @ post = c0 # u @ r''" "c0 \<notin> set u" by blast
      then have "pre @ post = u @ r''" by simp
      then have "c0 \<notin> set (take (length (x # pre @ post) - length r'' - 1) (pre @ post))"
        using u(2) by simp
      from Cons.IH[OF m' this, of "Suc i"] show ?thesis using False Some res by simp
    qed
  qed
qed

text \<open>Lines and line numbers.\<close>

lemma length_split: "length (split c s) = Suc (count_list s c)"
proof (induction s)
  case Nil
  then show ?case by simp
next
  case (Cons x xs)
  obtain l ls where "split c xs = l # ls" using split_nonempty[of c xs] by (cases "split c xs") auto
  then show ?case using Cons by auto
qed

lemma split_nth_decomp:
  "i < length (split c s) \<Longrightarrow>
   \<exists>A B. s = A @ (split c s ! i) @ B \<and> count_list A c = i \<and> (i = 0 \<longrightarrow> A = [])"
proof (induction s arbitrary: i)
  case Nil
  then show ?case by simp
next
  case (Cons x xs)
  obtain l ls where sp: "split c xs = l # ls"
    using split_nonempty[of c xs] by (cases "split c xs") auto
  show ?case
  proof (cases "x = c")
    case True
    show ?thesis
    proof (cases i)
      case 0
      have "x # xs = [] @ (split c (x # xs) ! 0) @ (x # xs) \<and> count_list [] c = (0::nat)
          \<and> ((0::nat) = 0 \<longrightarrow> ([]::string) = [])"
        using True by simp
      then show ?thesis unfolding 0 by blast
    next
      case (Suc j)
      then have "j < length (split c xs)" using Cons.prems True by simp
      from Cons.IH[OF this] obtain A B where
        "xs = A @ (split c xs ! j) @ B" "count_list A c = j" by blast
      then have "x # xs = (x # A) @ (split c (x # xs) ! i) @ B \<and> count_list (x # A) c = i"
        using True Suc by simp
      then show ?thesis using Suc by (intro exI[of _ "x # A"] exI[of _ B]) simp
    qed
  next
    case False
    show ?thesis
    proof (cases i)
      case 0
      have "0 < length (split c xs)" using sp by simp
      from Cons.IH[OF this] obtain B where "xs = l @ B" using sp by auto
      then have "x # xs = [] @ (split c (x # xs) ! 0) @ B \<and> count_list [] c = (0::nat)
          \<and> ((0::nat) = 0 \<longrightarrow> ([]::string) = [])"
        using False sp by simp
      then show ?thesis unfolding 0 by blast
    next
      case (Suc j)
      then have "i < length (split c xs)" using Cons.prems False sp by simp
      from Cons.IH[OF this] obtain A B where
        "xs = A @ (split c xs ! i) @ B" "count_list A c = i" by blast
      then have "x # xs = (x # A) @ (split c (x # xs) ! i) @ B \<and> count_list (x # A) c = i"
        using False Suc sp by simp
      then show ?thesis using Suc by (intro exI[of _ "x # A"] exI[of _ B]) simp
    qed
  qed
qed

lemma count_list_0: "c \<notin> set l \<Longrightarrow> count_list l c = 0"
  by (induction l) auto

section \<open>Properties of the safety analyzer\<close>

lemma analyze_import_os_system:
  "analyze (''import os\<newline>os.system('' @ [CHR 0x27] @ ''rm -rf /'' @ [CHR 0x27] @ '')'') =
     \<lparr>safe = False,
      violations = [\<lparr>v_type = dangerous_import,
                     v_message = ''Dangerous import: os module allows system access'',
                     v_line = Some 1, v_severity = error\<rparr>]\<rparr>"
  by code_simp

text \<open>
  C1, as the code has it.  For the two-line input \<open>import os\<close>, \<open>os.system('rm -rf /')\<close>
  the report is unsafe and holds exactly one violation: \<open>dangerous_import\<close> for the
  \<open>os\<close> module at line 1.  The \<open>os.system\<close> rule of \<open>commandInjectionRules\<close> asks for an
  f-string argument, so the plain string literal gives no \<open>command_injection\<close> violation.
\<close>

theorem C1_import_os_system_report:
  "safe (analyze (''import os\<newline>os.system('' @ [CHR 0x27] @ ''rm -rf /'' @ [CHR 0x27] @ '')''))
     = False
   \<and> violations (analyze (''import os\<newline>os.system('' @ [CHR 0x27] @ ''rm -rf /'' @ [CHR 0x27] @ '')''))
     = [\<lparr>v_type = dangerous_import,
         v_message = ''Dangerous import: os module allows system access'',
         v_line = Some 1, v_severity = error\<rparr>]"
  using analyze_import_os_system by simp

text \<open>
  C1 as stated fails: the report for that input has no violation of kind
  \<open>command_injection\<close>.
\<close>

theorem C1_no_command_injection:
  "command_injection \<notin> set (map v_type (violations
     (analyze (''import os\<newline>os.system('' @ [CHR 0x27] @ ''rm -rf /'' @ [CHR 0x27] @ '')''))))"
  using analyze_import_os_system by simp

text \<open>
  C9.  For every source text, the report returned by \<open>analyze\<close> is safe if and only if
  its list of violations is empty.
\<close>

theorem C9_safe_iff_no_violations:
  "safe (analyze code) = (violations (analyze code) = [])"
  by (simp add: analyze_def Let_def)

subsection \<open>The infinite-loop rules\<close>

text \<open>The token \<open>break\<close>.\<close>

lemma isWord_letter: "c \<in> set ''abcdefghijklmnopqrstuvwxyz'' \<Longrightarrow> isWord c"
  by (auto simp: isWord_def wordchars_def)

lemma rmatch_breakPat:
  "(rmatch breakPat p r [] [] \<noteq> None) =
   (prefix ''break'' r \<and> isWordOpt p = False \<and> isWordOpt (headOpt (drop (length ''break'') r)) = False)"
proof (cases "prefix ''break'' r")
  case True
  then obtain t where r: "r = ''break'' @ t" by (auto simp: prefix_def)
  have h: "isWordOpt (headOpt r)" by (simp add: r headOpt_def isWordOpt_def isWord_letter)
  have k: "isWordOpt (Some (CHR ''k''))" by (simp add: isWordOpt_def isWord_letter)
  have "rmatch breakPat p r [] [] = rmatch ([WordB] @ lit ''break'' @ [WordB]) p r [] []"
    by (simp add: breakPat_def)
  also have "\<dots> = (if isWordOpt p \<noteq> isWordOpt (headOpt r)
      then rmatch (lit ''break'' @ [WordB]) p r [] [] else None)" by simp
  also have "\<dots> = (if isWordOpt p \<noteq> isWordOpt (headOpt r)
      then rmatch [WordB] (Some (CHR ''k'')) t [] [] else None)"
    by (simp only: rmatch_lit) (simp add: r)
  finally show ?thesis using h k True by (simp add: r)
next
  case False
  have "rmatch breakPat p r [] [] = rmatch ([WordB] @ lit ''break'' @ [WordB]) p r [] []"
    by (simp add: breakPat_def)
  also have "\<dots> = (if isWordOpt p \<noteq> isWordOpt (headOpt r)
      then rmatch (lit ''break'' @ [WordB]) p r [] [] else None)" by simp
  also have "\<dots> = None" using False by (simp only: rmatch_lit) simp
  finally show ?thesis using False by simp
qed

lemma search_breakPat: "(search breakPat p r i \<noteq> None) = hasToken ''break'' p r"
proof (induction r arbitrary: p i)
  case Nil
  have "rmatch breakPat p [] [] [] = None"
    using rmatch_breakPat[of p "[]"] by (cases "rmatch breakPat p [] [] []") auto
  then show ?case by simp
next
  case (Cons x xs)
  show ?case
  proof (cases "rmatch breakPat p (x # xs) [] []")
    case None
    then show ?thesis using Cons[of "Some x" "Suc i"] rmatch_breakPat[of p "x # xs"] by auto
  next
    case (Some res)
    then show ?thesis using rmatch_breakPat[of p "x # xs"] by (auto split: prod.splits)
  qed
qed

lemma test_breakPat: "test breakPat code = hasToken ''break'' None code"
  using search_breakPat[of None code 0] by (simp add: test_def)

text \<open>The pattern \<open>while\s+COND\s*:\<close>, for a condition that starts with no white space.\<close>

lemma not_space_colon: "\<not> inCset ws (CHR '':'')"
  by (simp add: ws_def whitespace_def)

lemma dropWhile_run0: "run k r = 0 \<Longrightarrow> dropWhile (inCset k) r = r"
  by (cases r) (auto simp: run_def split: if_splits)

lemma whilePat_step:
  assumes "cond = c # cs" "\<not> inCset ws c"
  shows "rmatch (whilePat cond) p r [] [] =
    (if prefix ''while'' r then
       (let t = drop (length ''while'') r; t1 = dropWhile (inCset ws) t in
        if run ws t = 0 then None
        else if prefix cond t1 then
          (case dropWhile (inCset ws) (drop (length cond) t1) of
             [] \<Rightarrow> None
           | x # xs \<Rightarrow> if x = CHR '':'' then Some (xs, []) else None)
        else None)
     else None)"
proof -
  have lc: "lit cond @ [Star ws, Chr (CHR '':'')] = Chr c # (lit cs @ [Star ws, Chr (CHR '':'')])"
    by (simp add: assms(1) lit_def)
  have "rmatch (whilePat cond) p r [] [] =
     rmatch (lit ''while'' @ (Plus ws # (lit cond @ [Star ws, Chr (CHR '':'')]))) p r [] []"
    by (simp add: whilePat_def)
  also have "\<dots> = (if prefix ''while'' r
      then rmatch (Plus ws # (lit cond @ [Star ws, Chr (CHR '':'')])) (Some (CHR ''e''))
             (drop (length ''while'') r) [] []
      else None)"
    by (simp only: rmatch_lit) simp
  also have "\<dots> = (if prefix ''while'' r then
       (let t = drop (length ''while'') r; t1 = dropWhile (inCset ws) t in
        if run ws t = 0 then None
        else rmatch (lit cond @ [Star ws, Chr (CHR '':'')]) (prevAfter (run ws t) (Some (CHR ''e'')) t) t1 [] [])
     else None)"
    unfolding lc by (simp only: rmatch_Plus_Chr[OF assms(2)] Let_def)
  also have "\<dots> = (if prefix ''while'' r then
       (let t = drop (length ''while'') r; t1 = dropWhile (inCset ws) t in
        if run ws t = 0 then None
        else if prefix cond t1 then
          (case dropWhile (inCset ws) (drop (length cond) t1) of
             [] \<Rightarrow> None
           | x # xs \<Rightarrow> if x = CHR '':'' then Some (xs, []) else None)
        else None)
     else None)"
    by (simp only: rmatch_lit rmatch_Star_Chr[OF not_space_colon] Let_def)
       (simp only: rmatch.simps)
  finally show ?thesis .
qed

lemma whilePat_SomeD:
  assumes "cond = c # cs" "\<not> inCset ws c" "rmatch (whilePat cond) p r [] [] = Some (r', gs)"
  shows "gs = [] \<and> (\<exists>w1 w2. r = ''while'' @ w1 @ cond @ w2 @ CHR '':'' # r'
           \<and> w1 \<noteq> [] \<and> (\<forall>x\<in>set w1. isSpace x) \<and> (\<forall>x\<in>set w2. isSpace x))"
proof -
  let ?t = "drop (length ''while'') r"
  let ?t1 = "dropWhile (inCset ws) ?t"
  let ?t2 = "dropWhile (inCset ws) (drop (length cond) ?t1)"
  note step = whilePat_step[OF assms(1,2), of p r, unfolded Let_def]
  have 1: "prefix ''while'' r"
  proof (rule ccontr)
    assume "\<not> prefix ''while'' r"
    then have "rmatch (whilePat cond) p r [] [] = None" by (simp only: step if_False simp_thms)
    with assms(3) show False by simp
  qed
  have 2: "run ws ?t \<noteq> 0"
  proof
    assume "run ws ?t = 0"
    then have "rmatch (whilePat cond) p r [] [] = None" using 1 by (simp only: step if_True simp_thms)
    with assms(3) show False by simp
  qed
  have 3: "prefix cond ?t1"
  proof (rule ccontr)
    assume "\<not> prefix cond ?t1"
    then have "rmatch (whilePat cond) p r [] [] = None" using 1 2 by (simp only: step if_True if_False simp_thms)
    with assms(3) show False by simp
  qed
  have e: "rmatch (whilePat cond) p r [] [] =
      (case ?t2 of [] \<Rightarrow> None | x # xs \<Rightarrow> if x = CHR '':'' then Some (xs, []) else None)"
    using 1 2 3 by (simp only: step if_True if_False simp_thms)
  have c: "(case ?t2 of [] \<Rightarrow> None | x # xs \<Rightarrow> if x = CHR '':'' then Some (xs, []) else None)
      = Some (r', gs)"
    using e assms(3) by (rule trans[OF sym])
  have gen: "\<And>z::string. (case z of [] \<Rightarrow> None | x # xs \<Rightarrow> if x = CHR '':'' then Some (xs, []) else None)
      = Some (r', gs) \<Longrightarrow> z = CHR '':'' # r' \<and> gs = []"
    by (auto split: list.splits if_splits)
  have 4: "?t2 = CHR '':'' # r' \<and> gs = []" by (rule gen[OF c])
  from 1 have r: "r = ''while'' @ ?t" by (metis append_eq_conv_conj prefix_def)
  let ?w1 = "takeWhile (inCset ws) ?t"
  have t: "?t = ?w1 @ ?t1" by simp
  have w1: "?w1 \<noteq> []" using 2 by (auto simp: run_def)
  have s1: "\<forall>x\<in>set ?w1. isSpace x" by (auto simp: ws_def isSpace_def dest: set_takeWhileD)
  from 3 have t1: "?t1 = cond @ drop (length cond) ?t1" by (metis append_eq_conv_conj prefix_def)
  from 4 have t2eq: "?t2 = CHR '':'' # r'" by (rule conjunct1)
  from dropWhile_eq_Cons_split[OF t2eq] obtain w2 where
    w2: "drop (length cond) ?t1 = w2 @ CHR '':'' # r'" "\<forall>x\<in>set w2. inCset ws x" by blast
  have "r = ''while'' @ ?w1 @ cond @ w2 @ CHR '':'' # r'"
    using r t t1 w2(1) by (metis append_assoc)
  moreover have "\<forall>x\<in>set w2. isSpace x" using w2(2) by (simp add: ws_def isSpace_def)
  ultimately show ?thesis using 4 w1 s1 by blast
qed

lemma run_append_all:
  "\<forall>x\<in>set w. inCset k x \<Longrightarrow> (t = [] \<or> \<not> inCset k (hd t)) \<Longrightarrow> run k (w @ t) = length w"
  by (induction w) (auto simp: run_def takeWhile_eq_Nil_iff)

lemma dropWhile_append_all':
  "\<forall>x\<in>set w. inCset k x \<Longrightarrow> (t = [] \<or> \<not> inCset k (hd t)) \<Longrightarrow> dropWhile (inCset k) (w @ t) = t"
  by (induction w) (auto simp: dropWhile_eq_self_iff)

lemma whilePat_SomeI:
  assumes "cond = c # cs" "\<not> inCset ws c"
    "w1 \<noteq> []" "\<forall>x\<in>set w1. isSpace x" "\<forall>x\<in>set w2. isSpace x"
  shows "rmatch (whilePat cond) p (''while'' @ w1 @ cond @ w2 @ CHR '':'' # r') [] [] = Some (r', [])"
proof -
  let ?r = "''while'' @ w1 @ cond @ w2 @ CHR '':'' # r'"
  have a1: "\<forall>x\<in>set w1. inCset ws x" and a2: "\<forall>x\<in>set w2. inCset ws x"
    using assms(4,5) by (simp_all add: ws_def isSpace_def)
  have d: "drop (length ''while'') ?r = w1 @ (cond @ w2 @ CHR '':'' # r')" by simp
  have h: "cond @ w2 @ CHR '':'' # r' = [] \<or> \<not> inCset ws (hd (cond @ w2 @ CHR '':'' # r'))"
    using assms(1,2) by simp
  have run: "run ws (w1 @ (cond @ w2 @ CHR '':'' # r')) = length w1"
    by (rule run_append_all[OF a1 h])
  have dw: "dropWhile (inCset ws) (w1 @ (cond @ w2 @ CHR '':'' # r')) = cond @ w2 @ CHR '':'' # r'"
    by (rule dropWhile_append_all'[OF a1 h])
  have dw2: "dropWhile (inCset ws) (w2 @ CHR '':'' # r') = CHR '':'' # r'"
    using dropWhile_append_all'[OF a2, of "CHR '':'' # r'"] not_space_colon by simp
  have pc: "prefix cond (cond @ w2 @ CHR '':'' # r')" by simp
  have dc: "drop (length cond) (cond @ w2 @ CHR '':'' # r') = w2 @ CHR '':'' # r'" by simp
  have pw: "prefix ''while'' ?r" by simp
  have l0: "length w1 \<noteq> 0" using assms(3) by simp
  show ?thesis
    unfolding whilePat_step[OF assms(1,2)] Let_def d run dw dc dw2
    using pw pc l0 by (simp only: if_True if_False list.case simp_thms)
qed

lemma infiniteLoopRules_eq: "infiniteLoopRules = [whileRule ''True'', whileRule ''1'']"
  by (simp add: infiniteLoopRules_def whileRule_def whileMessage_def)

lemma whileRule_in_allRules:
  "cond = ''True'' \<or> cond = ''1'' \<Longrightarrow> whileRule cond \<in> set allRules"
  by (auto simp: allRules_def infiniteLoopRules_eq)

lemma infinite_loop_rules:
  "r \<in> set allRules \<Longrightarrow> r_type r = infinite_loop \<Longrightarrow>
   skipIf r = Some (\<lambda>code _. test breakPat code)"
  unfolding allRules_def dangerousImportRules_def codeExecutionRules_def filesystemRules_def
    networkRules_def dangerousAttributeRules_def serializationRules_def ffiRules_def
    infiniteLoopRules_def resourceExhaustionRules_def commandInjectionRules_def rule_def
  by auto

lemma applyRule_member:
  "v \<in> set (applyRule code r) \<Longrightarrow>
   \<exists>pat m. pat \<in> set (patterns r) \<and> m \<in> set (matchAll code pat) \<and> \<not> skips r code m
     \<and> v = mkViolation r code m"
  by (auto simp: applyRule_def)

lemma applyRule_intro:
  "pat \<in> set (patterns r) \<Longrightarrow> m \<in> set (matchAll code pat) \<Longrightarrow> \<not> skips r code m \<Longrightarrow>
   mkViolation r code m \<in> set (applyRule code r)"
  by (auto simp: applyRule_def)

lemma violations_analyze: "set (violations (analyze code)) = (\<Union>r\<in>set allRules. set (applyRule code r))"
  by (simp add: analyze_def Let_def)

lemma no_infinite_loop_with_break:
  assumes "test breakPat code"
  shows "infinite_loop \<notin> set (map v_type (violations (analyze code)))"
proof
  assume "infinite_loop \<in> set (map v_type (violations (analyze code)))"
  then obtain v where v: "v \<in> set (violations (analyze code))" "v_type v = infinite_loop" by auto
  then obtain r where r: "r \<in> set allRules" "v \<in> set (applyRule code r)"
    by (auto simp: violations_analyze)
  from applyRule_member[OF r(2)] obtain m where
    m: "\<not> skips r code m" "v = mkViolation r code m" by blast
  then have "r_type r = infinite_loop" using v(2) by (simp add: mkViolation_def)
  from infinite_loop_rules[OF r(1) this] have "skips r code m" using assms by (simp add: skips_def)
  with m(1) show False by simp
qed

lemma not_w_space: "isSpace x \<Longrightarrow> x \<noteq> CHR ''w''"
  by (auto simp: isSpace_def whitespace_def)

lemma cond_facts:
  assumes "cond = ''True'' \<or> cond = ''1''"
  shows "\<exists>c cs. cond = c # cs \<and> \<not> inCset ws c" "CHR ''w'' \<notin> set cond"
  using assms by (auto simp: ws_def whitespace_def)

lemma whilePat_shape:
  assumes "cond = ''True'' \<or> cond = ''1''"
    and "rmatch (whilePat cond) p r [] [] = Some (r', cs)"
  shows "\<exists>u. r = CHR ''w'' # u @ r' \<and> CHR ''w'' \<notin> set u"
proof -
  from cond_facts[OF assms(1)] obtain c cs' where c: "cond = c # cs'" "\<not> inCset ws c"
    and nw: "CHR ''w'' \<notin> set cond" by blast
  from whilePat_SomeD[OF c assms(2)] obtain w1 w2 where
    r: "r = ''while'' @ w1 @ cond @ w2 @ CHR '':'' # r'"
    and s: "\<forall>x\<in>set w1. isSpace x" "\<forall>x\<in>set w2. isSpace x" by blast
  let ?u = "''hile'' @ w1 @ cond @ w2 @ '':''"
  have "r = CHR ''w'' # ?u @ r'" using r by simp
  moreover have "CHR ''w'' \<notin> set ?u" using s nw not_w_space by auto
  ultimately show ?thesis by blast
qed

lemma while_line_found:
  assumes cond: "cond = ''True'' \<or> cond = ''1''"
    and i: "i < length (split (CHR 0x0A) code)"
    and ln: "lineMatchesWhile cond (split (CHR 0x0A) code ! i)"
  shows "\<exists>m\<in>set (matchAll code (whilePat cond)). getLineNumber code (m_index m) = Suc i"
proof -
  let ?nl = "CHR 0x0A"
  let ?ln = "split ?nl code ! i"
  from cond_facts[OF cond] obtain c cs' where c: "cond = c # cs'" "\<not> inCset ws c" by blast
  from ln obtain m0 where "search (whilePat cond) None ?ln 0 = Some m0"
    by (auto simp: lineMatchesWhile_def test_def)
  from search_SomeD[OF this] obtain pre post r0 g0 where
    pp: "?ln = pre @ post" and m0: "rmatch (whilePat cond) (lastOpt None pre) post [] [] = Some (r0, g0)"
    by blast
  from whilePat_SomeD[OF c m0] obtain w1 w2 where
    post: "post = ''while'' @ w1 @ cond @ w2 @ CHR '':'' # r0"
    and w: "w1 \<noteq> []" "\<forall>x\<in>set w1. isSpace x" "\<forall>x\<in>set w2. isSpace x" by blast
  from split_nth_decomp[OF i] obtain A B where
    code: "code = A @ ?ln @ B" and cnt: "count_list A ?nl = i" by blast
  have code2: "code = (A @ pre) @ (post @ B)" using code pp by (metis append_assoc)
  have "post @ B = ''while'' @ w1 @ cond @ w2 @ CHR '':'' # (r0 @ B)" using post by simp
  then have m1: "rmatch (whilePat cond) (lastOpt None (A @ pre)) (post @ B) [] [] = Some (r0 @ B, [])"
    using whilePat_SomeI[OF c w] by simp
  have sk: "CHR ''w'' \<notin> set (take 0 ((A @ pre) @ (post @ B)))" by simp
  have "\<exists>m\<in>set (matchAllFrom (whilePat cond) None ((A @ pre) @ (post @ B)) 0 0).
          m_index m = 0 + length (A @ pre) \<and> m_groups m = []"
    by (rule matchAllFrom_finds[OF whilePat_shape[OF cond] m1 sk])
  then obtain m where m: "m \<in> set (matchAll code (whilePat cond))" "m_index m = length (A @ pre)"
    unfolding matchAll_def code2[symmetric] by auto
  have "?ln \<in> set (split ?nl code)" using i by simp
  then have "?nl \<notin> set ?ln" by (rule split_no_sep)
  then have npre: "?nl \<notin> set pre" using pp by (metis Un_iff set_append)
  have "take (length (A @ pre)) code = A @ pre" using code2 by (metis append_eq_conv_conj)
  then have "getLineNumber code (m_index m) = Suc (count_list (A @ pre) ?nl)"
    using m(2) by (simp only: getLineNumber_def length_split)
  also have "\<dots> = Suc i" using cnt count_list_0[OF npre] by simp
  finally show ?thesis using m(1) by blast
qed

text \<open>
  C7.  Let \<open>cond\<close> be \<open>True\<close> or \<open>1\<close>.  If the token \<open>break\<close> occurs anywhere in the
  source, \<open>analyze\<close> reports no violation of kind \<open>infinite_loop\<close> at all.  If it occurs
  nowhere, then for every line that matches \<open>while cond:\<close> the report holds a violation of
  kind \<open>infinite_loop\<close> with severity \<open>warning\<close> and the (1-based) number of that line.
\<close>

theorem C7_infinite_loop:
  assumes "cond = ''True'' \<or> cond = ''1''"
  shows "(hasToken ''break'' None code \<longrightarrow>
            infinite_loop \<notin> set (map v_type (violations (analyze code))))
       \<and> (\<not> hasToken ''break'' None code \<longrightarrow>
            (\<forall>i < length (split (CHR 0x0A) code).
               lineMatchesWhile cond (split (CHR 0x0A) code ! i) \<longrightarrow>
               \<lparr>v_type = infinite_loop, v_message = whileMessage cond,
                v_line = Some (Suc i), v_severity = warning\<rparr>
               \<in> set (violations (analyze code))))"
proof (intro conjI impI allI)
  assume "hasToken ''break'' None code"
  then have "test breakPat code" by (simp add: test_breakPat)
  then show "infinite_loop \<notin> set (map v_type (violations (analyze code)))"
    by (rule no_infinite_loop_with_break)
next
  fix i
  assume nb: "\<not> hasToken ''break'' None code"
    and i: "i < length (split (CHR 0x0A) code)"
    and ln: "lineMatchesWhile cond (split (CHR 0x0A) code ! i)"
  from while_line_found[OF assms i ln] obtain m where
    m: "m \<in> set (matchAll code (whilePat cond))" "getLineNumber code (m_index m) = Suc i" by blast
  have ns: "\<not> skips (whileRule cond) code m"
    using nb by (simp add: skips_def whileRule_def test_breakPat)
  have "whilePat cond \<in> set (patterns (whileRule cond))" by (simp add: whileRule_def)
  from applyRule_intro[OF this m(1) ns]
  have "mkViolation (whileRule cond) code m \<in> set (violations (analyze code))"
    using whileRule_in_allRules[OF assms] by (auto simp: violations_analyze)
  moreover have "mkViolation (whileRule cond) code m =
      \<lparr>v_type = infinite_loop, v_message = whileMessage cond,
       v_line = Some (Suc i), v_severity = warning\<rparr>"
    using m(2) by (simp add: mkViolation_def whileRule_def)
  ultimately show "\<lparr>v_type = infinite_loop, v_message = whileMessage cond,
       v_line = Some (Suc i), v_severity = warning\<rparr> \<in> set (violations (analyze code))"
    by simp
qed

lemma while_true_forever:
  \<open>\<not> hasToken ''break'' None ''while True:\<newline>    print("forever")''
   \<and> 0 < length (split (CHR 0x0A) ''while True:\<newline>    print("forever")'')
   \<and> lineMatchesWhile ''True'' (split (CHR 0x0A) ''while True:\<newline>    print("forever")'' ! 0)\<close>
  by code_simp

lemma while_true_with_break:
  "hasToken ''break'' None ''while True:\<newline>    if done:\<newline>        break\<newline>    process()''"
  by code_simp

theorem C7_infinite_loop_witness:
  \<open>\<lparr>v_type = infinite_loop,
     v_message = ''Potential infinite loop: while True without apparent break'',
     v_line = Some 1, v_severity = warning\<rparr>
      \<in> set (violations (analyze ''while True:\<newline>    print("forever")''))
   \<and> infinite_loop \<notin> set (map v_type (violations
        (analyze ''while True:\<newline>    if done:\<newline>        break\<newline>    process()'')))\<close>
  using C7_infinite_loop[of "''True''" \<open>''while True:\<newline>    print("forever")''\<close>]
    C7_infinite_loop[of "''True''" "''while True:\<newline>    if done:\<newline>        break\<newline>    process()''"]
    while_true_forever while_true_with_break
  by (simp add: whileMessage_def)

section \<open>Properties of the transformation passes\<close>

subsection \<open>\<open>mockInput\<close>\<close>

abbreviation "inputMatch p r \<equiv> rmatch inputPat p r [] []"

lemma not_space_paren: "\<not> inCset ws (CHR ''('')"
  by (simp add: ws_def whitespace_def)

lemma inputMatch_step:
  "inputMatch p r =
    (if isWordOpt p \<noteq> isWordOpt (headOpt r) then
      (if prefix ''input'' r
       then rmatch [Chr (CHR ''('')] (prevAfter (run ws (drop (length ''input'') r)) (Some (CHR ''t'')) (drop (length ''input'') r))
              (dropWhile (inCset ws) (drop (length ''input'') r)) [] []
       else None)
     else None)"
proof -
  have "inputMatch p r = rmatch ([WordB] @ lit ''input'' @ [Star ws, Chr (CHR ''('')]) p r [] []"
    by (simp add: inputPat_def)
  also have "\<dots> = (if isWordOpt p \<noteq> isWordOpt (headOpt r)
                    then rmatch (lit ''input'' @ [Star ws, Chr (CHR ''('')]) p r [] [] else None)"
    by simp
  finally show ?thesis
    by (simp only: rmatch_lit rmatch_Star_Chr[OF not_space_paren]) simp
qed

lemma inputMatch_SomeD:
  assumes "inputMatch p r = Some (r', cs)"
  shows "\<not> isWordOpt p \<and> cs = [] \<and> (\<exists>w. r = ''input'' @ w @ CHR ''('' # r' \<and> (\<forall>c\<in>set w. isSpace c))"
proof -
  from assms have 1: "isWordOpt p \<noteq> isWordOpt (headOpt r)" and 2: "prefix ''input'' r"
    by (auto simp: inputMatch_step split: if_splits)
  from 2 obtain t where r: "r = ''input'' @ t" by (auto simp: prefix_def)
  have hw: "isWordOpt (headOpt r)" by (simp add: r headOpt_def isWordOpt_def isWord_def wordchars_def)
  from assms 1 2 have "rmatch [Chr (CHR ''('')] (prevAfter (run ws t) (Some (CHR ''t'')) t) (dropWhile (inCset ws) t) [] [] = Some (r', cs)"
    by (simp add: inputMatch_step r)
  then have dw: "dropWhile (inCset ws) t = CHR ''('' # r'" and cs: "cs = []"
    by (auto split: list.splits if_splits)
  from dropWhile_eq_Cons_split[OF dw] obtain w
    where w: "t = w @ CHR ''('' # r'" "\<forall>c\<in>set w. inCset ws c" by blast
  have "\<not> isWordOpt p" using 1 hw by simp
  moreover have "r = ''input'' @ w @ CHR ''('' # r'" using r w(1) by simp
  moreover have "\<forall>c\<in>set w. isSpace c" using w(2) by (simp add: ws_def isSpace_def)
  ultimately show ?thesis using cs by blast
qed

lemma inputMatch_SomeI:
  assumes "\<not> isWordOpt p" "\<forall>c\<in>set w. isSpace c"
  shows "inputMatch p (''input'' @ w @ CHR ''('' # r') = Some (r', [])"
proof -
  let ?r = "''input'' @ w @ CHR ''('' # r'"
  have hw: "isWordOpt (headOpt ?r)" by (simp add: headOpt_def isWordOpt_def isWord_def wordchars_def)
  have d: "drop (length ''input'') ?r = w @ CHR ''('' # r'" by simp
  have "dropWhile (inCset ws) (w @ CHR ''('' # r') = CHR ''('' # r'"
    using assms(2) by (subst dropWhile_append_all) (auto simp: ws_def isSpace_def whitespace_def)
  then show ?thesis
    unfolding inputMatch_step using assms(1) hw by (simp only: d) simp
qed

lemma isWord_head_input: "isWordOpt (headOpt (''input'' @ t))"
  by (simp add: headOpt_def isWordOpt_def isWord_def wordchars_def)

lemma inputMatch_None_prev: "isWordOpt p \<Longrightarrow> inputMatch p r = None"
proof (cases "prefix ''input'' r")
  case True
  assume p: "isWordOpt p"
  from True obtain t where r: "r = ''input'' @ t" by (auto simp: prefix_def)
  show ?thesis unfolding inputMatch_step using p isWord_head_input[of t] by (simp only: r) simp
next
  case False
  then show ?thesis by (simp only: inputMatch_step) simp
qed

lemma inputMatch_cong_prev: "isWordOpt p = isWordOpt q \<Longrightarrow> inputMatch p r = inputMatch q r"
  by (simp only: inputMatch_step)

abbreviation "mockFrom p r skip \<equiv> replaceFrom inputPat inputRepl p r skip"

lemma replaceFrom_skip:
  "replaceFrom re repl p (a @ b) (length a) =
   replaceFrom re repl (if a = [] then p else Some (last a)) b 0"
  by (induction a arbitrary: p) auto

lemma inputMatch_Nil: "inputMatch p [] = None"
  by (simp add: inputMatch_step)

lemma mockFrom_Nil: "mockFrom p [] 0 = []"
  by (simp add: inputMatch_Nil)

lemma mockFrom_nomatch: "inputMatch p (x # xs) = None \<Longrightarrow> mockFrom p (x # xs) 0 = x # mockFrom (Some x) xs 0"
  by simp

lemma mockFrom_match:
  assumes "inputMatch p r = Some (r', cs)"
  shows "mockFrom p r 0 = inputRepl @ mockFrom (Some (CHR ''('')) r' 0"
proof -
  from inputMatch_SomeD[OF assms] obtain w where
    r: "r = ''input'' @ w @ CHR ''('' # r'" by blast
  let ?a = "''nput'' @ w @ ''(''"
  have r2: "r = CHR ''i'' # (?a @ r')" using r by simp
  have len: "length (CHR ''i'' # ?a @ r') - length r' - 1 = length ?a" by simp
  have "mockFrom p (CHR ''i'' # (?a @ r')) 0 = inputRepl @ mockFrom (Some (CHR ''i'')) (?a @ r') (length ?a)"
    using assms unfolding r2 by (simp only: replaceFrom.simps len) simp
  also have "mockFrom (Some (CHR ''i'')) (?a @ r') (length ?a) = mockFrom (Some (CHR ''('')) r' 0"
    by (subst replaceFrom_skip) simp
  finally show ?thesis using r2 by simp
qed

lemma mockFrom_prefix:
  "CHR ''a'' \<notin> set u \<Longrightarrow> prefix u (mockFrom q xs 0) \<Longrightarrow> prefix u xs"
proof (induction xs arbitrary: q u)
  case Nil
  then show ?case by (simp add: inputMatch_Nil)
next
  case (Cons x xs)
  show ?case
  proof (cases "inputMatch q (x # xs)")
    case None
    then have "mockFrom q (x # xs) 0 = x # mockFrom (Some x) xs 0" by (rule mockFrom_nomatch)
    with Cons.prems(2) have p: "prefix u (x # mockFrom (Some x) xs 0)" by simp
    show ?thesis
    proof (cases u)
      case Nil then show ?thesis by simp
    next
      case (Cons y u')
      with p have "y = x" "prefix u' (mockFrom (Some x) xs 0)" by auto
      moreover have "CHR ''a'' \<notin> set u'" using Cons.prems(1) Cons by simp
      ultimately show ?thesis using Cons.IH Cons by auto
    qed
  next
    case (Some res)
    obtain r' cs where "res = (r', cs)" by (cases res)
    with Some have m: "inputMatch q (x # xs) = Some (r', cs)" by simp
    have "mockFrom q (x # xs) 0 = inputRepl @ mockFrom (Some (CHR ''('')) r' 0" by (rule mockFrom_match[OF m])
    with Cons.prems(2) have "prefix u (CHR ''a'' # ''wait __pyx_input__('' @ mockFrom (Some (CHR ''('')) r' 0)"
      by (simp add: inputRepl_def)
    with Cons.prems(1) have "u = []" by (cases u) auto
    then show ?thesis by simp
  qed
qed

lemma mockFrom_repl: "mockFrom p (inputRepl @ t) 0 = inputRepl @ mockFrom (Some (CHR ''('')) t 0"
  by (simp add: inputRepl_def inputMatch_step headOpt_def isWordOpt_def isWord_def wordchars_def)

lemma not_a_space: "isSpace c \<Longrightarrow> c \<noteq> CHR ''a''"
  by (auto simp: isSpace_def whitespace_def)

lemma mockFrom_idem: "mockFrom p (mockFrom p s 0) 0 = mockFrom p s 0"
proof (induction "length s" arbitrary: s p rule: less_induct)
  case less
  show ?case
  proof (cases s)
    case Nil
    then show ?thesis by (simp add: inputMatch_Nil)
  next
    case (Cons x xs)
    show ?thesis
    proof (cases "inputMatch p s")
      case None
      let ?t = "mockFrom (Some x) xs 0"
      have gs: "mockFrom p s 0 = x # ?t" using None mockFrom_nomatch[of p x xs] unfolding Cons by blast
      have "inputMatch p (x # ?t) = None"
      proof (rule ccontr)
        assume "inputMatch p (x # ?t) \<noteq> None"
        then obtain r' cs where m: "inputMatch p (x # ?t) = Some (r', cs)" by auto
        from inputMatch_SomeD[OF m] obtain w where
          np: "\<not> isWordOpt p" and e: "x # ?t = ''input'' @ w @ CHR ''('' # r'"
          and sp: "\<forall>c\<in>set w. isSpace c" by blast
        let ?u = "''nput'' @ w @ ''(''"
        from e have x: "x = CHR ''i''" and pu: "prefix ?u ?t" by (auto simp: prefix_def)
        have "CHR ''a'' \<notin> set ?u" using sp not_a_space by auto
        from mockFrom_prefix[OF this pu] obtain rest where "xs = ?u @ rest" by (auto simp: prefix_def)
        then have "s = ''input'' @ w @ CHR ''('' # rest" using Cons x by simp
        then have "inputMatch p s = Some (rest, [])" using inputMatch_SomeI[OF np sp] by simp
        with None show False by simp
      qed
      then have "mockFrom p (x # ?t) 0 = x # mockFrom (Some x) ?t 0" by (rule mockFrom_nomatch)
      moreover have "mockFrom (Some x) ?t 0 = ?t" using less[of xs "Some x"] Cons by simp
      ultimately show ?thesis using gs by simp
    next
      case (Some res)
      obtain r' cs where res: "res = (r', cs)" by (cases res)
      have m: "inputMatch p s = Some (r', cs)" using Some res by simp
      from inputMatch_SomeD[OF m] have "length r' < length s" by auto
      then have ih: "mockFrom (Some (CHR ''('')) (mockFrom (Some (CHR ''('')) r' 0) 0 = mockFrom (Some (CHR ''('')) r' 0"
        by (rule less)
      have "mockFrom p s 0 = inputRepl @ mockFrom (Some (CHR ''('')) r' 0" by (rule mockFrom_match[OF m])
      then show ?thesis using ih by (simp only: mockFrom_repl)
    qed
  qed
qed

text \<open>
  C10.  \<open>mockInput\<close> is idempotent: for every source text \<open>x\<close>,
  \<open>mockInput (mockInput x) = mockInput x\<close>.  The reason is \<open>mockFrom_repl\<close>: no match of
  \<open>/\binput\s*\(/\<close> starts inside the replacement text \<open>await __pyx_input__(\<close>, whatever
  follows it, and a match cannot run into it (\<open>mockFrom_prefix\<close>).
\<close>

theorem C10_mockInput_idempotent: "mockInput (mockInput x) = mockInput x"
  using mockFrom_idem[of None x] by (simp add: mockInput_def replaceAll_def)

subsection \<open>\<open>rewriteImports\<close>\<close>


lemma search_Bol: "search (Bol # as) (Some c) r i = None"
  by (induction r arbitrary: c i) auto

lemma not_space_letter: "c \<in> set ''abcdefghijklmnopqrstuvwxyz'' \<Longrightarrow> \<not> inCset ws c"
  by (auto simp: ws_def whitespace_def)

lemma extractModuleName_installLine: "extractModuleName (installLine m) = None"
proof -
  have i: "\<not> inCset ws (CHR ''i'')" and f: "\<not> inCset ws (CHR ''f'')" and a: "\<not> inCset ws (CHR ''a'')"
    by (simp_all add: not_space_letter)
  have l: "installLine m = CHR ''a'' # tl (installLine m)" by (simp add: installLine_def)
  have d: "dropWhile (inCset ws) (CHR ''a'' # t) = CHR ''a'' # t" for t using a by simp
  have 1: "match (CHR ''a'' # t) importLinePat = None" for t
    unfolding match_def importLinePat_def lit_def
    by (simp add: search_Bol rmatch_Star_Chr[OF i] d a del: rmatch.simps(4))
  have 2: "match (CHR ''a'' # t) fromLinePat = None" for t
    unfolding match_def fromLinePat_def lit_def
    by (simp add: search_Bol rmatch_Star_Chr[OF f] d a del: rmatch.simps(4))
  show ?thesis unfolding extractModuleName_def by (subst l, subst (2) l) (simp add: 1 2)
qed



lemma needsInstall_installLine: "needsInstall (installLine m) S = None"
  by (simp add: needsInstall_def extractModuleName_installLine)















subsection \<open>\<open>wrapTopLevelAwait\<close>\<close>

text \<open>
  The repository's test \<open>should not modify code without top-level await\<close>: an \<open>await\<close>
  in the body of an \<open>async def\<close> is not at top level, and the source comes back as it is.
\<close>

lemma wrapTopLevelAwait_inside_async_def:
  "wrapTopLevelAwait ''async def foo():\<newline>    return await bar()''
     = ''async def foo():\<newline>    return await bar()''"
  by code_simp

text \<open>
  C8.  The claim: \<open>wrapTopLevelAwait\<close> is the identity on every source with no bare
  \<open>await\<close> outside an \<open>async def\<close> block.  It fails on the code.  In the four lines

  \<^item> \<open>async def a():\<close>
  \<^item> \<open>    async def b():\<close>
  \<^item> \<open>        pass\<close>
  \<^item> \<open>    await x\<close>

  the only \<open>await\<close> is in the body of \<open>async def a\<close>.  The scan \<open>hasTopLevelAwait\<close> keeps
  the indentation of one header only: the header of \<open>b\<close> replaces that of \<open>a\<close>, the last
  line is not indented more than the header of \<open>b\<close> and so counts as outside every
  \<open>async def\<close>, the scan answers true, and the source is wrapped.
\<close>

theorem C8_await_after_nested_async_def_is_wrapped:
  "hasTopLevelAwait
     ''async def a():\<newline>    async def b():\<newline>        pass\<newline>    await x''
   \<and> wrapTopLevelAwait
       ''async def a():\<newline>    async def b():\<newline>        pass\<newline>    await x''
       = ''async def __pyx_main__():\<newline>    async def a():\<newline>        async def b():\<newline>            pass\<newline>        await x\<newline>''
   \<and> wrapTopLevelAwait
       ''async def a():\<newline>    async def b():\<newline>        pass\<newline>    await x''
       \<noteq> ''async def a():\<newline>    async def b():\<newline>        pass\<newline>    await x''"
  by code_simp

subsection \<open>\<open>extractReturnValue\<close>\<close>

text \<open>\<open>indentPat\<close>\<close>

lemma firstSome_rev_upt_first:
  "f n \<noteq> None \<Longrightarrow> firstSome f (rev [lo..<Suc n]) = (if lo \<le> n then f n else None)"
  by (auto split: option.splits)

lemma search_here:
  "rmatch re p r [] [] = Some (r', cs) \<Longrightarrow>
   search re p r i = Some \<lparr>m_index = i, m_prev = p, m_from = r, m_after = r', m_groups = cs\<rparr>"
  by (cases r) simp_all

lemma leadingSpace_eq: "leadingSpace line = takeWhile isSpace line"
proof -
  have ws: "inCset ws = isSpace" by (auto simp: ws_def isSpace_def)
  have "rmatch indentPat None line [] [] =
      Some (drop (run ws line) line, [(1, take (run ws line) line)])"
    unfolding indentPat_def
    by (simp add: captured_def del: upt_Suc) (simp add: min_def run_le)
  then have "match line indentPat =
      Some \<lparr>m_index = 0, m_prev = None, m_from = line, m_after = drop (run ws line) line,
            m_groups = [(1, take (run ws line) line)]\<rparr>"
    unfolding match_def by (rule search_here)
  then have "leadingSpace line = take (run ws line) line"
    by (simp add: leadingSpace_def group1_def group_def)
  also have "\<dots> = takeWhile isSpace line"
    unfolding run_def ws by (rule takeWhile_eq_take[symmetric])
  finally show ?thesis .
qed

lemma search_Bol_start:
  "(search (Bol # as) None r i \<noteq> None) = (rmatch (Bol # as) None r [] [] \<noteq> None)"
proof (cases r)
  case Nil
  then show ?thesis by (auto split: option.splits)
next
  case (Cons x xs)
  have "search (Bol # as) (Some x) xs (Suc i) = None" by (rule search_Bol)
  then show ?thesis unfolding Cons by (cases "rmatch (Bol # as) None (x # xs) [] []") auto
qed

lemma rmatch_Star_NotBehind_Chr:
  assumes "\<not> inCset k c"
  shows "rmatch (Star k # NotBehind b # Chr c # as) p r os cs =
         rmatch (NotBehind b # Chr c # as) (prevAfter (run k r) p r) (dropWhile (inCset k) r) os cs"
proof -
  have none: "\<And>n. n < run k r \<Longrightarrow>
      rmatch (NotBehind b # Chr c # as) (prevAfter n p r) (drop n r) os cs = None"
  proof -
    fix n assume n: "n < run k r"
    have "rmatch (Chr c # as) (prevAfter n p r) (drop n r) os cs = None"
      by (rule rmatch_Chr_in_run[OF n assms])
    then show "rmatch (NotBehind b # Chr c # as) (prevAfter n p r) (drop n r) os cs = None"
      by (simp only: rmatch.simps(12) split: option.splits if_splits) simp
  qed
  have "firstSome (\<lambda>n. rmatch (NotBehind b # Chr c # as) (prevAfter n p r) (drop n r) os cs)
          (rev [0..<Suc (run k r)])
        = rmatch (NotBehind b # Chr c # as) (prevAfter (run k r) p r) (drop (run k r) r) os cs"
    by (rule firstSome_rev_upt_last) (simp_all only: none le0)
  then show ?thesis by (simp only: rmatch.simps(4) run_dropWhile)
qed

lemma ne_eq: "inCset (NoneOf ''='') = (\<lambda>x. x \<noteq> CHR ''='')"
  by auto

lemma dropWhile_ne_hd: "dropWhile (\<lambda>x. x \<noteq> c) r = y # t \<Longrightarrow> y = c"
  by (metis (mono_tags, lifting) dropWhile_eq_Cons_conv)

lemma last_takeWhile_ne:
  "takeWhile (\<lambda>x. x \<noteq> c) r \<noteq> [] \<Longrightarrow> last (takeWhile (\<lambda>x. x \<noteq> c) r) \<noteq> c"
  by (metis (mono_tags, lifting) last_in_set set_takeWhileD)

lemma test_assignPat:
  "test assignPat c =
     (let pre = takeWhile (\<lambda>x. x \<noteq> CHR ''='') c;
          rest = dropWhile (\<lambda>x. x \<noteq> CHR ''='') c
      in rest \<noteq> []
         \<and> (pre = [] \<or> last pre \<notin> set ''!<>'')
         \<and> headOpt (tl rest) \<noteq> Some (CHR ''=''))"
proof -
  let ?pre = "takeWhile (\<lambda>x. x \<noteq> CHR ''='') c"
  let ?rest = "dropWhile (\<lambda>x. x \<noteq> CHR ''='') c"
  let ?q = "prevAfter (run (NoneOf ''='') c) None c"
  have neq: "\<not> inCset (NoneOf ''='') (CHR ''='')" by simp
  have q: "?q = (if ?pre = [] then None else Some (last ?pre))"
    using prevAfter_run[where k="NoneOf ''=''" and p=None and r=c] by (simp add: ne_eq run_def)
  have "test assignPat c = (rmatch assignPat None c [] [] \<noteq> None)"
    unfolding test_def assignPat_def by (rule search_Bol_start)
  also have "rmatch assignPat None c [] [] =
      rmatch [NotBehind (OneOf ''=!<>''), Chr (CHR ''=''), NotAhead (OneOf ''='')] ?q ?rest [] []"
    unfolding assignPat_def
    by (simp only: rmatch.simps(9) if_True rmatch_Star_NotBehind_Chr[OF neq] ne_eq simp_thms)
  also have "(\<dots> \<noteq> None) = (?rest \<noteq> [] \<and> (?pre = [] \<or> last ?pre \<notin> set ''!<>'')
         \<and> headOpt (tl ?rest) \<noteq> Some (CHR ''=''))"
  proof (cases ?rest)
    case Nil
    show ?thesis unfolding Nil by (simp split: option.splits)
  next
    case (Cons y t)
    then have y: "y = CHR ''=''" by (rule dropWhile_ne_hd)
    show ?thesis
    proof (cases "?pre = []")
      case True
      then show ?thesis unfolding q Cons y
        by (cases t) (simp_all add: headOpt_def)
    next
      case False
      then have "last ?pre \<noteq> CHR ''=''" by (rule last_takeWhile_ne)
      then show ?thesis unfolding q Cons y using False
        by (cases t) (auto simp: headOpt_def)
    qed
  qed
  finally show ?thesis by (simp only: Let_def)
qed

lemma isAssignment_eq: "isAssignment c = firstEqAssign c"
  unfolding isAssignment_def firstEqAssign_def test_assignPat Let_def by auto

lemma rmatch_needs_Chr:
  "rmatch re p r os cs = Some res \<Longrightarrow> Chr c \<in> set re \<Longrightarrow> c \<in> set r"
proof (induction re p r os cs rule: rmatch.induct)
  case (1 p r os cs)
  then show ?case by simp
next
  case (2 c' as p r os cs)
  then show ?case by (cases r) (auto split: if_splits)
next
  case (3 k as p r os cs)
  then show ?case by (cases r) (auto split: if_splits)
next
  case (4 k as p r os cs)
  from "4.prems"(1) have "firstSome (\<lambda>n. rmatch as (prevAfter n p r) (drop n r) os cs)
      (rev [0..<Suc (run k r)]) = Some res" by (simp only: rmatch.simps)
  from firstSome_SomeD[OF this] obtain n where
    m: "rmatch as (prevAfter n p r) (drop n r) os cs = Some res" by blast
  have "c \<in> set (drop n r)" using "4.IH"[OF m] "4.prems"(2) by simp
  then show ?case by (rule in_set_dropD)
next
  case (5 k as p r os cs)
  from "5.prems"(1) have "firstSome (\<lambda>n. rmatch as (prevAfter n p r) (drop n r) os cs)
      (rev [1..<Suc (run k r)]) = Some res" by (simp only: rmatch.simps)
  from firstSome_SomeD[OF this] obtain n where
    m: "rmatch as (prevAfter n p r) (drop n r) os cs = Some res" by blast
  have "c \<in> set (drop n r)" using "5.IH"[OF m] "5.prems"(2) by simp
  then show ?case by (rule in_set_dropD)
next
  case (6 k as p r os cs)
  from "6.prems"(1) have "firstSome (\<lambda>n. rmatch as (prevAfter n p r) (drop n r) os cs)
      [1..<Suc (run k r)] = Some res" by (simp only: rmatch.simps)
  from firstSome_SomeD[OF this] obtain n where
    m: "rmatch as (prevAfter n p r) (drop n r) os cs = Some res" by blast
  have "c \<in> set (drop n r)" using "6.IH"[OF m] "6.prems"(2) by simp
  then show ?case by (rule in_set_dropD)
next
  case (7 g as p r os cs)
  then show ?case by auto
next
  case (8 g as p r os cs)
  then show ?case by auto
next
  case (9 as p r os cs)
  then show ?case by (auto split: if_splits)
next
  case (10 as p r os cs)
  then show ?case by (auto split: if_splits)
next
  case (11 as p r os cs)
  then show ?case by (auto split: if_splits)
next
  case (12 k as p r os cs)
  then show ?case by (auto split: option.splits if_splits)
next
  case (13 k as p r os cs)
  then show ?case by (cases r) (auto split: if_splits)
qed

lemma match_needs_Chr:
  assumes "Chr c \<in> set re" "c \<notin> set s"
  shows "match s re = None"
proof (rule ccontr)
  assume "match s re \<noteq> None"
  then obtain m where "search re None s 0 = Some m" by (auto simp: match_def)
  from search_SomeD[OF this] obtain pre post where
    s: "s = pre @ post" and m: "rmatch re (lastOpt None pre) post [] [] = Some (m_after m, m_groups m)"
    by blast
  from rmatch_needs_Chr[OF m assms(1)] have "c \<in> set s" using s by simp
  with assms(2) show False by simp
qed

lemma trim_subset: "set (trim l) \<subseteq> set l"
proof -
  have "set (trimEnd s) \<subseteq> set s" for s
    unfolding trimEnd_def using set_dropWhileD[of _ isSpace "rev s"] by auto
  moreover have "set (trimStart s) \<subseteq> set s" for s
    unfolding trimStart_def using set_dropWhileD[of _ isSpace s] by auto
  ultimately show ?thesis unfolding trim_def by blast
qed

lemma resultLine_no_comment:
  assumes "CHR ''#'' \<notin> set line"
  shows "resultLine line = takeWhile isSpace line @ ''__pyx_result__ = '' @ trim line"
proof -
  have "CHR ''#'' \<notin> set (trim line)" using assms trim_subset by blast
  then have "match (trim line) commentPat = None"
    by (intro match_needs_Chr) (simp_all add: commentPat_def)
  then show ?thesis by (simp add: resultLine_def leadingSpace_eq)
qed

lemma resultLine_indent:
  "startsWith (resultLine line) (takeWhile isSpace line @ ''__pyx_result__ = '')"
  by (simp add: resultLine_def leadingSpace_eq startsWith_def Let_def split: option.splits)

text \<open>The backward loop.\<close>

lemma findLastExpr_skip:
  "\<forall>j. k \<le> j \<and> j < n \<longrightarrow> \<not> meaningful (ls ! j) \<Longrightarrow> k \<le> n \<Longrightarrow>
   findLastExpr ls n = findLastExpr ls k"
proof (induction n)
  case 0
  then show ?case by simp
next
  case (Suc n)
  show ?case
  proof (cases "k = Suc n")
    case True
    then show ?thesis by simp
  next
    case False
    then have kn: "k \<le> n" using Suc.prems(2) by simp
    then have "\<not> meaningful (ls ! n)" using Suc.prems(1) by simp
    then have "findLastExpr ls (Suc n) = findLastExpr ls n"
      by (auto simp: meaningful_def Let_def)
    then show ?thesis using Suc.IH kn Suc.prems(1) by simp
  qed
qed

lemma findLastExpr_at:
  "meaningful (ls ! k) \<Longrightarrow>
   findLastExpr ls (Suc k) =
     (if isStatement (codeOnlyOf (trim (ls ! k))) then None
      else if \<not> firstEqAssign (codeOnlyOf (trim (ls ! k))) then Some k else None)"
  by (simp add: meaningful_def Let_def isAssignment_eq)

lemma findLastExpr_last:
  assumes "k < length ls" "meaningful (ls ! k)"
    "\<forall>j. k < j \<and> j < length ls \<longrightarrow> \<not> meaningful (ls ! j)"
  shows "findLastExpr ls (length ls) =
     (if isStatement (codeOnlyOf (trim (ls ! k))) then None
      else if \<not> firstEqAssign (codeOnlyOf (trim (ls ! k))) then Some k else None)"
proof -
  have "findLastExpr ls (length ls) = findLastExpr ls (Suc k)"
    using assms(1,3) by (intro findLastExpr_skip) auto
  then show ?thesis using findLastExpr_at[OF assms(2)] by simp
qed

lemma findLastExpr_none:
  assumes "\<forall>l\<in>set ls. \<not> meaningful l"
  shows "findLastExpr ls (length ls) = None"
proof -
  have "findLastExpr ls (length ls) = findLastExpr ls 0"
    using assms by (intro findLastExpr_skip) auto
  then show ?thesis by simp
qed

lemma isStatement_beginsWithKeyword: "isStatement c \<Longrightarrow> beginsWithKeyword c"
proof -
  have ap: "\<And>a b. prefix (a @ b) c \<Longrightarrow> prefix a c" by (rule append_prefixD)
  assume "isStatement c"
  then show ?thesis
    unfolding isStatement_def beginsWithKeyword_def statementPrefixes_def specKeywords_def
      startsWith_def list_ex_iff
    using ap[of "''def''" "'' ''"] ap[of "''class''" "'' ''"] ap[of "''if''" "'' ''"]
      ap[of "''elif''" "'' ''"] ap[of "''for''" "'' ''"] ap[of "''while''" "'' ''"]
      ap[of "''with''" "'' ''"] ap[of "''return''" "'' ''"] ap[of "''raise''" "'' ''"]
      ap[of "''import''" "'' ''"] ap[of "''from''" "'' ''"]
    by (elim bexE) (simp, blast)
qed

lemma extractReturnValue_cases:
  "extractReturnValue code =
     (case findLastExpr (split (CHR 0x0A) code) (length (split (CHR 0x0A) code)) of
        None \<Rightarrow> code
      | Some k \<Rightarrow> join (CHR 0x0A)
          ((split (CHR 0x0A) code)[k := resultLine (split (CHR 0x0A) code ! k)]))"
  by (simp add: extractReturnValue_def Let_def)

text \<open>
  C3, as the code has it.  \<open>extractReturnValue\<close> scans backward past the lines that are
  blank or comment-only; when no line is meaningful the input is returned unchanged.
  Otherwise let \<open>c\<close> be the code part of the last meaningful line (trimmed, cut at the
  first \<open>#\<close>, trimmed again).
  \<^item> If \<open>c\<close> starts with one of the prefixes of \<open>statementPrefixes\<close> (the keywords, most
    of them followed by a space), or \<open>c\<close> has neither \<open>==\<close> nor \<open>lambda\<close> and its first
    \<open>=\<close> has none of \<open>!\<close>, \<open><\<close>, \<open>>\<close> before it and no \<open>=\<close> after it, the input is
    returned unchanged.
  \<^item> If \<open>c\<close> begins with none of the listed keywords and is no assignment in that
    sense, only that line is replaced; the new line is the original leading white space,
    then \<open>__pyx_result__ = \<close>, then (for a line without \<open>#\<close>) the trimmed line.
  A line with \<open>==\<close>, or whose first \<open>=\<close> belongs to \<open>!=\<close>, \<open><=\<close> or \<open>>=\<close>, is thus
  never taken for an assignment.
\<close>

theorem C3_extractReturnValue:
  "(let ls = split (CHR 0x0A) code in
     ((\<forall>l\<in>set ls. \<not> meaningful l) \<longrightarrow> extractReturnValue code = code)
   \<and> (\<forall>k<length ls.
        meaningful (ls ! k) \<and> (\<forall>j. k < j \<and> j < length ls \<longrightarrow> \<not> meaningful (ls ! j)) \<longrightarrow>
        (let c = codeOnlyOf (trim (ls ! k)) in
           (isStatement c \<or> firstEqAssign c \<longrightarrow> extractReturnValue code = code)
         \<and> (\<not> beginsWithKeyword c \<and> \<not> firstEqAssign c \<longrightarrow>
               extractReturnValue code = join (CHR 0x0A) (ls[k := resultLine (ls ! k)])
             \<and> startsWith (resultLine (ls ! k))
                  (takeWhile isSpace (ls ! k) @ ''__pyx_result__ = '')
             \<and> (CHR ''#'' \<notin> set (ls ! k) \<longrightarrow>
                  resultLine (ls ! k)
                    = takeWhile isSpace (ls ! k) @ ''__pyx_result__ = '' @ trim (ls ! k))))))"
proof -
  let ?ls = "split (CHR 0x0A) code"
  have A: "(\<forall>l\<in>set ?ls. \<not> meaningful l) \<longrightarrow> extractReturnValue code = code"
    by (simp add: extractReturnValue_cases findLastExpr_none)
  have B: "(isStatement (codeOnlyOf (trim (?ls ! k))) \<or> firstEqAssign (codeOnlyOf (trim (?ls ! k)))
              \<longrightarrow> extractReturnValue code = code)
         \<and> (\<not> beginsWithKeyword (codeOnlyOf (trim (?ls ! k)))
              \<and> \<not> firstEqAssign (codeOnlyOf (trim (?ls ! k))) \<longrightarrow>
               extractReturnValue code = join (CHR 0x0A) (?ls[k := resultLine (?ls ! k)])
             \<and> startsWith (resultLine (?ls ! k))
                  (takeWhile isSpace (?ls ! k) @ ''__pyx_result__ = '')
             \<and> (CHR ''#'' \<notin> set (?ls ! k) \<longrightarrow>
                  resultLine (?ls ! k)
                    = takeWhile isSpace (?ls ! k) @ ''__pyx_result__ = '' @ trim (?ls ! k)))"
    if k: "k < length ?ls" "meaningful (?ls ! k)"
      "\<forall>j. k < j \<and> j < length ?ls \<longrightarrow> \<not> meaningful (?ls ! j)" for k
  proof -
    note f = findLastExpr_last[OF k]
    show ?thesis
      using isStatement_beginsWithKeyword[of "codeOnlyOf (trim (?ls ! k))"]
        resultLine_indent[of "?ls ! k"] resultLine_no_comment[of "?ls ! k"]
      by (auto simp: extractReturnValue_cases f)
  qed
  show ?thesis unfolding Let_def using A B by blast
qed

lemma extract_example_split:
  "split (CHR 0x0A) ''x = 5\<newline>y = 10\<newline>x + y'' = [''x = 5'', ''y = 10'', ''x + y'']"
  "split (CHR 0x0A) ''x = 5\<newline>y = 10\<newline>z = x + y'' = [''x = 5'', ''y = 10'', ''z = x + y'']"
  by code_simp+

lemma extract_example_facts:
  "meaningful ''x + y''" "\<not> beginsWithKeyword (codeOnlyOf (trim ''x + y''))"
  "\<not> firstEqAssign (codeOnlyOf (trim ''x + y''))"
  "resultLine ''x + y'' = ''__pyx_result__ = x + y''"
  "meaningful ''z = x + y''" "firstEqAssign (codeOnlyOf (trim ''z = x + y''))"
  by code_simp+

theorem C3_extractReturnValue_witness:
  "extractReturnValue ''x = 5\<newline>y = 10\<newline>x + y'' = ''x = 5\<newline>y = 10\<newline>__pyx_result__ = x + y''
   \<and> extractReturnValue ''x = 5\<newline>y = 10\<newline>z = x + y'' = ''x = 5\<newline>y = 10\<newline>z = x + y''"
proof
  let ?ls = "[''x = 5'', ''y = 10'', ''x + y'']"
  note T = C3_extractReturnValue[of "''x = 5\<newline>y = 10\<newline>x + y''",
      unfolded Let_def extract_example_split, THEN conjunct2, rule_format, of 2]
  have p1: "2 < length ?ls" by simp
  have p2: "meaningful (?ls ! 2) \<and> (\<forall>j. 2 < j \<and> j < length ?ls \<longrightarrow> \<not> meaningful (?ls ! j))"
    using extract_example_facts by auto
  have p3: "\<not> beginsWithKeyword (codeOnlyOf (trim (?ls ! 2)))
      \<and> \<not> firstEqAssign (codeOnlyOf (trim (?ls ! 2)))"
    using extract_example_facts by simp
  from T[OF p1 p2, THEN conjunct2, rule_format, OF p3, THEN conjunct1]
  show "extractReturnValue ''x = 5\<newline>y = 10\<newline>x + y'' = ''x = 5\<newline>y = 10\<newline>__pyx_result__ = x + y''"
    using extract_example_facts by simp
next
  let ?ls = "[''x = 5'', ''y = 10'', ''z = x + y'']"
  note T = C3_extractReturnValue[of "''x = 5\<newline>y = 10\<newline>z = x + y''",
      unfolded Let_def extract_example_split, THEN conjunct2, rule_format, of 2]
  have p1: "2 < length ?ls" by simp
  have p2: "meaningful (?ls ! 2) \<and> (\<forall>j. 2 < j \<and> j < length ?ls \<longrightarrow> \<not> meaningful (?ls ! j))"
    using extract_example_facts by auto
  have p3: "isStatement (codeOnlyOf (trim (?ls ! 2))) \<or> firstEqAssign (codeOnlyOf (trim (?ls ! 2)))"
    using extract_example_facts by simp
  from T[OF p1 p2, THEN conjunct1, rule_format, OF p3]
  show "extractReturnValue ''x = 5\<newline>y = 10\<newline>z = x + y'' = ''x = 5\<newline>y = 10\<newline>z = x + y''" .
qed

lemma extract_assignment_of_comparison:
  "extractReturnValue ''x = a == b'' = ''__pyx_result__ = x = a == b''"
  "specIsAssignment (codeOnlyOf (trim ''x = a == b''))"
  "split (CHR 0x0A) ''x = a == b'' = [''x = a == b'']"
  "meaningful ''x = a == b''"
  by code_simp+

text \<open>
  C3 as stated fails.  The one-line source \<open>x = a == b\<close> is an assignment in the words of
  the specification (its first \<open>=\<close> is not part of \<open>==\<close>), yet the code does not return it
  unchanged: the guard \<open>!codeOnly.includes('==')\<close> makes it an expression.
\<close>

theorem C3_assignment_rewritten:
  "split (CHR 0x0A) ''x = a == b'' = [''x = a == b'']
   \<and> meaningful ''x = a == b''
   \<and> specIsAssignment (codeOnlyOf (trim ''x = a == b''))
   \<and> extractReturnValue ''x = a == b'' \<noteq> ''x = a == b''"
  using extract_assignment_of_comparison by simp

section \<open>Well-formed results\<close>

lemma okR_Inl: "okR P (Inl e)"
  by (simp add: okR_def)

lemma okR_True: "okR (\<lambda>x. True) r"
  by (simp add: okR_def split: sum.split)

lemma okR_returnP: "P x \<Longrightarrow> okR P (returnP x p)"
  by (simp add: okR_def returnP_def)

lemma okR_throwP: "okR P (throwP e p)"
  by (simp add: okR_def throwP_def)

lemma okR_bindP:
  assumes "\<And>q. okR Q (m q)" and "\<And>x q. Q x \<Longrightarrow> okR P (f x q)"
  shows "okR P (bindP m f p)"
proof (cases "m p")
  case (Inl e)
  then show ?thesis by (simp add: bindP_def okR_def)
next
  case (Inr r)
  obtain x q where r: "r = (x, q)" by (cases r)
  have "Q x" using assms(1) [of p] Inr r by (simp add: okR_def)
  then show ?thesis using assms(2) [of x q] Inr r by (simp add: bindP_def)
qed

lemma okR_bindP_any:
  assumes "\<And>x q. okR P (f x q)"
  shows "okR P (bindP m f p)"
  by (rule okR_bindP [where Q = "\<lambda>x. True"]) (simp_all add: okR_True assms)

lemma okR_thenP:
  assumes "\<And>q. okR P (k q)"
  shows "okR P (thenP m k p)"
  using assms by (simp add: thenP_def okR_Inl split: sum.split prod.split)

lemma okR_ifP: "okR P (a p) \<Longrightarrow> okR P (b p) \<Longrightarrow> okR P (ifP c a b p)"
  by (simp add: ifP_def)

lemma okR_if: "(c \<Longrightarrow> okR P x) \<Longrightarrow> (\<not> c \<Longrightarrow> okR P y) \<Longrightarrow> okR P (if c then x else y)"
  by simp

lemma okR_if_app:
  "(c \<Longrightarrow> okR P (a q)) \<Longrightarrow> (\<not> c \<Longrightarrow> okR P (b q)) \<Longrightarrow> okR P ((if c then a else b) q)"
  by simp

lemma okR_Let: "okR P (f x) \<Longrightarrow> okR P (Let x f)"
  by simp

lemma okR_Let_app: "okR P (f x q) \<Longrightarrow> okR P (Let x f q)"
  by simp

lemma okR_case_prod:
  "(\<And>a b. x = (a, b) \<Longrightarrow> okR P (f a b)) \<Longrightarrow> okR P (case x of (a, b) \<Rightarrow> f a b)"
  by (simp split: prod.split)

lemma okR_case_prod_app:
  "(\<And>a b. x = (a, b) \<Longrightarrow> okR P (f a b q)) \<Longrightarrow> okR P ((case x of (a, b) \<Rightarrow> f a b) q)"
  by (simp split: prod.split)

lemma okR_case_option:
  "(x = None \<Longrightarrow> okR P a) \<Longrightarrow> (\<And>y. x = Some y \<Longrightarrow> okR P (b y))
   \<Longrightarrow> okR P (case x of None \<Rightarrow> a | Some y \<Rightarrow> b y)"
  by (simp split: option.split)

lemma okR_case_option_app:
  "(x = None \<Longrightarrow> okR P (a q)) \<Longrightarrow> (\<And>y. x = Some y \<Longrightarrow> okR P (b y q))
   \<Longrightarrow> okR P ((case x of None \<Rightarrow> a | Some y \<Rightarrow> b y) q)"
  by (simp split: option.split)

lemma okR_optional:
  assumes "\<And>q. okR Q (m q)"
  shows "okR (pred_option Q) (optional m p)"
  unfolding optional_def
  by (rule okR_bindP [where Q = Q]) (simp_all add: assms okR_returnP)

lemma okE_D: "okE rec \<Longrightarrow> okR exprOk (rec c p)"
  by (simp add: okE_def)

text \<open>The bind rule at each type of result, with the predicate of that type.\<close>

lemmas okR_bind_expr = okR_bindP [where Q = exprOk]
lemmas okR_bind_expr_option = okR_bindP [where Q = "pred_option exprOk"]
lemmas okR_bind_expr_list = okR_bindP [where Q = "list_all exprOk"]
lemmas okR_bind_arguments = okR_bindP [where Q = argumentsOk]
lemmas okR_bind_comprehensions = okR_bindP [where Q = "list_all comprehensionOk"]
lemmas okR_bind_call =
  okR_bindP [where Q = "\<lambda>r. list_all exprOk (fst r) \<and> list_all keywordOk (snd r)"]
lemmas okR_bind_dict =
  okR_bindP [where Q = "\<lambda>r. list_all (pred_option exprOk) (fst r) \<and> list_all exprOk (snd r)"]
lemmas okR_bind_compare =
  okR_bindP
    [where Q = "\<lambda>r::cmpop list \<times> expr list. length (fst r) = length (snd r) \<and> list_all exprOk (snd r)"]
lemmas okR_bind_fstring = okR_bindP [where Q = "\<lambda>r::nat \<times> expr list. list_all exprOk (snd r)"]
lemmas okR_bind_token = okR_bindP_any [where 'a = Token]
lemmas okR_bind_string = okR_bindP_any [where 'a = string]
lemmas okR_bind_string_option = okR_bindP_any [where 'a = "string option"]
lemmas okR_bind_string_list = okR_bindP_any [where 'a = "string list"]
lemmas okR_bind_bool = okR_bindP_any [where 'a = bool]
lemmas okR_bind_nat = okR_bindP_any [where 'a = nat]
lemmas okR_bind_cmpop = okR_bindP_any [where 'a = "cmpop option"]
lemmas okR_bind_alias = okR_bindP_any [where 'a = alias_node]
lemmas okR_bind_aliases = okR_bindP_any [where 'a = "alias_node list"]

lemmas ok_basic =
  okR_bind_expr okR_bind_expr_option okR_bind_expr_list okR_bind_arguments
  okR_bind_comprehensions okR_bind_call okR_bind_dict okR_bind_compare okR_bind_fstring
  okR_bind_token okR_bind_string okR_bind_string_option okR_bind_string_list okR_bind_bool
  okR_bind_nat okR_bind_cmpop okR_bind_alias okR_bind_aliases
  okR_thenP okR_ifP okR_returnP okR_throwP okR_Inl okR_optional
  okR_if okR_if_app okR_Let okR_Let_app okR_case_prod okR_case_prod_app
  okR_case_option okR_case_option_app

subsection \<open>The shared loops\<close>

lemma commaLoop_ok:
  assumes "\<And>q. okR Q (item q)"
  shows "list_all Q elts \<Longrightarrow> okR (list_all Q) (commaLoop stop item k elts p)"
proof (induction k arbitrary: elts p)
  case 0
  show ?case by (simp add: okR_Inl)
next
  case (Suc k)
  show ?case
    unfolding commaLoop.simps
    by (intro okR_if okR_thenP okR_ifP okR_returnP okR_bindP [where Q = Q] assms Suc.IH)
       (simp_all add: Suc.prems)
qed

lemma untilClose_ok:
  assumes "\<And>q. okR Q (item q)"
  shows "list_all Q elts \<Longrightarrow> okR (list_all Q) (untilClose close item k elts p)"
proof (induction k arbitrary: elts p)
  case 0
  show ?case by (simp add: okR_Inl)
next
  case (Suc k)
  show ?case
    unfolding untilClose.simps
    by (intro okR_if okR_thenP okR_ifP okR_returnP okR_bindP [where Q = Q] assms Suc.IH)
       (simp_all add: Suc.prems)
qed

lemma doWhileComma_ok:
  assumes "\<And>q. okR Q (item q)"
  shows "list_all Q xs \<Longrightarrow> okR (list_all Q) (doWhileComma item k xs p)"
proof (induction k arbitrary: xs p)
  case 0
  show ?case by (simp add: okR_Inl)
next
  case (Suc k)
  show ?case
    unfolding doWhileComma.simps
    by (intro okR_if okR_thenP okR_ifP okR_returnP okR_bindP [where Q = Q] assms Suc.IH)
       (simp_all add: Suc.prems)
qed

lemma keywordLoop_ok:
  assumes "\<And>q. okR Q (item q)"
  shows "list_all Q elts \<Longrightarrow> okR (list_all Q) (keywordLoop kw item k elts p)"
proof (induction k arbitrary: elts p)
  case 0
  show ?case by (simp add: okR_Inl)
next
  case (Suc k)
  show ?case
    unfolding keywordLoop.simps
    by (intro okR_if okR_thenP okR_ifP okR_returnP okR_bindP [where Q = Q] assms Suc.IH)
       (simp_all add: Suc.prems)
qed

lemma binaryLoop_ok:
  assumes "\<And>q. okR exprOk (item q)"
  shows "exprOk left \<Longrightarrow> okR exprOk (binaryLoop opOf item k left p)"
proof (induction k arbitrary: left p)
  case 0
  show ?case by (simp add: okR_Inl)
next
  case (Suc k)
  show ?case
    unfolding binaryLoop.simps
    by (intro okR_case_option okR_thenP okR_returnP okR_bind_expr assms Suc.IH)
       (simp_all add: Suc.prems)
qed

lemmas ok_loops = commaLoop_ok untilClose_ok doWhileComma_ok keywordLoop_ok binaryLoop_ok

lemmas ok_intro = ok_basic ok_loops

subsection \<open>Expressions\<close>

lemma parseSliceItem_ok:
  assumes "okE rec"
  shows "okR exprOk (parseSliceItem rec p)"
  unfolding parseSliceItem_def
  by (intro ok_intro assms okE_D [OF assms(1)] )
     (simp_all add: Let_def assms )?

lemma parseSubscriptSlice_ok:
  assumes "okE rec"
  shows "okR exprOk (parseSubscriptSlice rec n p)"
  unfolding parseSubscriptSlice_def
  by (intro ok_intro assms okE_D [OF assms(1)] parseSliceItem_ok)
     (simp_all add: Let_def assms )?

lemma parseSubscript_ok:
  assumes "okE rec" and "exprOk v"
  shows "okR exprOk (parseSubscript rec n v p)"
  unfolding parseSubscript_def
  by (intro ok_intro assms okE_D [OF assms(1)] parseSubscriptSlice_ok)
     (simp_all add: Let_def assms )?

lemma parseCall_loop_ok:
  assumes "okE rec"
  shows "list_all exprOk args
         \<Longrightarrow> list_all keywordOk kws
         \<Longrightarrow> okR (\<lambda>r. list_all exprOk (fst r) \<and> list_all keywordOk (snd r))
               (parseCall_loop rec k args kws p)"
proof (induction k arbitrary: args kws p)
  case 0
  show ?case by (simp add: okR_Inl)
next
  case (Suc k)
  show ?case
    unfolding parseCall_loop.simps
    by (intro ok_intro assms okE_D [OF assms(1)]  Suc.IH)
       (simp_all add: Let_def assms Suc.prems )?
qed

lemma parseCall_ok:
  assumes "okE rec" and "exprOk func"
  shows "okR exprOk (parseCall rec n func p)"
  unfolding parseCall_def
  by (intro ok_intro assms okE_D [OF assms(1)] parseCall_loop_ok)
     (simp_all add: Let_def assms )?

lemma parseLambdaArgs_loop_ok:
  assumes "okE rec"
  shows "list_all argOk args
         \<Longrightarrow> list_all exprOk defaults
         \<Longrightarrow> list_all argOk kwonlyargs
         \<Longrightarrow> list_all (pred_option exprOk) kwDefaults
         \<Longrightarrow> pred_option argOk vararg
         \<Longrightarrow> pred_option argOk kwarg
         \<Longrightarrow> okR argumentsOk
               (parseLambdaArgs_loop rec k args defaults kwonlyargs kwDefaults vararg kwarg seenStar p)"
proof (induction k arbitrary: args defaults kwonlyargs kwDefaults vararg kwarg seenStar p)
  case 0
  show ?case by (simp add: okR_Inl)
next
  case (Suc k)
  show ?case
    unfolding parseLambdaArgs_loop.simps
    by (intro ok_intro assms okE_D [OF assms(1)]  Suc.IH)
       (simp_all add: Let_def assms Suc.prems )?
qed

lemma parseLambdaArgs_ok:
  assumes "okE rec"
  shows "okR argumentsOk (parseLambdaArgs rec n p)"
  unfolding parseLambdaArgs_def
  by (intro ok_intro assms okE_D [OF assms(1)] parseLambdaArgs_loop_ok)
     (simp_all add: Let_def assms )?

lemma parseLambda_ok:
  assumes "okE rec"
  shows "okR exprOk (parseLambda rec n p)"
  unfolding parseLambda_def
  by (intro ok_intro assms okE_D [OF assms(1)] parseLambdaArgs_ok)
     (simp_all add: Let_def assms )?

lemma parseTarget_loop_ok:
  assumes "okE rec"
  shows "exprOk target
         \<Longrightarrow> okR exprOk
               (parseTarget_loop rec n k target p)"
proof (induction k arbitrary: target p)
  case 0
  show ?case by (simp add: okR_Inl)
next
  case (Suc k)
  show ?case
    unfolding parseTarget_loop.simps
    by (intro ok_intro assms okE_D [OF assms(1)] parseSubscriptSlice_ok Suc.IH)
       (simp_all add: Let_def assms Suc.prems )?
qed

lemma parseTarget_ok:
  assumes "okE rec"
  shows "okR exprOk (parseTarget rec n p)"
  unfolding parseTarget_def
  by (intro ok_intro assms okE_D [OF assms(1)] parseTarget_loop_ok)
     (simp_all add: Let_def assms )?

lemma parseTargetList_ok:
  assumes "okE rec"
  shows "okR exprOk (parseTargetList rec n p)"
  unfolding parseTargetList_def
  by (intro ok_intro assms okE_D [OF assms(1)] parseTarget_ok)
     (simp_all add: Let_def assms )?

lemma parseComprehensionClauses_loop_ok:
  assumes "okE rec"
  shows "list_all comprehensionOk generators
         \<Longrightarrow> okR (list_all comprehensionOk)
               (parseComprehensionClauses_loop rec n k generators p)"
proof (induction k arbitrary: generators p)
  case 0
  show ?case by (simp add: okR_Inl)
next
  case (Suc k)
  show ?case
    unfolding parseComprehensionClauses_loop.simps
    by (intro ok_intro assms okE_D [OF assms(1)] parseTargetList_ok Suc.IH)
       (simp_all add: Let_def assms Suc.prems )?
qed

lemma parseComprehensionClauses_ok:
  assumes "okE rec"
  shows "okR (list_all comprehensionOk) (parseComprehensionClauses rec n p)"
  unfolding parseComprehensionClauses_def
  by (intro ok_intro assms okE_D [OF assms(1)] parseComprehensionClauses_loop_ok)
     (simp_all add: Let_def assms )?

lemma parseDictOrSet_loop_ok:
  assumes "okE rec"
  shows "list_all (pred_option exprOk) keys
         \<Longrightarrow> list_all exprOk vals
         \<Longrightarrow> okR (\<lambda>r. list_all (pred_option exprOk) (fst r) \<and> list_all exprOk (snd r))
               (parseDictOrSet_loop rec k keys vals p)"
proof (induction k arbitrary: keys vals p)
  case 0
  show ?case by (simp add: okR_Inl)
next
  case (Suc k)
  show ?case
    unfolding parseDictOrSet_loop.simps
    by (intro ok_intro assms okE_D [OF assms(1)]  Suc.IH)
       (simp_all add: Let_def assms Suc.prems )?
qed

lemma parseDictOrSet_ok:
  assumes "okE rec"
  shows "okR exprOk (parseDictOrSet rec n p)"
  unfolding parseDictOrSet_def
  by (intro ok_intro assms okE_D [OF assms(1)] parseDictOrSet_loop_ok parseComprehensionClauses_ok)
     (simp_all add: Let_def assms )?

lemma parseNested_ok:
  assumes "okE rec"
  shows "okR exprOk (parseNested rec exprStr p)"
proof (cases "newParser exprStr")
  case (Inl e)
  then show ?thesis by (simp add: parseNested_def okR_Inl)
next
  case (Inr q)
  show ?thesis
    using okE_D [OF assms, of CExpr q] Inr
    by (auto simp: parseNested_def okR_def split: sum.split prod.split)
qed

lemma formatSpecNode_ok: "pred_option exprOk (formatSpecNode formatSpec)"
  by (simp add: formatSpecNode_def split: option.split)

lemma parseFStringValue_loop_ok:
  assumes "okE rec"
  shows "list_all exprOk vals
         \<Longrightarrow> okR (\<lambda>r. list_all exprOk (snd r))
               (parseFStringValue_loop rec str k i textStart vals p)"
proof (induction k arbitrary: i textStart vals p)
  case 0
  show ?case by (simp add: okR_Inl)
next
  case (Suc k)
  show ?case
    unfolding parseFStringValue_loop.simps
    by (intro ok_intro assms okE_D [OF assms(1)] parseNested_ok Suc.IH)
       (simp_all add: Let_def assms Suc.prems formatSpecNode_ok)?
qed

lemma parseFStringValue_ok:
  assumes "okE rec"
  shows "okR exprOk (parseFStringValue rec n raw p)"
  unfolding parseFStringValue_def
  by (intro ok_intro assms okE_D [OF assms(1)] parseFStringValue_loop_ok)
     (simp_all add: Let_def assms )?

lemma parseStringLiteral_ok:
  assumes "okE rec"
  shows "okR exprOk (parseStringLiteral rec n p)"
  unfolding parseStringLiteral_def
  by (intro ok_intro assms okE_D [OF assms(1)] parseFStringValue_ok)
     (simp_all add: Let_def assms )?

lemma parsePrimary_ok:
  assumes "okE rec"
  shows "okR exprOk (parsePrimary rec n p)"
  unfolding parsePrimary_def
  by (intro ok_intro assms okE_D [OF assms(1)] parseLambda_ok parseComprehensionClauses_ok parseDictOrSet_ok parseStringLiteral_ok)
     (simp_all add: Let_def assms )?

lemma parseAtom_loop_ok:
  assumes "okE rec"
  shows "exprOk atom
         \<Longrightarrow> okR exprOk
               (parseAtom_loop rec n k atom p)"
proof (induction k arbitrary: atom p)
  case 0
  show ?case by (simp add: okR_Inl)
next
  case (Suc k)
  show ?case
    unfolding parseAtom_loop.simps
    by (intro ok_intro assms okE_D [OF assms(1)] parseCall_ok parseSubscript_ok Suc.IH)
       (simp_all add: Let_def assms Suc.prems )?
qed

lemma parseAtom_ok:
  assumes "okE rec"
  shows "okR exprOk (parseAtom rec n p)"
  unfolding parseAtom_def
  by (intro ok_intro assms okE_D [OF assms(1)] parsePrimary_ok parseAtom_loop_ok)
     (simp_all add: Let_def assms )?

lemma parseAwait_ok:
  assumes "okE rec"
  shows "okR exprOk (parseAwait rec n p)"
  unfolding parseAwait_def
  by (intro ok_intro assms okE_D [OF assms(1)] parsePrimary_ok parseAtom_ok)
     (simp_all add: Let_def assms )?

lemma parsePower_ok:
  assumes "okE rec"
  shows "okR exprOk (parsePower rec n p)"
  unfolding parsePower_def
  by (intro ok_intro assms okE_D [OF assms(1)] parseAwait_ok)
     (simp_all add: Let_def assms )?

lemma parseFactor_ok:
  assumes "okE rec"
  shows "okR exprOk (parseFactor rec n p)"
  unfolding parseFactor_def
  by (intro ok_intro assms okE_D [OF assms(1)] parsePower_ok)
     (simp_all add: Let_def assms )?

lemma parseTerm_ok:
  assumes "okE rec"
  shows "okR exprOk (parseTerm rec n p)"
  unfolding parseTerm_def
  by (intro ok_intro assms okE_D [OF assms(1)] parseFactor_ok)
     (simp_all add: Let_def assms )?

lemma parseArith_ok:
  assumes "okE rec"
  shows "okR exprOk (parseArith rec n p)"
  unfolding parseArith_def
  by (intro ok_intro assms okE_D [OF assms(1)] parseTerm_ok)
     (simp_all add: Let_def assms )?

lemma parseShift_ok:
  assumes "okE rec"
  shows "okR exprOk (parseShift rec n p)"
  unfolding parseShift_def
  by (intro ok_intro assms okE_D [OF assms(1)] parseArith_ok)
     (simp_all add: Let_def assms )?

lemma parseBitAnd_ok:
  assumes "okE rec"
  shows "okR exprOk (parseBitAnd rec n p)"
  unfolding parseBitAnd_def
  by (intro ok_intro assms okE_D [OF assms(1)] parseShift_ok)
     (simp_all add: Let_def assms )?

lemma parseBitXor_ok:
  assumes "okE rec"
  shows "okR exprOk (parseBitXor rec n p)"
  unfolding parseBitXor_def
  by (intro ok_intro assms okE_D [OF assms(1)] parseBitAnd_ok)
     (simp_all add: Let_def assms )?

lemma parseBitOr_ok:
  assumes "okE rec"
  shows "okR exprOk (parseBitOr rec n p)"
  unfolding parseBitOr_def
  by (intro ok_intro assms okE_D [OF assms(1)] parseBitXor_ok)
     (simp_all add: Let_def assms )?

lemma parseComparison_loop_ok:
  assumes "okE rec"
  shows "length ops = length comparators
         \<Longrightarrow> list_all exprOk comparators
         \<Longrightarrow> okR (\<lambda>r. length (fst r) = length (snd r) \<and> list_all exprOk (snd r))
               (parseComparison_loop rec n k ops comparators p)"
proof (induction k arbitrary: ops comparators p)
  case 0
  show ?case by (simp add: okR_Inl)
next
  case (Suc k)
  show ?case
    unfolding parseComparison_loop.simps
    by (intro ok_intro assms okE_D [OF assms(1)] parseBitOr_ok Suc.IH)
       (simp_all add: Let_def assms Suc.prems )?
qed

lemma parseComparison_ok:
  assumes "okE rec"
  shows "okR exprOk (parseComparison rec n p)"
  unfolding parseComparison_def
  by (intro ok_intro assms okE_D [OF assms(1)] parseBitOr_ok parseComparison_loop_ok)
     (simp_all add: Let_def assms Suc_le_eq)?

lemma parseNotTest_ok:
  assumes "okE rec"
  shows "okR exprOk (parseNotTest rec n p)"
  unfolding parseNotTest_def
  by (intro ok_intro assms okE_D [OF assms(1)] parseComparison_ok)
     (simp_all add: Let_def assms )?

lemma parseAndTest_ok:
  assumes "okE rec"
  shows "okR exprOk (parseAndTest rec n p)"
  unfolding parseAndTest_def
  by (intro ok_intro assms okE_D [OF assms(1)] parseNotTest_ok)
     (simp_all add: Let_def assms )?

lemma parseOrTest_ok:
  assumes "okE rec"
  shows "okR exprOk (parseOrTest rec n p)"
  unfolding parseOrTest_def
  by (intro ok_intro assms okE_D [OF assms(1)] parseAndTest_ok)
     (simp_all add: Let_def assms )?

lemma parseNot_ok:
  assumes "okE rec"
  shows "okR exprOk (parseNot rec n p)"
  unfolding parseNot_def
  by (intro ok_intro assms okE_D [OF assms(1)] parseComparison_ok)
     (simp_all add: Let_def assms )?

lemma parseAnd_ok:
  assumes "okE rec"
  shows "okR exprOk (parseAnd rec n p)"
  unfolding parseAnd_def
  by (intro ok_intro assms okE_D [OF assms(1)] parseNot_ok)
     (simp_all add: Let_def assms )?

lemma parseOr_ok:
  assumes "okE rec"
  shows "okR exprOk (parseOr rec n p)"
  unfolding parseOr_def
  by (intro ok_intro assms okE_D [OF assms(1)] parseAnd_ok)
     (simp_all add: Let_def assms )?

lemma parseTernary_ok:
  assumes "okE rec"
  shows "okR exprOk (parseTernary rec n p)"
  unfolding parseTernary_def
  by (intro ok_intro assms okE_D [OF assms(1)] parseOr_ok)
     (simp_all add: Let_def assms )?

lemma parseNamedExpr_ok:
  assumes "okE rec"
  shows "okR exprOk (parseNamedExpr rec n p)"
  unfolding parseNamedExpr_def
  by (intro ok_intro assms okE_D [OF assms(1)] parseTernary_ok)
     (simp_all add: Let_def assms )?

lemma parseExpr_ok:
  assumes "okE rec"
  shows "okR exprOk (parseExpr rec n p)"
  unfolding parseExpr_def
  by (intro ok_intro assms okE_D [OF assms(1)] parseNamedExpr_ok)
     (simp_all add: Let_def assms )?

lemma runExpr_ok: "okE (runExpr n)"
proof (induction n)
  case 0
  show ?case by (simp add: okE_def okR_Inl)
next
  case (Suc n)
  show ?case
    unfolding okE_def
  proof (intro allI)
    fix c p
    show "okR exprOk (runExpr (Suc n) c p)"
      using Suc
      by (cases c)
         (simp_all add: parseExpr_ok parseTernary_ok parseNot_ok parseNotTest_ok parseOrTest_ok
            parseFactor_ok parseTarget_ok)
  qed
qed

section \<open>The parser\<close>

subsection \<open>Chained comparison\<close>

text \<open>
  C4.  \<open>parseExpression\<close> applied to \<open>a < b <= c\<close> returns the \<open>Compare\<close> node with left
  operand \<open>Name a\<close>, operators \<open>[Lt, LtE]\<close> and comparators \<open>[Name b, Name c]\<close>, in
  this order.  The parser returns it with any fuel of 4 units or more: it does not run
  out of fuel on this input.
\<close>

theorem C4_chained_comparison:
  "parseExpression (4 + n) ''a < b <= c''
     = Inr (Compare (Name ''a'') [Lt, LtE] [Name ''b'', Name ''c''])"
  by code_simp

subsection \<open>Statements\<close>

text \<open>The bind rule at the types of the results of the statement methods.\<close>

lemmas okR_bind_stmt = okR_bindP [where Q = stmtOk]
lemmas okR_bind_stmt_option = okR_bindP [where Q = "pred_option stmtOk"]
lemmas okR_bind_stmt_list = okR_bindP [where Q = "list_all stmtOk"]
lemmas okR_bind_pattern = okR_bindP [where Q = patternOk]
lemmas okR_bind_pattern_list = okR_bindP [where Q = "list_all patternOk"]
lemmas okR_bind_mapping =
  okR_bindP
    [where Q = "\<lambda>r::expr list \<times> pattern list \<times> string option.
                  list_all exprOk (fst r) \<and> list_all patternOk (fst (snd r))"]
lemmas okR_bind_class_pattern =
  okR_bindP
    [where Q = "\<lambda>r::pattern list \<times> string list \<times> pattern list.
                  list_all patternOk (fst r) \<and> list_all patternOk (snd (snd r))"]
lemmas okR_bind_match_case = okR_bindP [where Q = matchCaseOk]
lemmas okR_bind_match_cases = okR_bindP [where Q = "list_all matchCaseOk"]
lemmas okR_bind_handler = okR_bindP [where Q = handlerOk]
lemmas okR_bind_handlers = okR_bindP [where Q = "list_all handlerOk"]
lemmas okR_bind_withitem = okR_bindP [where Q = withitemOk]
lemmas okR_bind_withitems = okR_bindP [where Q = "list_all withitemOk"]
lemmas okR_bind_type_params = okR_bindP [where Q = "list_all typeParamOk"]
lemmas okR_bind_except =
  okR_bindP [where Q = "\<lambda>r::expr option \<times> string option. pred_option exprOk (fst r)"]

lemmas ok_stmt =
  okR_bind_stmt okR_bind_stmt_option okR_bind_stmt_list okR_bind_pattern okR_bind_pattern_list
  okR_bind_mapping okR_bind_class_pattern okR_bind_match_case okR_bind_match_cases
  okR_bind_handler okR_bind_handlers okR_bind_withitem okR_bind_withitems okR_bind_type_params
  okR_bind_except

lemma push_ok: "list_all P body \<Longrightarrow> pred_option P stmt \<Longrightarrow> list_all P (push body stmt)"
  by (cases stmt) (simp_all add: push_def)

lemma parseImport_ok: "okR stmtOk (parseImport n p)"
  unfolding parseImport_def
  by (intro ok_intro) simp_all

lemma parseFromImport_ok: "okR stmtOk (parseFromImport n p)"
  unfolding parseFromImport_def
  by (intro ok_intro) simp_all

lemma parseGlobal_ok: "okR stmtOk (parseGlobal n p)"
  unfolding parseGlobal_def
  by (intro ok_intro) simp_all

lemma parseNonlocal_ok: "okR stmtOk (parseNonlocal n p)"
  unfolding parseNonlocal_def
  by (intro ok_intro) simp_all

lemma parseTypeParams_loop_ok:
  "list_all typeParamOk params \<Longrightarrow> okR (list_all typeParamOk) (parseTypeParams_loop k params p)"
proof (induction k arbitrary: params p)
  case 0
  show ?case by (simp add: okR_Inl)
next
  case (Suc k)
  show ?case
    unfolding parseTypeParams_loop.simps
    by (intro ok_intro Suc.IH) (simp_all add: Suc.prems)
qed

lemma parseTypeParams_ok: "okR (list_all typeParamOk) (parseTypeParams n p)"
  unfolding parseTypeParams_def
  by (intro ok_intro ok_stmt parseTypeParams_loop_ok) simp_all

lemma parseOptionalTypeParams_ok: "okR (list_all typeParamOk) (parseOptionalTypeParams n p)"
  unfolding parseOptionalTypeParams_def
  by (intro ok_intro parseTypeParams_ok) simp_all

lemma parseReturn_ok:
  assumes "okE recE"
  shows "okR stmtOk (parseReturn recE n p)"
  unfolding parseReturn_def
  by (intro ok_intro assms  ok_stmt parseExpr_ok )
     (simp_all add: Let_def assms )?

lemma parseRaise_ok:
  assumes "okE recE"
  shows "okR stmtOk (parseRaise recE n p)"
  unfolding parseRaise_def
  by (intro ok_intro assms  ok_stmt parseExpr_ok )
     (simp_all add: Let_def assms )?

lemma parseAssert_ok:
  assumes "okE recE"
  shows "okR stmtOk (parseAssert recE n p)"
  unfolding parseAssert_def
  by (intro ok_intro assms  ok_stmt parseExpr_ok )
     (simp_all add: Let_def assms )?

lemma parseDelete_ok:
  assumes "okE recE"
  shows "okR stmtOk (parseDelete recE n p)"
  unfolding parseDelete_def
  by (intro ok_intro assms  ok_stmt parseExpr_ok )
     (simp_all add: Let_def assms )?

lemma parseTypeAlias_ok:
  assumes "okE recE"
  shows "okR stmtOk (parseTypeAlias recE n p)"
  unfolding parseTypeAlias_def
  by (intro ok_intro assms  ok_stmt parseExpr_ok parseOptionalTypeParams_ok)
     (simp_all add: Let_def assms )?

lemma parseExprList_ok:
  assumes "okE recE"
  shows "okR exprOk (parseExprList recE n p)"
  unfolding parseExprList_def
  by (intro ok_intro assms  ok_stmt parseExpr_ok )
     (simp_all add: Let_def assms )?

lemma parseExpressionStatement_loop_ok:
  assumes "okE recE"
  shows "list_all exprOk targets
         \<Longrightarrow> targets \<noteq> []
         \<Longrightarrow> okR (\<lambda>ts. list_all exprOk ts \<and> ts \<noteq> [])
               (parseExpressionStatement_loop recE n k targets p)"
proof (induction k arbitrary: targets p)
  case 0
  show ?case by (simp add: okR_Inl)
next
  case (Suc k)
  show ?case
    unfolding parseExpressionStatement_loop.simps
    by (intro ok_intro assms  ok_stmt parseExpr_ok parseExprList_ok Suc.IH)
       (simp_all add: Let_def assms Suc.prems )?
qed

lemma list_all_butlast: "list_all P xs \<Longrightarrow> list_all P (butlast xs)"
  by (induction xs) simp_all

lemma list_all_last: "list_all P xs \<Longrightarrow> xs \<noteq> [] \<Longrightarrow> P (last xs)"
  by (induction xs) simp_all

lemma parseExpressionStatement_ok:
  assumes "okE recE"
  shows "okR stmtOk (parseExpressionStatement recE n p)"
  unfolding parseExpressionStatement_def
  by (intro okR_bindP [where Q = "\<lambda>ts. list_all exprOk ts \<and> ts \<noteq> []"]
        parseExpressionStatement_loop_ok ok_intro assms parseExpr_ok parseExprList_ok)
     (simp_all add: list_all_butlast list_all_last)

lemma parseSimpleStatement_ok:
  assumes "okE recE"
  shows "okR (pred_option stmtOk) (parseSimpleStatement recE n p)"
  unfolding parseSimpleStatement_def
  by (intro ok_intro assms  ok_stmt parseExpr_ok parseImport_ok parseFromImport_ok parseReturn_ok parseRaise_ok parseGlobal_ok parseNonlocal_ok parseAssert_ok parseDelete_ok parseExpressionStatement_ok)
     (simp_all add: Let_def assms )?

lemma parseAnnotation_ok:
  assumes "okE recE"
  shows "okR (pred_option exprOk) (parseAnnotation recE n p)"
  unfolding parseAnnotation_def
  by (intro ok_intro assms  ok_stmt parseExpr_ok )
     (simp_all add: Let_def assms )?

lemma parseArguments_loop_ok:
  assumes "okE recE"
  shows "list_all argOk args
         \<Longrightarrow> list_all exprOk defaults
         \<Longrightarrow> list_all argOk kwonlyargs
         \<Longrightarrow> list_all (pred_option exprOk) kwDefaults
         \<Longrightarrow> pred_option argOk vararg
         \<Longrightarrow> pred_option argOk kwarg
         \<Longrightarrow> okR argumentsOk
               (parseArguments_loop recE n k args defaults kwonlyargs kwDefaults vararg kwarg seenStar p)"
proof (induction k arbitrary: args defaults kwonlyargs kwDefaults vararg kwarg seenStar p)
  case 0
  show ?case by (simp add: okR_Inl)
next
  case (Suc k)
  show ?case
    unfolding parseArguments_loop.simps
    by (intro ok_intro assms  ok_stmt parseExpr_ok parseAnnotation_ok Suc.IH)
       (simp_all add: Let_def assms Suc.prems )?
qed

lemma parseArguments_ok:
  assumes "okE recE"
  shows "okR argumentsOk (parseArguments recE n p)"
  unfolding parseArguments_def
  by (intro ok_intro assms  parseArguments_loop_ok)
     (simp_all add: Let_def assms )?

lemma parseSuite_loop_ok:
  assumes "\<And>q. okR (pred_option stmtOk) (recS q)"
  shows "list_all stmtOk body \<Longrightarrow> okR (list_all stmtOk) (parseSuite_loop recS k body p)"
proof (induction k arbitrary: body p)
  case 0
  show ?case by (simp add: okR_Inl)
next
  case (Suc k)
  show ?case
    unfolding parseSuite_loop.simps
    by (intro ok_intro ok_stmt assms Suc.IH) (simp_all add: Suc.prems push_ok)
qed

lemma parseSuite_ok:
  assumes "okE recE" and "\<And>q. okR (pred_option stmtOk) (recS q)"
  shows "okR (list_all stmtOk) (parseSuite recE recS n p)"
  unfolding parseSuite_def
  by (intro ok_intro assms  ok_stmt parseExpr_ok parseSuite_loop_ok parseSimpleStatement_ok)
     (simp_all add: Let_def assms push_ok)?

lemma keywordSuite_ok:
  assumes "okE recE" and "\<And>q. okR (pred_option stmtOk) (recS q)"
  shows "okR (list_all stmtOk) (keywordSuite kw recE recS n p)"
  unfolding keywordSuite_def
  by (intro ok_intro assms  ok_stmt parseExpr_ok parseSuite_ok )
     (simp_all add: Let_def assms )?

lemma parseFunctionDef_ok:
  assumes "okE recE" and "\<And>q. okR (pred_option stmtOk) (recS q)"
  shows "okR stmtOk (parseFunctionDef recE recS n isAsync p)"
  unfolding parseFunctionDef_def
  by (intro ok_intro assms  ok_stmt parseExpr_ok parseSuite_ok parseOptionalTypeParams_ok parseArguments_ok)
     (simp_all add: Let_def assms )?

lemma parseClassDef_loop_ok:
  assumes "okE recE"
  shows "list_all exprOk bases
         \<Longrightarrow> list_all keywordOk kws
         \<Longrightarrow> okR (\<lambda>r. list_all exprOk (fst r) \<and> list_all keywordOk (snd r))
               (parseClassDef_loop recE n k bases kws p)"
proof (induction k arbitrary: bases kws p)
  case 0
  show ?case by (simp add: okR_Inl)
next
  case (Suc k)
  show ?case
    unfolding parseClassDef_loop.simps
    by (intro ok_intro assms  ok_stmt parseExpr_ok  Suc.IH)
       (simp_all add: Let_def assms Suc.prems )?
qed

lemma parseClassDef_ok:
  assumes "okE recE" and "\<And>q. okR (pred_option stmtOk) (recS q)"
  shows "okR stmtOk (parseClassDef recE recS n p)"
  unfolding parseClassDef_def
  by (intro ok_intro assms  ok_stmt parseExpr_ok parseSuite_ok parseOptionalTypeParams_ok parseClassDef_loop_ok)
     (simp_all add: Let_def assms )?

lemma parseElif_ok:
  assumes "okE recE" and "\<And>q. okR (pred_option stmtOk) (recS q)"
  shows "okR stmtOk
               (parseElif recE recS n k p)"
proof (induction k arbitrary:  p)
  case 0
  show ?case by (simp add: okR_Inl)
next
  case (Suc k)
  show ?case
    unfolding parseElif.simps
    by (intro ok_intro assms  ok_stmt parseExpr_ok parseSuite_ok keywordSuite_ok Suc.IH)
       (simp_all add: Let_def assms Suc.prems )?
qed

lemma parseIf_ok:
  assumes "okE recE" and "\<And>q. okR (pred_option stmtOk) (recS q)"
  shows "okR stmtOk (parseIf recE recS n p)"
  unfolding parseIf_def
  by (intro ok_intro assms  ok_stmt parseExpr_ok parseSuite_ok keywordSuite_ok parseElif_ok)
     (simp_all add: Let_def assms )?

lemma parseFor_ok:
  assumes "okE recE" and "\<And>q. okR (pred_option stmtOk) (recS q)"
  shows "okR stmtOk (parseFor recE recS n isAsync p)"
  unfolding parseFor_def
  by (intro ok_intro assms  ok_stmt parseExpr_ok parseSuite_ok keywordSuite_ok parseTargetList_ok)
     (simp_all add: Let_def assms )?

lemma parseWhile_ok:
  assumes "okE recE" and "\<And>q. okR (pred_option stmtOk) (recS q)"
  shows "okR stmtOk (parseWhile recE recS n p)"
  unfolding parseWhile_def
  by (intro ok_intro assms  ok_stmt parseExpr_ok parseSuite_ok keywordSuite_ok)
     (simp_all add: Let_def assms )?

lemma parseWithItem_ok:
  assumes "okE recE"
  shows "okR withitemOk (parseWithItem recE n p)"
  unfolding parseWithItem_def
  by (intro ok_intro assms  ok_stmt parseExpr_ok )
     (simp_all add: Let_def assms )?

lemma parseWith_ok:
  assumes "okE recE" and "\<And>q. okR (pred_option stmtOk) (recS q)"
  shows "okR stmtOk (parseWith recE recS n isAsync p)"
  unfolding parseWith_def
  by (intro ok_intro assms  ok_stmt parseExpr_ok parseSuite_ok parseWithItem_ok)
     (simp_all add: Let_def assms )?

subsection \<open>Patterns\<close>

lemma parseMapping_loop_ok:
  assumes "okE recE" and "\<And>q. okR patternOk (recP q)"
  shows "list_all exprOk keys
         \<Longrightarrow> list_all patternOk pats
         \<Longrightarrow> okR (\<lambda>r. list_all exprOk (fst r) \<and> list_all patternOk (fst (snd r)))
               (parseMapping_loop recE recP n k keys pats rest p)"
proof (induction k arbitrary: keys pats rest p)
  case 0
  show ?case by (simp add: okR_Inl)
next
  case (Suc k)
  show ?case
    unfolding parseMapping_loop.simps
    by (intro ok_intro assms  ok_stmt parseExpr_ok  Suc.IH)
       (simp_all add: Let_def assms Suc.prems )?
qed

lemma parseClassPattern_loop_ok:
  assumes "\<And>q. okR patternOk (recP q)"
  shows "list_all patternOk pats \<Longrightarrow> list_all patternOk kwdPatterns
         \<Longrightarrow> okR (\<lambda>r. list_all patternOk (fst r) \<and> list_all patternOk (snd (snd r)))
               (parseClassPattern_loop recP k pats kwdAttrs kwdPatterns p)"
proof (induction k arbitrary: pats kwdAttrs kwdPatterns p)
  case 0
  show ?case by (simp add: okR_Inl)
next
  case (Suc k)
  show ?case
    unfolding parseClassPattern_loop.simps
    by (intro ok_intro ok_stmt assms Suc.IH) (simp_all add: Suc.prems)
qed

lemma parseValuePattern_loop_ok:
  "exprOk fullName \<Longrightarrow> okR exprOk (parseValuePattern_loop k fullName p)"
proof (induction k arbitrary: fullName p)
  case 0
  show ?case by (simp add: okR_Inl)
next
  case (Suc k)
  show ?case
    unfolding parseValuePattern_loop.simps
    by (intro ok_intro Suc.IH) (simp_all add: Suc.prems)
qed

lemma parsePrimaryPattern_ok:
  assumes "okE recE" and "\<And>q. okR patternOk (recP q)"
  shows "okR patternOk (parsePrimaryPattern recE recP n p)"
  unfolding parsePrimaryPattern_def
  by (intro ok_intro assms  ok_stmt parseExpr_ok parseMapping_loop_ok parseClassPattern_loop_ok parseValuePattern_loop_ok parsePrimary_ok)
     (simp_all add: Let_def assms )?

lemma parseAsPattern_ok:
  assumes "okE recE" and "\<And>q. okR patternOk (recP q)"
  shows "okR patternOk (parseAsPattern recE recP n p)"
  unfolding parseAsPattern_def
  by (intro ok_intro assms  ok_stmt parseExpr_ok parsePrimaryPattern_ok)
     (simp_all add: Let_def assms )?

lemma parseOrPattern_loop_ok:
  assumes "okE recE" and "\<And>q. okR patternOk (recP q)"
  shows "list_all patternOk pats
         \<Longrightarrow> okR (list_all patternOk)
               (parseOrPattern_loop recE recP n k pats p)"
proof (induction k arbitrary: pats p)
  case 0
  show ?case by (simp add: okR_Inl)
next
  case (Suc k)
  show ?case
    unfolding parseOrPattern_loop.simps
    by (intro ok_intro assms  ok_stmt parseExpr_ok parseAsPattern_ok Suc.IH)
       (simp_all add: Let_def assms Suc.prems )?
qed

lemma parseOrPattern_ok:
  assumes "okE recE" and "\<And>q. okR patternOk (recP q)"
  shows "okR patternOk (parseOrPattern recE recP n p)"
  unfolding parseOrPattern_def
  by (intro ok_intro assms  ok_stmt parseExpr_ok parseAsPattern_ok parseOrPattern_loop_ok)
     (simp_all add: Let_def assms )?

lemma parsePattern_ok:
  assumes "okE recE" and "\<And>q. okR patternOk (recP q)"
  shows "okR patternOk (parsePattern recE recP n p)"
  unfolding parsePattern_def
  by (intro ok_intro assms  ok_stmt parseExpr_ok parseOrPattern_ok)
     (simp_all add: Let_def assms )?

lemma runPattern_ok: "okR patternOk (runPattern n p)"
proof (induction n arbitrary: p)
  case 0
  show ?case by (simp add: okR_Inl)
next
  case (Suc n)
  show ?case
    unfolding runPattern.simps
    by (rule parsePattern_ok) (rule runExpr_ok Suc)+
qed

subsection \<open>The remaining statements and the module\<close>

lemma parseMatchCase_ok:
  assumes "okE recE" and "\<And>q. okR patternOk (recP q)" and "\<And>q. okR (pred_option stmtOk) (recS q)"
  shows "okR matchCaseOk (parseMatchCase recE recP recS n p)"
  unfolding parseMatchCase_def
  by (intro ok_intro assms  ok_stmt parseExpr_ok parseSuite_ok parsePattern_ok)
     (simp_all add: Let_def assms )?

lemma parseMatch_loop_ok:
  assumes "okE recE" and "\<And>q. okR patternOk (recP q)" and "\<And>q. okR (pred_option stmtOk) (recS q)"
  shows "list_all matchCaseOk cases
         \<Longrightarrow> okR (list_all matchCaseOk)
               (parseMatch_loop recE recP recS n k cases p)"
proof (induction k arbitrary: cases p)
  case 0
  show ?case by (simp add: okR_Inl)
next
  case (Suc k)
  show ?case
    unfolding parseMatch_loop.simps
    by (intro ok_intro assms  ok_stmt parseExpr_ok parseSuite_ok parseMatchCase_ok Suc.IH)
       (simp_all add: Let_def assms Suc.prems )?
qed

lemma parseMatch_ok:
  assumes "okE recE" and "\<And>q. okR patternOk (recP q)" and "\<And>q. okR (pred_option stmtOk) (recS q)"
  shows "okR stmtOk (parseMatch recE recP recS n p)"
  unfolding parseMatch_def
  by (intro ok_intro assms  ok_stmt parseExpr_ok parseSuite_ok parseMatch_loop_ok)
     (simp_all add: Let_def assms )?

lemma parseExceptHandler_ok:
  assumes "okE recE" and "\<And>q. okR (pred_option stmtOk) (recS q)"
  shows "okR handlerOk (parseExceptHandler recE recS n p)"
  unfolding parseExceptHandler_def
  by (intro ok_intro assms  ok_stmt parseExpr_ok parseSuite_ok )
     (simp_all add: Let_def assms )?

lemma parseTry_loop_ok:
  assumes "okE recE" and "\<And>q. okR (pred_option stmtOk) (recS q)"
  shows "list_all handlerOk handlers
         \<Longrightarrow> okR (list_all handlerOk)
               (parseTry_loop recE recS n k handlers p)"
proof (induction k arbitrary: handlers p)
  case 0
  show ?case by (simp add: okR_Inl)
next
  case (Suc k)
  show ?case
    unfolding parseTry_loop.simps
    by (intro ok_intro assms  ok_stmt parseExpr_ok parseSuite_ok parseExceptHandler_ok Suc.IH)
       (simp_all add: Let_def assms Suc.prems )?
qed

lemma parseTry_ok:
  assumes "okE recE" and "\<And>q. okR (pred_option stmtOk) (recS q)"
  shows "okR stmtOk (parseTry recE recS n p)"
  unfolding parseTry_def
  by (intro ok_intro assms  ok_stmt parseExpr_ok parseSuite_ok parseTry_loop_ok keywordSuite_ok)
     (simp_all add: Let_def assms )?

lemma parseDecorated_loop_ok:
  assumes "okE recE"
  shows "list_all exprOk decorators
         \<Longrightarrow> okR (list_all exprOk)
               (parseDecorated_loop recE n k decorators p)"
proof (induction k arbitrary: decorators p)
  case 0
  show ?case by (simp add: okR_Inl)
next
  case (Suc k)
  show ?case
    unfolding parseDecorated_loop.simps
    by (intro ok_intro assms  ok_stmt parseExpr_ok  Suc.IH)
       (simp_all add: Let_def assms Suc.prems )?
qed

lemma setDecorators_ok:
  "stmtOk node \<Longrightarrow> list_all exprOk decorators \<Longrightarrow> stmtOk (setDecorators decorators node)"
  by (cases node) (simp_all add: setDecorators_def)

lemma parseDecorated_ok:
  assumes "okE recE" and "\<And>q. okR (pred_option stmtOk) (recS q)"
  shows "okR stmtOk (parseDecorated recE recS n p)"
  unfolding parseDecorated_def
  by (intro ok_intro assms  ok_stmt parseExpr_ok parseSuite_ok parseDecorated_loop_ok parseFunctionDef_ok parseClassDef_ok)
     (simp_all add: Let_def assms setDecorators_ok)?

lemma parseAsyncStatement_ok:
  assumes "okE recE" and "\<And>q. okR (pred_option stmtOk) (recS q)"
  shows "okR stmtOk (parseAsyncStatement recE recS n p)"
  unfolding parseAsyncStatement_def
  by (intro ok_intro assms  ok_stmt parseExpr_ok parseSuite_ok parseFunctionDef_ok parseFor_ok parseWith_ok)
     (simp_all add: Let_def assms )?

lemma parseStatement_ok:
  assumes "okE recE" and "\<And>q. okR patternOk (recP q)" and "\<And>q. okR (pred_option stmtOk) (recS q)"
  shows "okR (pred_option stmtOk) (parseStatement recE recP recS n p)"
  unfolding parseStatement_def
  by (intro ok_intro assms  ok_stmt parseExpr_ok parseSuite_ok parseDecorated_ok parseFunctionDef_ok parseAsyncStatement_ok parseClassDef_ok parseIf_ok parseFor_ok parseWhile_ok parseWith_ok parseMatch_ok parseTry_ok parseTypeAlias_ok parseSimpleStatement_ok)
     (simp_all add: Let_def assms )?

lemma runStatement_ok: "okR (pred_option stmtOk) (runStatement n p)"
proof (induction n arbitrary: p)
  case 0
  show ?case by (simp add: okR_Inl)
next
  case (Suc n)
  show ?case
    unfolding runStatement.simps
    by (rule parseStatement_ok) (rule runExpr_ok runPattern_ok Suc)+
qed

lemma parse_loop_ok:
  assumes "\<And>q. okR (pred_option stmtOk) (parseStmt q)"
  shows "list_all stmtOk body \<Longrightarrow> okR (list_all stmtOk) (parse_loop parseStmt k body p)"
proof (induction k arbitrary: body p)
  case 0
  show ?case by (simp add: okR_Inl)
next
  case (Suc k)
  show ?case
    unfolding parse_loop.simps
    by (intro ok_intro ok_stmt assms Suc.IH) (simp_all add: Suc.prems push_ok)
qed

lemma parseExpression_ok:
  assumes "parseExpression n src = Inr e"
  shows "exprOk e"
proof -
  obtain p0 where p0: "newParser src = Inr p0"
    using assms by (auto simp: parseExpression_def split: sum.splits)
  obtain p' where "runExpr n CExpr p0 = Inr (e, p')"
    using assms p0 by (auto simp: parseExpression_def split: sum.splits)
  then show ?thesis
    using okE_D [OF runExpr_ok, of n CExpr p0] by (simp add: okR_def)
qed

lemma parse_ok:
  assumes "parse n src = Inr m"
  shows "moduleOk m"
proof -
  obtain p0 where p0: "newParser src = Inr p0"
    using assms by (auto simp: parse_def split: sum.splits)
  obtain body p' where r: "parse_loop (runStatement n) n [] p0 = Inr (body, p')" and m: "m = Module body"
    using assms p0 by (auto simp: parse_def split: sum.splits)
  have "okR (list_all stmtOk) (parse_loop (runStatement n) n [] p0)"
    by (rule parse_loop_ok) (simp_all add: runStatement_ok)
  then show ?thesis
    using r m by (simp add: okR_def)
qed

subsection \<open>The invariant of comparison nodes\<close>

lemma parse_assign_comparison:
  "parse 5 ''ok = lo <= x < hi'' =
     Inr (Module [Assign [Name ''ok''] (Compare (Name ''lo'') [LtE, Lt] [Name ''x'', Name ''hi''])])"
  by code_simp

lemma parseExpression_not_in:
  "parseExpression 5 ''a not in b'' = Inr (Compare (Name ''a'') [NotIn] [Name ''b''])"
  by code_simp

text \<open>
  C6.  Whenever \<open>parse\<close> or \<open>parseExpression\<close> returns a tree, with whatever fuel, every
  \<open>Compare\<close> node in the tree has as many operators as comparators, and one at least:
  the module satisfies \<open>moduleOk\<close>, the expression \<open>exprOk\<close>.
\<close>

theorem C6_compare_nodes_well_formed:
  "(parse n src = Inr m \<longrightarrow> moduleOk m) \<and> (parseExpression n' src' = Inr e \<longrightarrow> exprOk e)"
  using parse_ok parseExpression_ok by blast

theorem C6_compare_nodes_well_formed_witness:
  "moduleOk
     (Module [Assign [Name ''ok''] (Compare (Name ''lo'') [LtE, Lt] [Name ''x'', Name ''hi''])])
   \<and> exprOk (Compare (Name ''a'') [NotIn] [Name ''b''])"
  using C6_compare_nodes_well_formed
          [of 5 "''ok = lo <= x < hi''"
              "Module [Assign [Name ''ok''] (Compare (Name ''lo'') [LtE, Lt] [Name ''x'', Name ''hi''])]"
              5 "''a not in b''" "Compare (Name ''a'') [NotIn] [Name ''b'']"]
    parse_assign_comparison parseExpression_not_in
  by blast

section \<open>Relative imports\<close>

subsection \<open>What the tokenizer reads after \<open>from\<close>\<close>




lemma readOperator_dot:
  "readOperator (CHR ''.'' # rest) =
     (if take 2 rest = ''..'' then Inr (makeToken OP ''...'', drop 2 rest)
      else Inr (makeToken OP ''.'', rest))"
  by (simp add: readOperator_def threeCharOps_def twoCharOps_def)

lemma readOperator_not_dot:
  "c \<noteq> CHR ''.'' \<Longrightarrow> readOperator (c # rest) = Inr (tok, r') \<Longrightarrow>
     tok_type tok = OP \<and> tok_value tok \<noteq> ''.'' \<and> tok_value tok \<noteq> ''...''"
  by (auto simp: readOperator_def makeToken_def split: if_splits)

lemma readNumber_type:
  assumes "readNumber r = Inr (tok, r')"
  shows "tok_type tok = NUMBER"
proof (cases "charAt r 0 = Some (CHR ''0'') \<and> charAt r 1 \<in> Some ` set ''xXoObB''")
  case True
  then show ?thesis
    using assms unfolding readNumber_def Let_def by (auto simp: makeToken_def)
next
  case False
  then have "\<exists>v. tok = makeToken NUMBER v"
    using assms unfolding readNumber_def Let_def by (simp only: if_False sum.inject prod.inject) blast
  then show ?thesis by (auto simp: makeToken_def)
qed

lemma readFStringContent_type:
  "readFStringContent r = Inr (tok, r') \<Longrightarrow> tok_type tok = STRING"
  unfolding readFStringContent_def Let_def
  by (cases "drop 1 r") (auto simp: makeToken_def)

lemma readRawString_type: "readRawString r = Inr (tok, r') \<Longrightarrow> tok_type tok = STRING"
  unfolding readRawString_def Let_def
  by (cases "drop 1 r") (auto simp: makeToken_def)

lemma readString_type: "readString r = Inr (tok, r') \<Longrightarrow> tok_type tok = STRING"
  unfolding readString_def
  by (cases "readStringFrom r") (auto simp: makeToken_def)

lemma readByteString_type: "readByteString r = Inr (tok, r') \<Longrightarrow> tok_type tok = STRING"
  unfolding readByteString_def
  by (cases "readStringFrom (drop 1 r)") (auto simp: makeToken_def)

lemmas read_types =
  readString_type readFStringContent_type [folded readFString_def] readFStringContent_type
  readRawString_type readByteString_type readNumber_type

lemma if_chain:
  assumes "(if c1 then a1 else if c2 then a2 else if c3 then a3 else if c4 then a4
            else if c5 then a5 else if c6 then a6 else if c7 then a7 else if c8 then a8
            else if c9 then a9 else a10) = v"
  shows "a1 = v \<or> a2 = v \<or> a3 = v \<or> a4 = v \<or> a5 = v \<or> a6 = v \<or> a7 = v \<or> a8 = v
         \<or> (c9 \<and> a9 = v) \<or> (\<not> c9 \<and> a10 = v)"
  using assms by (simp split: if_splits)

lemma readLexeme_kinds:
  assumes "readLexeme (ch # rest) = Inr (tok, r')"
  obtains (str) "tok_type tok = STRING"
        | (num) "tok_type tok = NUMBER"
        | (name) "isNameStart ch" and "readName (ch # rest) = Inr (tok, r')"
        | (op) "\<not> isNameStart ch" and "readOperator (ch # rest) = Inr (tok, r')"
proof -
  have "readString (ch # rest) = Inr (tok, r') \<or> readFString (ch # rest) = Inr (tok, r')
        \<or> readRawString (ch # rest) = Inr (tok, r') \<or> readByteString (ch # rest) = Inr (tok, r')
        \<or> readFStringContent (drop 1 (ch # rest)) = Inr (tok, r')
        \<or> readFStringContent (drop 1 (ch # rest)) = Inr (tok, r')
        \<or> readNumber (ch # rest) = Inr (tok, r') \<or> readNumber (ch # rest) = Inr (tok, r')
        \<or> ((case charAt (ch # rest) 0 of None \<Rightarrow> False | Some c \<Rightarrow> isNameStart c)
            \<and> readName (ch # rest) = Inr (tok, r'))
        \<or> (\<not> (case charAt (ch # rest) 0 of None \<Rightarrow> False | Some c \<Rightarrow> isNameStart c)
            \<and> readOperator (ch # rest) = Inr (tok, r'))"
    using assms unfolding readLexeme_def Let_def by (rule if_chain)
  moreover have "(case charAt (ch # rest) 0 of None \<Rightarrow> False | Some c \<Rightarrow> isNameStart c)
                 = isNameStart ch"
    by (simp add: charAt_def)
  ultimately have "tok_type tok = STRING \<or> tok_type tok = NUMBER
      \<or> (isNameStart ch \<and> readName (ch # rest) = Inr (tok, r'))
      \<or> (\<not> isNameStart ch \<and> readOperator (ch # rest) = Inr (tok, r'))"
    by (elim disjE conjE) (simp_all add: read_types)
  then show thesis
    using that by blast
qed

lemma readLexeme_dots:
  assumes "readLexeme (ch # rest) = Inr (tok, r')"
  shows "tok_type tok = OP \<and> tok_value tok = ''.'' \<longrightarrow> ch = CHR ''.'' \<and> r' = rest"
    and "tok_type tok = OP \<and> tok_value tok = ''...'' \<longrightarrow> ch = CHR ''.'' \<and> r' = drop 2 rest"
    and "tok_type tok = NAME \<longrightarrow> isNameStart ch \<and> tok_value tok = takeWhile isNameChar (ch # rest)"
  using assms
proof (atomize (full), cases rule: readLexeme_kinds)
  case str
  then show "(tok_type tok = OP \<and> tok_value tok = ''.'' \<longrightarrow> ch = CHR ''.'' \<and> r' = rest) \<and>
    (tok_type tok = OP \<and> tok_value tok = ''...'' \<longrightarrow> ch = CHR ''.'' \<and> r' = drop 2 rest) \<and>
    (tok_type tok = NAME \<longrightarrow> isNameStart ch \<and> tok_value tok = takeWhile isNameChar (ch # rest))"
    by simp
next
  case num
  then show "(tok_type tok = OP \<and> tok_value tok = ''.'' \<longrightarrow> ch = CHR ''.'' \<and> r' = rest) \<and>
    (tok_type tok = OP \<and> tok_value tok = ''...'' \<longrightarrow> ch = CHR ''.'' \<and> r' = drop 2 rest) \<and>
    (tok_type tok = NAME \<longrightarrow> isNameStart ch \<and> tok_value tok = takeWhile isNameChar (ch # rest))"
    by simp
next
  case name
  then show "(tok_type tok = OP \<and> tok_value tok = ''.'' \<longrightarrow> ch = CHR ''.'' \<and> r' = rest) \<and>
    (tok_type tok = OP \<and> tok_value tok = ''...'' \<longrightarrow> ch = CHR ''.'' \<and> r' = drop 2 rest) \<and>
    (tok_type tok = NAME \<longrightarrow> isNameStart ch \<and> tok_value tok = takeWhile isNameChar (ch # rest))"
    by (auto simp: readName_def makeToken_def)
next
  case op
  show "(tok_type tok = OP \<and> tok_value tok = ''.'' \<longrightarrow> ch = CHR ''.'' \<and> r' = rest) \<and>
    (tok_type tok = OP \<and> tok_value tok = ''...'' \<longrightarrow> ch = CHR ''.'' \<and> r' = drop 2 rest) \<and>
    (tok_type tok = NAME \<longrightarrow> isNameStart ch \<and> tok_value tok = takeWhile isNameChar (ch # rest))"
  proof (cases "ch = CHR ''.''")
    case True
    then show ?thesis
      using op(2) by (auto simp: readOperator_dot makeToken_def split: if_splits)
  next
    case False
    then show ?thesis
      using readOperator_not_dot [OF False op(2)] by simp
  qed
qed














subsection \<open>Results of the parser's primitives\<close>








subsection \<open>The level of a relative import\<close>





subsection \<open>A relative import at the head of a module\<close>




subsection \<open>Relative imports\<close>




end
